(* ===== verification/Prelude.thy ===== *)
theory Prelude
  imports Main "HOL-Library.AList" "HOL-Library.Monad_Syntax"
begin

text \<open>
  Shared ground of the development: the result type of fallible code, JavaScript values and
  numbers as far as the sources use them, string operations, decimal text, and the
  association-list facts on which the Redis hashes rest.

  A JavaScript string is a \<^typ>\<open>string\<close>, one \<^typ>\<open>char\<close> per code unit; code units above 255 are
  not represented. Every pattern of the sources that validates text is an ASCII whitelist, so
  such units could only occur in text that the patterns reject. A number is an integer, an
  infinity or NaN; the sources compute only with millisecond stamps and counters.
\<close>

named_theorems js_simps \<open>evaluation of JavaScript primitives\<close>
named_theorems redis_simps \<open>laws of the Redis data structures\<close>
named_theorems script_defs \<open>definitions of the Lua scripts\<close>

section \<open>Errors and results\<close>

text \<open>
  One constructor for each class of thrown error. The payload is the constant part of the
  message; values that the sources interpolate into a message are left out.
\<close>

datatype js_error =
    TypeError string
  | RangeError string
  | GenericError string
  | PersistenceConflictError string
  | AggregateError string
  | DatabaseError string
  | WorkerLifecycleAbortError
  | ConsumerRunTerminatedError string

type_synonym 'a result = "js_error + 'a"

definition bind_result :: "'a result \<Rightarrow> ('a \<Rightarrow> 'b result) \<Rightarrow> 'b result" where
  "bind_result r f = (case r of Inl e \<Rightarrow> Inl e | Inr x \<Rightarrow> f x)"

definition guard_error :: "bool \<Rightarrow> js_error \<Rightarrow> unit result" where
  "guard_error bad e = (if bad then Inl e else Inr ())"

lemma bind_result_simps [simp]:
  "bind_result (Inl e) f = Inl e"
  "bind_result (Inr x) f = f x"
  by (simp_all add: bind_result_def)

lemma bind_result_eq_Inr:
  "bind_result r f = Inr y \<longleftrightarrow> (\<exists>x. r = Inr x \<and> f x = Inr y)"
  by (cases r) simp_all

lemma guard_error_simps [simp]:
  "guard_error True e = Inl e"
  "guard_error False e = Inr ()"
  by (simp_all add: guard_error_def)

lemma guard_error_eq_Inr [simp]: "guard_error b e = Inr u \<longleftrightarrow> \<not> b"
  by (simp add: guard_error_def)

lemma guard_error_eq_Inl [simp]: "guard_error b e = Inl e' \<longleftrightarrow> b \<and> e' = e"
  by (auto simp: guard_error_def)

section \<open>Effectful code\<close>

text \<open>
  An asynchronous method that reads and changes a state of type \<open>'s\<close> and either returns or
  throws. The state survives a throw, as it does in the program.
\<close>

type_synonym ('s, 'a) io = "'s \<Rightarrow> 'a result \<times> 's"

definition io_return :: "'a \<Rightarrow> ('s, 'a) io" where
  "io_return x s = (Inr x, s)"

definition io_throw :: "js_error \<Rightarrow> ('s, 'a) io" where
  "io_throw e s = (Inl e, s)"

definition io_lift :: "'a result \<Rightarrow> ('s, 'a) io" where
  "io_lift r s = (r, s)"

definition io_bind :: "('s, 'a) io \<Rightarrow> ('a \<Rightarrow> ('s, 'b) io) \<Rightarrow> ('s, 'b) io" where
  "io_bind m f s = (case m s of (Inl e, s1) \<Rightarrow> (Inl e, s1) | (Inr x, s1) \<Rightarrow> f x s1)"

text \<open>\<open>try\<close> with a \<open>catch\<close> clause that receives the error.\<close>

definition io_catch :: "('s, 'a) io \<Rightarrow> (js_error \<Rightarrow> ('s, 'a) io) \<Rightarrow> ('s, 'a) io" where
  "io_catch m h s = (case m s of (Inl e, s1) \<Rightarrow> h e s1 | (Inr x, s1) \<Rightarrow> (Inr x, s1))"

text \<open>A method of a part of the state, run in the whole.\<close>

definition io_part :: "('w \<Rightarrow> 's) \<Rightarrow> ('s \<Rightarrow> 'w \<Rightarrow> 'w) \<Rightarrow> ('s, 'a) io \<Rightarrow> ('w, 'a) io" where
  "io_part get put m w = (case m (get w) of (r, s) \<Rightarrow> (r, put s w))"

fun io_for :: "('a \<Rightarrow> ('s, unit) io) \<Rightarrow> 'a list \<Rightarrow> ('s, unit) io" where
  "io_for f [] = io_return ()"
| "io_for f (x # xs) = io_bind (f x) (\<lambda>_. io_for f xs)"

lemma io_simps [simp]:
  "io_return x s = (Inr x, s)" "io_throw e s = (Inl e, s)" "io_lift r s = (r, s)"
  by (simp_all add: io_return_def io_throw_def io_lift_def)

lemma io_bind_step [simp]:
  "m s = (Inr x, s1) \<Longrightarrow> io_bind m f s = f x s1"
  "m s = (Inl e, s1) \<Longrightarrow> io_bind m f s = (Inl e, s1)"
  by (simp_all add: io_bind_def)

lemma io_bind_lift [simp]:
  "io_bind (io_lift (Inr x)) f = f x" "io_bind (io_return x) f = f x"
  by (simp_all add: io_bind_def fun_eq_iff)

lemma io_bind_Inr:
  "io_bind m f s = (Inr y, t) \<longleftrightarrow> (\<exists>x s1. m s = (Inr x, s1) \<and> f x s1 = (Inr y, t))"
  by (auto simp: io_bind_def split: prod.splits sum.splits)

lemma io_catch_step [simp]:
  "m s = (Inr x, s1) \<Longrightarrow> io_catch m h s = (Inr x, s1)"
  "m s = (Inl e, s1) \<Longrightarrow> io_catch m h s = h e s1"
  by (simp_all add: io_catch_def)

text \<open>
  Code that only moves the state along a reflexive and transitive relation, whether it returns or
  throws: the rules by which sequences, handlers and branches inherit it from their parts.
\<close>

locale io_relation =
  fixes R :: "'s \<Rightarrow> 's \<Rightarrow> bool"
  assumes stays: "R s s" and chains: "R s t \<Longrightarrow> R t u \<Longrightarrow> R s u"
begin

definition within :: "('s, 'a) io \<Rightarrow> bool" where
  "within m \<longleftrightarrow> (\<forall>s. R s (snd (m s)))"

lemma within_pure: "within (io_return x)" "within (io_throw e)" "within (io_lift r)"
  by (simp_all add: within_def stays)

lemma within_bind: "within m \<Longrightarrow> (\<And>x. within (f x)) \<Longrightarrow> within (io_bind m f)"
  unfolding within_def io_bind_def by (auto split: prod.splits sum.splits) (metis chains snd_conv)+

lemma within_catch: "within m \<Longrightarrow> (\<And>e. within (h e)) \<Longrightarrow> within (io_catch m h)"
  unfolding within_def io_catch_def by (auto split: prod.splits sum.splits) (metis chains snd_conv)+

lemma within_branch:
  "within m \<Longrightarrow> within n \<Longrightarrow> within (if b then m else n)"
  "(\<And>a b. within (g a b)) \<Longrightarrow> within (case p of (a, b) \<Rightarrow> g a b)"
  "(\<And>x. within (f x)) \<Longrightarrow> within (Let y f)"
  by (simp_all add: Let_def split: prod.split)

lemma within_eta: "within m \<Longrightarrow> R s (snd (m s))"
  by (simp add: within_def)

lemmas within_intros = within_pure within_bind within_catch within_branch

end

fun error_message :: "js_error \<Rightarrow> string" where
  "error_message (TypeError m) = m"
| "error_message (RangeError m) = m"
| "error_message (GenericError m) = m"
| "error_message (PersistenceConflictError m) = m"
| "error_message (AggregateError m) = m"
| "error_message (DatabaseError m) = m"
| "error_message WorkerLifecycleAbortError = ''worker lifecycle stopped''"
| "error_message (ConsumerRunTerminatedError m) = m"

section \<open>JavaScript numbers and values\<close>

datatype js_num = Fin int | PosInf | NegInf | NaN

text \<open>Relational operators: any comparison with NaN is false.\<close>

fun js_lt :: "js_num \<Rightarrow> js_num \<Rightarrow> bool" where
  "js_lt (Fin a) (Fin b) = (a < b)"
| "js_lt (Fin _) PosInf = True"
| "js_lt NegInf (Fin _) = True"
| "js_lt NegInf PosInf = True"
| "js_lt _ _ = False"

fun js_le :: "js_num \<Rightarrow> js_num \<Rightarrow> bool" where
  "js_le (Fin a) (Fin b) = (a \<le> b)"
| "js_le NaN _ = False"
| "js_le _ NaN = False"
| "js_le NegInf _ = True"
| "js_le _ PosInf = True"
| "js_le _ _ = False"

fun is_finite :: "js_num \<Rightarrow> bool" where
  "is_finite (Fin _) = True"
| "is_finite _ = False"

definition max_safe_integer :: int where
  "max_safe_integer = 9007199254740991"

fun is_safe_integer :: "js_num \<Rightarrow> bool" where
  "is_safe_integer (Fin n) = (\<bar>n\<bar> \<le> max_safe_integer)"
| "is_safe_integer _ = False"

text \<open>An \<open>unknown\<close>: the value of a decoded JSON text, or \<open>undefined\<close>.\<close>

datatype js_value =
    JUndefined
  | JNull
  | JBool bool
  | JNum js_num
  | JStr string
  | JArr "js_value list"
  | JObj "(string \<times> js_value) list"

text \<open>Property access on an object: an absent property reads as \<open>undefined\<close>.\<close>

fun js_get :: "js_value \<Rightarrow> string \<Rightarrow> js_value" where
  "js_get (JObj ps) k = (case map_of ps k of None \<Rightarrow> JUndefined | Some v \<Rightarrow> v)"
| "js_get _ k = JUndefined"

section \<open>Strings\<close>

text \<open>The code units that \<open>String.prototype.trim\<close> removes (the ones below 256).\<close>

definition is_js_space :: "char \<Rightarrow> bool" where
  "is_js_space c \<longleftrightarrow> (of_char c :: nat) \<in> {9, 10, 11, 12, 13, 32, 160}"

definition js_trim :: "string \<Rightarrow> string" where
  "js_trim s = rev (dropWhile is_js_space (rev (dropWhile is_js_space s)))"

definition is_lower :: "char \<Rightarrow> bool" where
  "is_lower c \<longleftrightarrow> 97 \<le> (of_char c :: nat) \<and> (of_char c :: nat) \<le> 122"

definition is_upper :: "char \<Rightarrow> bool" where
  "is_upper c \<longleftrightarrow> 65 \<le> (of_char c :: nat) \<and> (of_char c :: nat) \<le> 90"

definition is_digit :: "char \<Rightarrow> bool" where
  "is_digit c \<longleftrightarrow> 48 \<le> (of_char c :: nat) \<and> (of_char c :: nat) \<le> 57"

definition is_hex_digit :: "char \<Rightarrow> bool" where
  "is_hex_digit c \<longleftrightarrow> is_digit c \<or> (97 \<le> (of_char c :: nat) \<and> (of_char c :: nat) \<le> 102)
     \<or> (65 \<le> (of_char c :: nat) \<and> (of_char c :: nat) \<le> 70)"

text \<open>The text before and after the first colon, as \<open>indexOf\<close> and \<open>string.find\<close> split it.\<close>

fun split_colon :: "string \<Rightarrow> string \<times> string option" where
  "split_colon [] = ([], None)"
| "split_colon (c # cs) =
     (if c = CHR '':'' then ([], Some cs)
      else (case split_colon cs of (a, b) \<Rightarrow> (c # a, b)))"

fun starts_with :: "string \<Rightarrow> string \<Rightarrow> bool" where
  "starts_with [] _ = True"
| "starts_with (_ # _) [] = False"
| "starts_with (p # ps) (c # cs) = (p = c \<and> starts_with ps cs)"

fun contains_text :: "string \<Rightarrow> string \<Rightarrow> bool" where
  "contains_text p [] = (p = [])"
| "contains_text p (c # cs) = (starts_with p (c # cs) \<or> contains_text p cs)"

lemma js_trim_no_space [simp]:
  assumes "list_all (\<lambda>c. \<not> is_js_space c) s"
  shows "js_trim s = s"
proof -
  have keep: "dropWhile is_js_space xs = xs" if "\<forall>c \<in> set xs. \<not> is_js_space c" for xs
    using that by (cases xs) auto
  show ?thesis
    using assms keep [of s] keep [of "rev s"] by (simp add: js_trim_def list_all_iff)
qed

lemma js_trim_idem [simp]: "js_trim (js_trim s) = js_trim s"
proof -
  define a where "a = dropWhile is_js_space s"
  define b where "b = dropWhile is_js_space (rev a)"
  have last_ok: "b = [] \<or> \<not> is_js_space (hd b)"
    using hd_dropWhile [of is_js_space "rev a"] by (auto simp: b_def)
  have head_ok: "rev b = [] \<or> \<not> is_js_space (hd (rev b))"
  proof (cases "rev b = []")
    case False
    have "rev (dropWhile is_js_space (rev a)) = take (length b) a"
      unfolding b_def
      by (metis append_eq_conv_conj length_rev rev_append rev_rev_ident takeWhile_dropWhile_id)
    then have b: "rev b = take (length b) a" by (simp add: b_def)
    from False b have "hd (rev b) = hd a" and "a \<noteq> []"
      by (auto simp: hd_take)
    then show ?thesis using hd_dropWhile [of is_js_space s] by (auto simp: a_def)
  qed auto
  have fix_point: "dropWhile is_js_space xs = xs" if "xs = [] \<or> \<not> is_js_space (hd xs)" for xs
    using that by (cases xs) auto
  have trim: "js_trim s = rev b" by (simp add: js_trim_def a_def b_def)
  have "js_trim (rev b) = rev b"
    by (simp add: js_trim_def fix_point [OF head_ok] fix_point [OF last_ok])
  with trim show ?thesis by simp
qed

lemma split_colon_append:
  "list_all (\<lambda>c. c \<noteq> CHR '':'') a \<Longrightarrow> split_colon (a @ CHR '':'' # b) = (a, Some b)"
  by (induction a) auto

lemma split_colon_none:
  "list_all (\<lambda>c. c \<noteq> CHR '':'') a \<Longrightarrow> split_colon a = (a, None)"
  by (induction a) auto

section \<open>Decimal text\<close>

text \<open>
  \<open>String(n)\<close> of an integer, and what Lua's \<open>tonumber\<close> makes of such text. The keys that hold
  numbers are written by this program alone, always as canonical decimals, so \<open>tonumber\<close> is
  modelled on decimal text; any other text is \<open>nil\<close>.
\<close>

definition digit_char :: "nat \<Rightarrow> char" where
  "digit_char d = ''0123456789'' ! d"

definition digit_val :: "char \<Rightarrow> nat" where
  "digit_val c = of_char c - 48"

fun dec_nat :: "nat \<Rightarrow> string" where
  "dec_nat n = (if n < 10 then [digit_char n] else dec_nat (n div 10) @ [digit_char (n mod 10)])"

declare dec_nat.simps [simp del]

definition dec_int :: "int \<Rightarrow> string" where
  "dec_int i = (if i < 0 then CHR ''-'' # dec_nat (nat (- i)) else dec_nat (nat i))"

definition digits_val :: "string \<Rightarrow> nat" where
  "digits_val = foldl (\<lambda>acc c. 10 * acc + digit_val c) 0"

definition parse_digits :: "string \<Rightarrow> nat option" where
  "parse_digits s = (if s \<noteq> [] \<and> list_all is_digit s then Some (digits_val s) else None)"

fun tonumber :: "string \<Rightarrow> int option" where
  "tonumber [] = None"
| "tonumber (c # cs) =
     (if c = CHR ''-'' then map_option (\<lambda>n. - int n) (parse_digits cs)
      else map_option int (parse_digits (c # cs)))"

lemma less_10_cases:
  "(n::nat) < 10 \<Longrightarrow> n = 0 \<or> n = 1 \<or> n = 2 \<or> n = 3 \<or> n = 4 \<or> n = 5 \<or> n = 6 \<or> n = 7 \<or> n = 8 \<or> n = 9"
  by arith

lemma digit_char_props:
  assumes "d < 10"
  shows "is_digit (digit_char d)" and "digit_val (digit_char d) = d"
    and "digit_char d \<noteq> CHR ''-''" and "digit_char d \<noteq> CHR '':''"
  using less_10_cases [OF assms]
  by (auto simp: digit_char_def digit_val_def is_digit_def)

lemma dec_nat_digits: "list_all is_digit (dec_nat n)"
  by (induction n rule: dec_nat.induct)
    (subst dec_nat.simps, auto simp: digit_char_props)

lemma dec_nat_nonempty [simp]: "dec_nat n \<noteq> []"
  by (subst dec_nat.simps) simp

lemma digits_val_dec_nat [simp]: "digits_val (dec_nat n) = n"
proof (induction n rule: dec_nat.induct)
  case (1 n)
  then show ?case
    by (cases "n < 10")
      (simp_all add: dec_nat.simps [of n] digits_val_def digit_char_props)
qed

lemma parse_digits_dec_nat [simp]: "parse_digits (dec_nat n) = Some n"
  by (simp add: parse_digits_def dec_nat_digits)

lemma dec_nat_head: "dec_nat n = c # cs \<Longrightarrow> c \<noteq> CHR ''-''"
  using dec_nat_digits [of n] by (auto simp: is_digit_def)

lemma tonumber_dec_nat [simp]: "tonumber (dec_nat n) = Some (int n)"
proof (cases "dec_nat n")
  case (Cons c cs)
  moreover have "parse_digits (c # cs) = Some n"
    unfolding Cons [symmetric] by simp
  ultimately show ?thesis using dec_nat_head [OF Cons] by simp
qed simp

lemma tonumber_dec_int [simp]: "tonumber (dec_int i) = Some i"
  by (simp add: dec_int_def)

lemma dec_int_inject [simp]: "dec_int i = dec_int j \<longleftrightarrow> i = j"
  using tonumber_dec_int option.inject by metis

lemma dec_nat_no_colon: "list_all (\<lambda>c. c \<noteq> CHR '':'') (dec_nat n)"
proof -
  have "is_digit c \<Longrightarrow> c \<noteq> CHR '':''" for c by (auto simp: is_digit_def)
  then show ?thesis using dec_nat_digits [of n] by (auto simp: list_all_iff)
qed

section \<open>Association lists\<close>

text \<open>
  A Redis hash is an association list with distinct field names (\<open>distinct (map fst h)\<close>), so
  that \<open>HLEN\<close>, \<open>HSCAN\<close> and field order are computable. \<open>HSET\<close> and \<open>HDEL\<close> are the library's
  update and delete.
\<close>

lemma length_alist_update:
  "length (AList.update k v al) = (if k \<in> fst ` set al then length al else Suc (length al))"
  by (induction al) auto

lemma alist_delete_notin: "k \<notin> fst ` set al \<Longrightarrow> AList.delete k al = al"
  by (induction al) (auto simp: AList.delete_eq)

lemma length_alist_delete:
  "distinct (map fst al) \<Longrightarrow> k \<in> fst ` set al \<Longrightarrow> Suc (length (AList.delete k al)) = length al"
proof (induction al)
  case (Cons p al)
  show ?case
  proof (cases "fst p = k")
    case True
    with Cons.prems have "k \<notin> fst ` set al" by auto
    with True show ?thesis by (cases p) (simp add: alist_delete_notin)
  next
    case False
    with Cons show ?thesis by (auto simp: AList.delete_eq)
  qed
qed simp

lemma map_of_None_iff: "map_of al k = None \<longleftrightarrow> k \<notin> fst ` set al"
  by (simp add: map_of_eq_None_iff)

lemma map_of_Some_in: "map_of al k = Some v \<Longrightarrow> k \<in> fst ` set al"
  by (metis map_of_eq_None_iff option.distinct(1))

end
