(* ===== verification/Contract.thy ===== *)
theory Contract
  imports Prelude
begin

text \<open>
  The wire contract of packages/shared: the identifier patterns (constants.ts, keys.ts,
  queue.ts), the Redis key builders, the deterministic job identifier, the queue payload check
  and the user-id schema. A pattern \<open>/^...$/\<close> is a predicate on the whole string.
\<close>

section \<open>Identifier patterns\<close>

definition USER_ID_MIN_LENGTH :: nat where "USER_ID_MIN_LENGTH = 3"
definition USER_ID_MAX_LENGTH :: nat where "USER_ID_MAX_LENGTH = 64"

definition is_user_id_char :: "char \<Rightarrow> bool" where
  "is_user_id_char c \<longleftrightarrow> is_lower c \<or> is_upper c \<or> is_digit c \<or> c \<in> set ''._@-''"

definition USER_ID_PATTERN :: "string \<Rightarrow> bool" where
  "USER_ID_PATTERN s \<longleftrightarrow> s \<noteq> [] \<and> list_all is_user_id_char s"

definition is_sale_id_start :: "char \<Rightarrow> bool" where
  "is_sale_id_start c \<longleftrightarrow> is_lower c \<or> is_digit c"

definition is_sale_id_char :: "char \<Rightarrow> bool" where
  "is_sale_id_char c \<longleftrightarrow> is_sale_id_start c \<or> c \<in> set ''._-''"

fun SALE_ID_PATTERN :: "string \<Rightarrow> bool" where
  "SALE_ID_PATTERN [] = False"
| "SALE_ID_PATTERN (c # cs) = (is_sale_id_start c \<and> list_all is_sale_id_char cs \<and> length cs \<le> 63)"

definition REQUEST_ID_PATTERN :: "string \<Rightarrow> bool" where
  "REQUEST_ID_PATTERN s \<longleftrightarrow> 1 \<le> length s \<and> length s \<le> 128 \<and>
     list_all (\<lambda>c. is_lower c \<or> is_upper c \<or> is_digit c \<or> c \<in> set ''_-'') s"

definition hex_block :: "nat \<Rightarrow> nat \<Rightarrow> string \<Rightarrow> bool" where
  "hex_block k n s \<longleftrightarrow> list_all is_hex_digit (take n (drop k s))"

text \<open>
  The case-insensitive UUID pattern: 8-4-4-4-12 hexadecimal digits with a version digit 1 to 8
  and a variant digit 8, 9, a or b, or one of the two uniform identifiers.
\<close>

definition UUID_PATTERN :: "string \<Rightarrow> bool" where
  "UUID_PATTERN s \<longleftrightarrow> length s = 36 \<and>
     ((hex_block 0 8 s \<and> s ! 8 = CHR ''-'' \<and> hex_block 9 4 s \<and> s ! 13 = CHR ''-''
       \<and> s ! 14 \<in> set ''12345678'' \<and> hex_block 15 3 s \<and> s ! 18 = CHR ''-''
       \<and> s ! 19 \<in> set ''89abAB'' \<and> hex_block 20 3 s \<and> s ! 23 = CHR ''-'' \<and> hex_block 24 12 s)
      \<or> s = ''00000000-0000-0000-0000-000000000000''
      \<or> (list_all (\<lambda>c. c \<in> set ''fF-'') s \<and> (\<forall>i < 36. s ! i = CHR ''-'' \<longleftrightarrow> i \<in> {8, 13, 18, 23})))"

section \<open>Redis keys\<close>

definition assertSaleId :: "string \<Rightarrow> unit result" where
  "assertSaleId saleId =
     (if SALE_ID_PATTERN saleId then Inr () else Inl (TypeError ''Invalid saleId''))"

definition saleHashTag :: "string \<Rightarrow> string result" where
  "saleHashTag saleId =
     bind_result (assertSaleId saleId) (\<lambda>_. Inr (''{'' @ saleId @ ''}''))"

definition sale_key :: "string \<Rightarrow> string \<Rightarrow> string result" where
  "sale_key suffix saleId =
     bind_result (assertSaleId saleId) (\<lambda>_.
       bind_result (saleHashTag saleId) (\<lambda>tag. Inr (''sale:'' @ tag @ suffix)))"

definition saleConfigKey :: "string \<Rightarrow> string result" where
  "saleConfigKey = sale_key '':config''"

definition saleStockKey :: "string \<Rightarrow> string result" where
  "saleStockKey = sale_key '':stock''"

definition saleBuyersKey :: "string \<Rightarrow> string result" where
  "saleBuyersKey = sale_key '':buyers''"

definition saleMetricsKey :: "string \<Rightarrow> string result" where
  "saleMetricsKey = sale_key '':metrics''"

definition saleReservationsKey :: "string \<Rightarrow> string result" where
  "saleReservationsKey = sale_key '':reservations''"

record sale_keys =
  k_config :: string
  k_stock :: string
  k_buyers :: string
  k_metrics :: string
  k_reservations :: string

definition saleKeys :: "string \<Rightarrow> sale_keys result" where
  "saleKeys saleId =
     bind_result (assertSaleId saleId) (\<lambda>_.
     bind_result (saleConfigKey saleId) (\<lambda>c.
     bind_result (saleStockKey saleId) (\<lambda>s.
     bind_result (saleBuyersKey saleId) (\<lambda>b.
     bind_result (saleMetricsKey saleId) (\<lambda>m.
     bind_result (saleReservationsKey saleId) (\<lambda>r.
       Inr \<lparr>k_config = c, k_stock = s, k_buyers = b, k_metrics = m, k_reservations = r\<rparr>))))))"

definition all_keys :: "sale_keys \<Rightarrow> string list" where
  "all_keys k = [k_config k, k_stock k, k_buyers k, k_metrics k, k_reservations k]"

text \<open>
  The part of a key that Redis Cluster hashes: the text between the first opening brace and the
  first closing brace after it.
\<close>

definition cluster_hash_tag :: "string \<Rightarrow> string" where
  "cluster_hash_tag key =
     takeWhile (\<lambda>c. c \<noteq> CHR ''}'') (drop 1 (dropWhile (\<lambda>c. c \<noteq> CHR ''{'') key))"

section \<open>User identifiers and queue jobs\<close>

definition valid_user_id :: "string \<Rightarrow> bool" where
  "valid_user_id u \<longleftrightarrow> u = js_trim u \<and> USER_ID_MIN_LENGTH \<le> length u
     \<and> length u \<le> USER_ID_MAX_LENGTH \<and> USER_ID_PATTERN u"

definition assertUserId :: "js_value \<Rightarrow> string result" where
  "assertUserId v =
     (case v of
        JStr u \<Rightarrow> if valid_user_id u then Inr u else Inl (TypeError ''Invalid orders queue userId'')
      | _ \<Rightarrow> Inl (TypeError ''Invalid orders queue userId''))"

text \<open>The zod pipeline \<open>string().trim().min(3).max(64).regex(...)\<close>: the output is the trimmed text.\<close>

definition userIdSchema :: "js_value \<Rightarrow> string option" where
  "userIdSchema v =
     (case v of
        JStr raw \<Rightarrow>
          (let u = js_trim raw
           in if USER_ID_MIN_LENGTH \<le> length u \<and> length u \<le> USER_ID_MAX_LENGTH \<and> USER_ID_PATTERN u
              then Some u else None)
      | _ \<Rightarrow> None)"

definition buildOrdersJobId :: "string \<Rightarrow> string \<Rightarrow> string result" where
  "buildOrdersJobId saleId userId =
     bind_result (assertSaleId saleId) (\<lambda>_.
     bind_result (assertUserId (JStr userId)) (\<lambda>_.
       Inr (saleId @ ''-'' @ userId)))"

definition ORDERS_JOB_ATTEMPTS :: int where "ORDERS_JOB_ATTEMPTS = 5"
definition ORDERS_JOB_BACKOFF_DELAY_MS :: int where "ORDERS_JOB_BACKOFF_DELAY_MS = 200"
definition PERSIST_ORDER_JOB_NAME :: string where "PERSIST_ORDER_JOB_NAME = ''persist-order''"

record orders_payload =
  p_saleId :: string
  p_userId :: string
  p_reservationId :: string
  p_reservedAtMs :: int
  p_requestId :: string

definition PAYLOAD_KEYS :: "string list" where
  "PAYLOAD_KEYS = [''saleId'', ''userId'', ''reservationId'', ''reservedAtMs'', ''requestId'']"

fun own_keys :: "js_value \<Rightarrow> string list option" where
  "own_keys (JObj ps) = Some (map fst ps)"
| "own_keys _ = None"

text \<open>
  The payload check narrows an unknown value. It returns the narrowed record, which the callers
  obtain by the type assertion, or the first error in the order the code checks.
\<close>

definition assertOrdersQueueJobPayload :: "js_value \<Rightarrow> orders_payload result" where
  "assertOrdersQueueJobPayload value =
     (case own_keys value of
        None \<Rightarrow> Inl (TypeError ''Invalid orders queue job payload'')
      | Some keys \<Rightarrow>
          bind_result (guard_error (length keys \<noteq> length PAYLOAD_KEYS
              \<or> list_ex (\<lambda>k. k \<notin> set PAYLOAD_KEYS) keys)
            (TypeError ''Invalid orders queue job payload keys'')) (\<lambda>_.
          bind_result (case js_get value ''saleId'' of
              JStr s \<Rightarrow> bind_result (assertSaleId s) (\<lambda>_. Inr s)
            | _ \<Rightarrow> Inl (TypeError ''Invalid saleId'')) (\<lambda>saleId.
          bind_result (assertUserId (js_get value ''userId'')) (\<lambda>userId.
          bind_result (case js_get value ''reservationId'' of
              JStr r \<Rightarrow> if UUID_PATTERN r then Inr r
                        else Inl (TypeError ''Invalid orders queue reservationId'')
            | _ \<Rightarrow> Inl (TypeError ''Invalid orders queue reservationId'')) (\<lambda>reservationId.
          bind_result (case js_get value ''reservedAtMs'' of
              JNum (Fin t) \<Rightarrow> if is_safe_integer (Fin t) \<and> 0 \<le> t then Inr t
                              else Inl (TypeError ''Invalid orders queue reservedAtMs'')
            | _ \<Rightarrow> Inl (TypeError ''Invalid orders queue reservedAtMs'')) (\<lambda>reservedAtMs.
          bind_result (case js_get value ''requestId'' of
              JStr q \<Rightarrow> if REQUEST_ID_PATTERN q then Inr q
                        else Inl (TypeError ''Invalid orders queue requestId'')
            | _ \<Rightarrow> Inl (TypeError ''Invalid orders queue requestId'')) (\<lambda>requestId.
            Inr \<lparr>p_saleId = saleId, p_userId = userId, p_reservationId = reservationId,
                 p_reservedAtMs = reservedAtMs, p_requestId = requestId\<rparr>)))))))"

text \<open>The object that the producers build before they hand it to the queue.\<close>

definition payload_value :: "orders_payload \<Rightarrow> js_value" where
  "payload_value p =
     JObj [(''saleId'', JStr (p_saleId p)), (''userId'', JStr (p_userId p)),
           (''reservationId'', JStr (p_reservationId p)),
           (''reservedAtMs'', JNum (Fin (p_reservedAtMs p))),
           (''requestId'', JStr (p_requestId p))]"

definition valid_payload :: "orders_payload \<Rightarrow> bool" where
  "valid_payload p \<longleftrightarrow> SALE_ID_PATTERN (p_saleId p) \<and> valid_user_id (p_userId p)
     \<and> UUID_PATTERN (p_reservationId p) \<and> 0 \<le> p_reservedAtMs p
     \<and> p_reservedAtMs p \<le> max_safe_integer \<and> REQUEST_ID_PATTERN (p_requestId p)"

section \<open>Facts about the patterns\<close>

lemma assertSaleId_simps [simp]:
  "assertSaleId s = Inr u \<longleftrightarrow> SALE_ID_PATTERN s"
  "SALE_ID_PATTERN s \<Longrightarrow> assertSaleId s = Inr ()"
  "\<not> SALE_ID_PATTERN s \<Longrightarrow> assertSaleId s = Inl (TypeError ''Invalid saleId'')"
  by (auto simp: assertSaleId_def)

lemma sale_id_chars: "SALE_ID_PATTERN s \<Longrightarrow> c \<in> set s \<Longrightarrow> is_sale_id_char c"
  by (cases s) (auto simp: is_sale_id_char_def list_all_iff)

lemma sale_id_no_brace:
  assumes "SALE_ID_PATTERN s" and "c \<in> set s"
  shows "c \<noteq> CHR ''{''" and "c \<noteq> CHR ''}''" and "c \<noteq> CHR '':''"
  using sale_id_chars [OF assms]
  by (auto simp: is_sale_id_char_def is_sale_id_start_def is_lower_def is_digit_def)

lemma user_id_char_plain:
  assumes "is_user_id_char c"
  shows "\<not> is_js_space c" and "c \<noteq> CHR '':''" and "c \<noteq> CHR ''{''" and "c \<noteq> CHR ''}''"
  using assms
  by (auto simp: is_user_id_char_def is_js_space_def is_lower_def is_upper_def is_digit_def)

lemma user_id_pattern_trim [simp]: "USER_ID_PATTERN u \<Longrightarrow> js_trim u = u"
  by (rule js_trim_no_space) (auto simp: USER_ID_PATTERN_def list_all_iff user_id_char_plain)

lemma valid_user_id_alt:
  "valid_user_id u \<longleftrightarrow>
     USER_ID_MIN_LENGTH \<le> length u \<and> length u \<le> USER_ID_MAX_LENGTH \<and> USER_ID_PATTERN u"
  by (auto simp: valid_user_id_def)

lemma assertUserId_eq [simp]: "assertUserId v = Inr u \<longleftrightarrow> v = JStr u \<and> valid_user_id u"
  by (auto simp: assertUserId_def split: js_value.splits)

lemma in_set_take_dropI: "k \<le> i \<Longrightarrow> i < k + n \<Longrightarrow> i < length s \<Longrightarrow> s ! i \<in> set (take n (drop k s))"
  by (force simp: in_set_conv_nth intro: exI [of _ "i - k"])

lemma hex_block_nth:
  "hex_block k n s \<Longrightarrow> k \<le> i \<Longrightarrow> i < k + n \<Longrightarrow> i < length s \<Longrightarrow> is_hex_digit (s ! i)"
  using in_set_take_dropI [of k i n s] by (auto simp: hex_block_def list_all_iff)

lemma uuid_chars:
  assumes "UUID_PATTERN s" and "c \<in> set s"
  shows "is_hex_digit c \<or> c = CHR ''-''"
proof -
  from assms(2) obtain i where i: "i < length s" "c = s ! i" by (auto simp: in_set_conv_nth)
  from assms(1) have len: "length s = 36" by (simp add: UUID_PATTERN_def)
  have digits: "d \<in> set ''12345678'' \<Longrightarrow> is_hex_digit d" "d \<in> set ''89abAB'' \<Longrightarrow> is_hex_digit d"
    "d \<in> set ''fF-'' \<Longrightarrow> is_hex_digit d \<or> d = CHR ''-''"
    "d \<in> set ''00000000-0000-0000-0000-000000000000'' \<Longrightarrow> is_hex_digit d \<or> d = CHR ''-''" for d
    by (auto simp: is_hex_digit_def is_digit_def)
  from assms(1) consider
      (plain) "hex_block 0 8 s" "s ! 8 = CHR ''-''" "hex_block 9 4 s" "s ! 13 = CHR ''-''"
        "s ! 14 \<in> set ''12345678''" "hex_block 15 3 s" "s ! 18 = CHR ''-''"
        "s ! 19 \<in> set ''89abAB''" "hex_block 20 3 s" "s ! 23 = CHR ''-''" "hex_block 24 12 s"
    | (nil) "s = ''00000000-0000-0000-0000-000000000000''"
    | (max) "list_all (\<lambda>c. c \<in> set ''fF-'') s"
    unfolding UUID_PATTERN_def by blast
  then show ?thesis
  proof cases
    case plain
    from i len consider "i < 8" | "i = 8" | "9 \<le> i" "i < 13" | "i = 13" | "i = 14"
      | "15 \<le> i" "i < 18" | "i = 18" | "i = 19" | "20 \<le> i" "i < 23" | "i = 23"
      | "24 \<le> i" "i < 36" by linarith
    moreover note digits(1) [OF plain(5)] digits(2) [OF plain(8)]
    moreover note plain(2,4,7,10) and hex = plain(1,3,6,9,11) [THEN hex_block_nth]
    ultimately show ?thesis
      using hex len i by cases simp_all
  next
    case nil
    then show ?thesis using assms(2) digits(4) by blast
  next
    case max
    then show ?thesis using assms(2) digits(3) by (auto simp: list_all_iff)
  qed
qed

lemma uuid_no_colon: "UUID_PATTERN s \<Longrightarrow> list_all (\<lambda>c. c \<noteq> CHR '':'') s"
  using uuid_chars [of s] by (fastforce simp: list_all_iff is_hex_digit_def is_digit_def)

lemma uuid_nonempty: "UUID_PATTERN s \<Longrightarrow> s \<noteq> []"
  by (auto simp: UUID_PATTERN_def)

text \<open>The request identifier that reconciliation gives a repaired job is accepted by the payload check.\<close>

lemma reconcile_request_id:
  assumes "UUID_PATTERN r"
  shows "REQUEST_ID_PATTERN (''reconcile-'' @ r)"
proof -
  have "is_lower c \<or> is_upper c \<or> is_digit c \<or> c \<in> set ''_-''" if "c \<in> set r" for c
    using uuid_chars [OF assms that]
    by (auto simp: is_hex_digit_def is_digit_def is_lower_def is_upper_def)
  moreover have "length r = 36" using assms by (simp add: UUID_PATTERN_def)
  ultimately show ?thesis
    by (simp add: REQUEST_ID_PATTERN_def list_all_iff is_lower_def)
qed

section \<open>Properties\<close>

lemma sale_key_valid:
  "SALE_ID_PATTERN s \<Longrightarrow> sale_key suffix s = Inr (''sale:{'' @ s @ ''}'' @ suffix)"
  by (simp add: sale_key_def saleHashTag_def)

lemmas key_builder_defs =
  saleConfigKey_def saleStockKey_def saleBuyersKey_def saleMetricsKey_def saleReservationsKey_def

lemma saleKeys_valid:
  "SALE_ID_PATTERN s \<Longrightarrow> saleKeys s = Inr
     \<lparr>k_config = ''sale:{'' @ s @ ''}:config'', k_stock = ''sale:{'' @ s @ ''}:stock'',
      k_buyers = ''sale:{'' @ s @ ''}:buyers'', k_metrics = ''sale:{'' @ s @ ''}:metrics'',
      k_reservations = ''sale:{'' @ s @ ''}:reservations''\<rparr>"
  by (simp add: saleKeys_def key_builder_defs sale_key_valid)

lemma saleKeys_invalid: "\<not> SALE_ID_PATTERN s \<Longrightarrow> saleKeys s = Inl (TypeError ''Invalid saleId'')"
  by (simp add: saleKeys_def)

lemma cluster_hash_tag_key:
  assumes "SALE_ID_PATTERN s"
  shows "cluster_hash_tag (''sale:{'' @ s @ ''}'' @ suffix) = s"
proof -
  have "takeWhile (\<lambda>c. c \<noteq> CHR ''}'') (s @ ''}'' @ suffix) = s"
    using sale_id_no_brace(2) [OF assms] by (simp add: takeWhile_append)
  then show ?thesis by (simp add: cluster_hash_tag_def)
qed

lemmas cluster_hash_tag_keys = cluster_hash_tag_key [simplified]

text \<open>
  The key space of a sale. For a valid sale identifier the five keys are distinct, all of
  them hash to the identifier itself (so a multi-key script stays in one cluster slot), and two
  different sales share no key; any other identifier is a TypeError before a key is built.
\<close>

lemma saleKeys_isolated:
  "(\<forall>s k. saleKeys s = Inr k \<longrightarrow>
      SALE_ID_PATTERN s \<and> distinct (all_keys k) \<and> (\<forall>x \<in> set (all_keys k). cluster_hash_tag x = s))
   \<and> (\<forall>s k s' k'. saleKeys s = Inr k \<and> saleKeys s' = Inr k' \<and> s \<noteq> s' \<longrightarrow>
        set (all_keys k) \<inter> set (all_keys k') = {})
   \<and> (\<forall>s. \<not> SALE_ID_PATTERN s \<longrightarrow> saleKeys s = Inl (TypeError ''Invalid saleId''))"
proof -
  have one: "SALE_ID_PATTERN s \<and> distinct (all_keys k) \<and> (\<forall>x \<in> set (all_keys k). cluster_hash_tag x = s)"
    if k: "saleKeys s = Inr k" for s k
  proof -
    from k have valid: "SALE_ID_PATTERN s"
      by (cases "SALE_ID_PATTERN s") (simp_all add: saleKeys_invalid)
    with k have "all_keys k = map (\<lambda>suffix. ''sale:{'' @ s @ ''}'' @ suffix)
        ['':config'', '':stock'', '':buyers'', '':metrics'', '':reservations'']"
      by (auto simp: saleKeys_valid all_keys_def)
    with valid show ?thesis by (auto simp: cluster_hash_tag_keys)
  qed
  have two: "set (all_keys k) \<inter> set (all_keys k') = {}"
    if "saleKeys s = Inr k" "saleKeys s' = Inr k'" "s \<noteq> s'" for s k s' k'
    using one [OF that(1)] one [OF that(2)] that(3) by (metis disjoint_iff)
  show ?thesis
  proof (intro conjI allI impI)
    fix s k assume "saleKeys s = Inr k"
    from one [OF this] show "SALE_ID_PATTERN s" "distinct (all_keys k)"
      "\<forall>x \<in> set (all_keys k). cluster_hash_tag x = s" by blast+
  qed (use two saleKeys_invalid in blast)+
qed

text \<open>
  Every validator of a user identifier agrees. What the request schema accepts is trimmed and
  exactly what the queue and the store accept unchanged; parsing is idempotent, so surrounding
  white space can never make one user into two; and no accepted identifier contains a colon or a
  brace.
\<close>

lemma user_id_validators_agree:
  "(userIdSchema v = Some u \<longrightarrow>
      assertUserId (JStr u) = Inr u \<and> userIdSchema (JStr u) = Some u
      \<and> (\<exists>raw. v = JStr raw \<and> u = js_trim raw)
      \<and> (\<forall>c \<in> set u. c \<noteq> CHR '':'' \<and> c \<noteq> CHR ''{'' \<and> c \<noteq> CHR ''}'' \<and> \<not> is_js_space c))
   \<and> (assertUserId v = Inr u \<longrightarrow> userIdSchema v = Some u)"
proof (intro conjI impI)
  assume some: "userIdSchema v = Some u"
  then obtain raw where raw: "v = JStr raw" "u = js_trim raw" and ok: "USER_ID_MIN_LENGTH \<le> length u"
    "length u \<le> USER_ID_MAX_LENGTH" "USER_ID_PATTERN u"
    by (auto simp: userIdSchema_def Let_def split: js_value.splits if_splits)
  show "assertUserId (JStr u) = Inr u" using ok by (simp add: valid_user_id_alt)
  show "userIdSchema (JStr u) = Some u" using ok by (simp add: userIdSchema_def)
  show "\<exists>raw. v = JStr raw \<and> u = js_trim raw" using raw by blast
  show "\<forall>c \<in> set u. c \<noteq> CHR '':'' \<and> c \<noteq> CHR ''{'' \<and> c \<noteq> CHR ''}'' \<and> \<not> is_js_space c"
    using ok(3) user_id_char_plain by (auto simp: USER_ID_PATTERN_def list_all_iff)
next
  assume "assertUserId v = Inr u"
  then show "userIdSchema v = Some u" by (auto simp: userIdSchema_def valid_user_id_alt)
qed

lemma js_get_payload_value [simp]:
  "js_get (payload_value q) ''saleId'' = JStr (p_saleId q)"
  "js_get (payload_value q) ''userId'' = JStr (p_userId q)"
  "js_get (payload_value q) ''reservationId'' = JStr (p_reservationId q)"
  "js_get (payload_value q) ''reservedAtMs'' = JNum (Fin (p_reservedAtMs q))"
  "js_get (payload_value q) ''requestId'' = JStr (p_requestId q)"
  by (simp_all add: payload_value_def)

lemma own_keys_payload_value [simp]: "own_keys (payload_value q) = Some PAYLOAD_KEYS"
  by (simp add: payload_value_def PAYLOAD_KEYS_def)

lemma payload_check_value: "assertOrdersQueueJobPayload (payload_value p) = Inr p \<longleftrightarrow> valid_payload p"
  by (cases p)
    (auto simp: assertOrdersQueueJobPayload_def PAYLOAD_KEYS_def valid_payload_def bind_result_eq_Inr)

text \<open>
  The payload check is sound and complete. It accepts the object a producer builds exactly
  when every field is well formed, returns the fields unchanged, and whatever unknown value it
  accepts has exactly the five payload properties with those well-formed values.
\<close>

lemma payload_check_round_trip:
  "(assertOrdersQueueJobPayload (payload_value p) = Inr p \<longleftrightarrow> valid_payload p)
   \<and> (\<forall>v q. assertOrdersQueueJobPayload v = Inr q \<longrightarrow>
        valid_payload q \<and> (\<forall>k \<in> set PAYLOAD_KEYS. js_get v k = js_get (payload_value q) k)
        \<and> (\<exists>ps. v = JObj ps \<and> set (map fst ps) \<subseteq> set PAYLOAD_KEYS))"
proof (intro conjI allI impI)
  show "assertOrdersQueueJobPayload (payload_value p) = Inr p \<longleftrightarrow> valid_payload p"
    by (rule payload_check_value)
next
  fix v q assume ok: "assertOrdersQueueJobPayload v = Inr q"
  then obtain keys where keys: "own_keys v = Some keys"
    by (auto simp: assertOrdersQueueJobPayload_def split: option.splits)
  then obtain ps where v: "v = JObj ps" and ps: "keys = map fst ps" by (cases v) auto
  from ok keys v ps show "valid_payload q" and
    "\<forall>k \<in> set PAYLOAD_KEYS. js_get v k = js_get (payload_value q) k" and
    "\<exists>ps. v = JObj ps \<and> set (map fst ps) \<subseteq> set PAYLOAD_KEYS"
    by (auto simp: assertOrdersQueueJobPayload_def PAYLOAD_KEYS_def
        valid_payload_def bind_result_eq_Inr list_ex_iff simp del: js_get.simps
        split: js_value.splits js_num.splits if_splits)
qed

lemma buildOrdersJobId_eq:
  "buildOrdersJobId s u = Inr j \<longleftrightarrow> SALE_ID_PATTERN s \<and> valid_user_id u \<and> j = s @ ''-'' @ u"
  by (auto simp: buildOrdersJobId_def bind_result_eq_Inr)

text \<open>
  C36: the job identifier is a function of sale and user, defined exactly for valid ones, and
  within one sale it identifies the user, so a second enqueue of a reservation collides with the
  first and never with another user's. Across sales it does not: the separator is a legal
  character of both parts, and two sales can produce the same identifier.
\<close>

theorem buildOrdersJobId_unique:
  "((\<exists>j. buildOrdersJobId s u = Inr j) \<longleftrightarrow> SALE_ID_PATTERN s \<and> valid_user_id u)
   \<and> (buildOrdersJobId s u = Inr j \<and> buildOrdersJobId s u' = Inr j \<longrightarrow> u = u')
   \<and> buildOrdersJobId ''flash'' ''a-bob'' = buildOrdersJobId ''flash-a'' ''bob''"
proof -
  have "buildOrdersJobId ''flash'' ''a-bob'' = buildOrdersJobId ''flash-a'' ''bob''"
    by code_simp
  then show ?thesis by (auto simp: buildOrdersJobId_eq)
qed

theorem buildOrdersJobId_unique_witness:
  "{u. buildOrdersJobId ''flash'' u = Inr ''flash-bob''} = {''bob''}"
proof -
  have j: "buildOrdersJobId ''flash'' ''bob'' = Inr ''flash-bob''" by code_simp
  have "''bob'' = u'" if "buildOrdersJobId ''flash'' u' = Inr ''flash-bob''" for u'
    by (rule buildOrdersJobId_unique [THEN conjunct2, THEN conjunct1, rule_format, OF conjI [OF j that]])
  with j show ?thesis by blast
qed

end
