(* ===== verification/Redis_Scripts.thy ===== *)
theory Redis_Scripts
  imports Contract
begin

text \<open>
  The nine Lua scripts of packages/redis/src/scripts, as functions on the five Redis keys of one
  sale. A script runs to completion before any other command (Redis has one command thread), so
  it is one function from the state to its reply and the next state.

  The state is a record of the five keys: hashes are association lists, the buyers set is a list
  without repetitions, and the stock key holds an integer when it exists, since only \<open>SET\<close> with a
  canonical decimal, \<open>INCR\<close> and \<open>DECR\<close> write it. Hash values stay text: the config fields are
  decimal text read back with \<open>tonumber\<close>, and a ledger value is the text
  \<open>reservationId:reservedAtMs\<close>. The clock reading of \<open>TIME\<close> is an argument.
\<close>

section \<open>The keys of one sale\<close>

type_synonym redis_hash = "(string \<times> string) list"

record redis_sale =
  config_key :: redis_hash
  stock_key :: "int option"
  buyers_key :: "string list"
  reservations_key :: redis_hash
  metrics_key :: redis_hash

definition empty_sale :: redis_sale where
  "empty_sale = \<lparr>config_key = [], stock_key = None, buyers_key = [], reservations_key = [],
     metrics_key = []\<rparr>"

text \<open>The commands the scripts use. A key with an empty hash or set does not exist.\<close>

definition HGET :: "redis_hash \<Rightarrow> string \<Rightarrow> string option" where
  "HGET h f = map_of h f"

definition HEXISTS :: "redis_hash \<Rightarrow> string \<Rightarrow> bool" where
  "HEXISTS h f \<longleftrightarrow> map_of h f \<noteq> None"

definition HSET :: "string \<Rightarrow> string \<Rightarrow> redis_hash \<Rightarrow> redis_hash" where
  "HSET f v h = AList.update f v h"

definition HDEL :: "string \<Rightarrow> redis_hash \<Rightarrow> redis_hash" where
  "HDEL f h = AList.delete f h"

definition HLEN :: "redis_hash \<Rightarrow> int" where
  "HLEN h = int (length h)"

definition SISMEMBER :: "string list \<Rightarrow> string \<Rightarrow> bool" where
  "SISMEMBER b u \<longleftrightarrow> u \<in> set b"

definition SADD :: "string \<Rightarrow> string list \<Rightarrow> string list" where
  "SADD u b = List.insert u b"

definition SREM :: "string \<Rightarrow> string list \<Rightarrow> string list" where
  "SREM u b = removeAll u b"

text \<open>\<open>TIME\<close> replies seconds and microseconds; the scripts reduce it to milliseconds.\<close>

type_synonym redis_time = "int \<times> int"

definition now_ms :: "redis_time \<Rightarrow> int" where
  "now_ms t = fst t * 1000 + snd t div 1000"

text \<open>
  Lua's number to text conversion in a concatenation is \<open>%.14g\<close>: decimal below \<open>10 ^ 14\<close>, which
  as a millisecond stamp is the year 5138, and 14 significant digits in exponent form from there.
\<close>

definition round_half_even :: "int \<Rightarrow> int \<Rightarrow> int" where
  "round_half_even n q =
     (let d = n div q; r = n mod q
      in if 2 * r < q then d else if 2 * r > q then d + 1 else if even d then d else d + 1)"

definition exponent_text :: "int \<Rightarrow> string" where
  "exponent_text n =
     (let k = length (dec_nat (nat n));
          m = round_half_even n (10 ^ (k - 14));
          e = (if m = 10 ^ 14 then k else k - 1);
          ds = dec_nat (nat (if m = 10 ^ 14 then 10 ^ 13 else m));
          frac = rev (dropWhile (\<lambda>c. c = CHR ''0'') (rev (drop 1 ds)))
      in take 1 ds @ (if frac = [] then [] else CHR ''.'' # frac)
         @ ''e+'' @ (if e < 10 then ''0'' else []) @ dec_nat e)"

definition lua_tostring :: "int \<Rightarrow> string" where
  "lua_tostring n =
     (if n < 0 then CHR ''-'' # (if - n < 10 ^ 14 then dec_nat (nat (- n)) else exponent_text (- n))
      else if n < 10 ^ 14 then dec_nat (nat n) else exponent_text n)"

definition tonumber_field :: "redis_hash \<Rightarrow> string \<Rightarrow> int option" where
  "tonumber_field h f = Option.bind (HGET h f) tonumber"

definition or_minus_one :: "int option \<Rightarrow> int" where
  "or_minus_one n = (case n of None \<Rightarrow> -1 | Some i \<Rightarrow> i)"

section \<open>seed.lua\<close>

record seed_reply =
  seed_code :: string
  seed_stock :: int
  seed_total :: int
  seed_starts :: int
  seed_ends :: int

text \<open>
  The numeric arguments are canonical decimals of these integers. In the \<open>ALREADY_SEEDED\<close> branch the
  stored fields equal the arguments, so their numeric values are the arguments'.
\<close>

definition seed_lua ::
  "string \<Rightarrow> string \<Rightarrow> string \<Rightarrow> string \<Rightarrow> int \<Rightarrow> int \<Rightarrow> int \<Rightarrow> int \<Rightarrow> redis_sale \<Rightarrow> seed_reply \<times> redis_sale"
  where [script_defs]:
  "seed_lua saleId name startsAt endsAt startsMs endsMs tot remaining s =
     (let c = config_key s;
          cur1 = HGET c ''startsAtMs''; cur2 = HGET c ''endsAtMs''; cur3 = HGET c ''totalStock'';
          n1 = tonumber_field c ''startsAtMs''; n2 = tonumber_field c ''endsAtMs'';
          n3 = tonumber_field c ''totalStock''
      in if c \<noteq> [] then
           (case stock_key s of
              None \<Rightarrow> (\<lparr>seed_code = ''STOCK_MISSING'', seed_stock = -1, seed_total = or_minus_one n3,
                        seed_starts = or_minus_one n1, seed_ends = or_minus_one n2\<rparr>, s)
            | Some stock \<Rightarrow>
                if cur1 \<noteq> Some (dec_int startsMs) \<or> cur2 \<noteq> Some (dec_int endsMs)
                   \<or> cur3 \<noteq> Some (dec_int tot)
                then (\<lparr>seed_code = ''CONFIG_DRIFT'', seed_stock = stock, seed_total = or_minus_one n3,
                       seed_starts = or_minus_one n1, seed_ends = or_minus_one n2\<rparr>, s)
                else (\<lparr>seed_code = ''ALREADY_SEEDED'', seed_stock = stock, seed_total = tot,
                       seed_starts = startsMs, seed_ends = endsMs\<rparr>, s))
         else
           (\<lparr>seed_code = ''SEEDED'', seed_stock = remaining, seed_total = tot,
             seed_starts = startsMs, seed_ends = endsMs\<rparr>,
            s\<lparr>config_key := HSET ''totalStock'' (dec_int tot) (HSET ''endsAtMs'' (dec_int endsMs)
                (HSET ''startsAtMs'' (dec_int startsMs) (HSET ''endsAt'' endsAt (HSET ''startsAt'' startsAt
                (HSET ''name'' name (HSET ''saleId'' saleId c)))))),
              stock_key := Some remaining\<rparr>))"

section \<open>purchase.lua\<close>

record purchase_reply =
  pur_code :: string
  pur_stock :: int
  pur_now :: int
  pur_reservation :: string

definition ledger_value :: "string \<Rightarrow> string \<Rightarrow> string" where
  "ledger_value reservationId stamp = reservationId @ '':'' @ stamp"

definition purchase_lua ::
  "redis_time \<Rightarrow> string \<Rightarrow> string \<Rightarrow> redis_sale \<Rightarrow> purchase_reply \<times> redis_sale"
  where [script_defs]:
  "purchase_lua time userId reservationId s =
     (let startsAtMs = tonumber_field (config_key s) ''startsAtMs'';
          endsAtMs = tonumber_field (config_key s) ''endsAtMs'';
          nowMs = now_ms time;
          reply = (\<lambda>code stock rid. \<lparr>pur_code = code, pur_stock = stock, pur_now = nowMs,
                                      pur_reservation = rid\<rparr>)
      in case (startsAtMs, endsAtMs) of
           (Some starts, Some ends) \<Rightarrow>
             (let raw = (case stock_key s of None \<Rightarrow> 0 | Some k \<Rightarrow> k);
                  stock = (if raw < 0 then 0 else raw)
              in if nowMs < starts then (reply ''SALE_NOT_STARTED'' stock [], s)
                 else if nowMs \<ge> ends then (reply ''SALE_ENDED'' stock [], s)
                 else if SISMEMBER (buyers_key s) userId \<or> HEXISTS (reservations_key s) userId
                 then (reply ''ALREADY_PURCHASED'' stock [],
                       s\<lparr>buyers_key := SADD userId (buyers_key s)\<rparr>)
                 else if stock \<le> 0 then (reply ''SOLD_OUT'' 0 [], s)
                 else (reply ''CONFIRMED'' (raw - 1) reservationId,
                       s\<lparr>stock_key := Some (raw - 1),
                         buyers_key := SADD userId (buyers_key s),
                         reservations_key := HSET userId
                           (ledger_value reservationId (lua_tostring nowMs)) (reservations_key s)\<rparr>))
         | _ \<Rightarrow> (reply ''NOT_INITIALIZED'' (-1) [], s))"

section \<open>compensate.lua\<close>

definition compensate_lua :: "string \<Rightarrow> string \<Rightarrow> redis_sale \<Rightarrow> (string \<times> int) \<times> redis_sale"
  where [script_defs]:
  "compensate_lua userId reservationId s =
     (let stock = (case stock_key s of None \<Rightarrow> 0 | Some k \<Rightarrow> k)
      in case HGET (reservations_key s) userId of
           None \<Rightarrow> ((''NOOP'', stock), s)
         | Some current \<Rightarrow>
             if fst (split_colon current) \<noteq> reservationId then ((''NOOP'', stock), s)
             else
               (let removed = SISMEMBER (buyers_key s) userId;
                    s1 = s\<lparr>reservations_key := HDEL userId (reservations_key s),
                           buyers_key := SREM userId (buyers_key s)\<rparr>
                in if \<not> removed then ((''NOOP'', stock), s1)
                   else (case tonumber_field (config_key s) ''totalStock'' of
                           Some tot \<Rightarrow>
                             if stock \<ge> tot then ((''COMPENSATED_CAPPED'', stock), s1)
                             else ((''COMPENSATED'', stock + 1), s1\<lparr>stock_key := Some (stock + 1)\<rparr>)
                         | None \<Rightarrow> ((''COMPENSATED'', stock + 1), s1\<lparr>stock_key := Some (stock + 1)\<rparr>))))"

section \<open>reconcile.lua, reconcile-state.lua and reconcile-membership.lua\<close>

definition reconcile_lua :: "int \<Rightarrow> redis_sale \<Rightarrow> (string \<times> int \<times> int) \<times> redis_sale"
  where [script_defs]:
  "reconcile_lua remaining s =
     (if config_key s = [] then ((''NOT_INITIALIZED'', -1, -1), s)
      else ((''RECONCILED'', or_minus_one (stock_key s), remaining), s\<lparr>stock_key := Some remaining\<rparr>))"

record reconcile_state_reply =
  rs_code :: string
  rs_previous :: int
  rs_new :: int
  rs_count :: int
  rs_total :: int

definition reconcile_state_lua :: "redis_sale \<Rightarrow> reconcile_state_reply \<times> redis_sale"
  where [script_defs]:
  "reconcile_state_lua s =
     (if config_key s = []
      then (\<lparr>rs_code = ''NOT_INITIALIZED'', rs_previous = -1, rs_new = -1, rs_count = 0, rs_total = -1\<rparr>, s)
      else
        (let tot = or_minus_one (tonumber_field (config_key s) ''totalStock'');
             count = HLEN (reservations_key s);
             previous = or_minus_one (stock_key s)
         in if tot < 0 \<or> count > tot
            then (\<lparr>rs_code = ''OVERCOMMITTED'', rs_previous = previous, rs_new = previous,
                   rs_count = count, rs_total = tot\<rparr>, s)
            else (\<lparr>rs_code = ''RECONCILED'', rs_previous = previous, rs_new = tot - count,
                   rs_count = count, rs_total = tot\<rparr>, s\<lparr>stock_key := Some (tot - count)\<rparr>)))"

definition reconcile_membership_lua :: "string \<Rightarrow> redis_sale \<Rightarrow> string \<times> redis_sale"
  where [script_defs]:
  "reconcile_membership_lua userId s =
     (if HEXISTS (reservations_key s) userId
      then (''PRESENT'', s\<lparr>buyers_key := SADD userId (buyers_key s)\<rparr>)
      else (''ABSENT'', s\<lparr>buyers_key := SREM userId (buyers_key s)\<rparr>))"

section \<open>compare-restore-reservation.lua and inspect-reservation-membership.lua\<close>

definition compare_restore_lua ::
  "string \<Rightarrow> string \<Rightarrow> int \<Rightarrow> redis_sale \<Rightarrow> (string \<times> string) \<times> redis_sale"
  where [script_defs]:
  "compare_restore_lua userId reservationId reservedAtMs s =
     (let candidate = ledger_value reservationId (dec_int reservedAtMs)
      in case HGET (reservations_key s) userId of
           None \<Rightarrow> ((''RESTORED'', candidate),
                    s\<lparr>reservations_key := HSET userId candidate (reservations_key s),
                      buyers_key := SADD userId (buyers_key s)\<rparr>)
         | Some current \<Rightarrow>
             if fst (split_colon current) = reservationId
             then ((''ALREADY_MATCHED'', current), s\<lparr>buyers_key := SADD userId (buyers_key s)\<rparr>)
             else ((''CONFLICT'', current), s))"

definition inspect_membership_lua :: "string \<Rightarrow> redis_sale \<Rightarrow> string \<times> string"
  where [script_defs]:
  "inspect_membership_lua userId s =
     (case (SISMEMBER (buyers_key s) userId, HGET (reservations_key s) userId) of
        (True, Some r) \<Rightarrow> (''BOTH'', r)
      | (False, None) \<Rightarrow> (''NEITHER'', [])
      | (True, None) \<Rightarrow> (''BUYER_ONLY'', [])
      | (False, Some r) \<Rightarrow> (''RESERVATION_ONLY'', r))"

section \<open>status.lua\<close>

record status_reply =
  st_now :: int
  st_initialized :: bool
  st_stock :: int
  st_total :: "int option"
  st_starts :: "int option"
  st_ends :: "int option"
  st_name :: "string option"
  st_startsAt :: "string option"
  st_endsAt :: "string option"

definition status_lua :: "redis_time \<Rightarrow> redis_sale \<Rightarrow> status_reply"
  where [script_defs]:
  "status_lua time s =
     (let c = config_key s
      in if HGET c ''totalStock'' = None
         then \<lparr>st_now = now_ms time, st_initialized = False, st_stock = -1, st_total = Some (-1),
               st_starts = Some (-1), st_ends = Some (-1), st_name = Some [], st_startsAt = Some [],
               st_endsAt = Some []\<rparr>
         else \<lparr>st_now = now_ms time, st_initialized = True, st_stock = or_minus_one (stock_key s),
               st_total = tonumber_field c ''totalStock'', st_starts = tonumber_field c ''startsAtMs'',
               st_ends = tonumber_field c ''endsAtMs'', st_name = HGET c ''name'',
               st_startsAt = HGET c ''startsAt'', st_endsAt = HGET c ''endsAt''\<rparr>)"

end
