(* ===== verification/Results.thy ===== *)
theory Results
  imports Prelude
begin

text \<open>
  The result vocabulary of packages/shared/src/results.ts: the outcomes the purchase script can
  return, the ones produced above it, their HTTP status and the metric each one counts under.
  The source's constants are strings; here they are datatypes with their text given by
  \<open>outcome_text\<close>, since \<open>assertMember\<close> in the store decodes text.
\<close>

section \<open>Definitions\<close>

datatype purchase_outcome =
    CONFIRMED | ALREADY_PURCHASED | SOLD_OUT | SALE_NOT_STARTED | SALE_ENDED | NOT_INITIALIZED

datatype request_outcome = INVALID_USER_ID | RATE_LIMITED | UPSTREAM_UNAVAILABLE

datatype attempt_outcome = Decided purchase_outcome | Refused request_outcome

datatype order_status = Reserved | Persisted | Compensated

datatype sale_metric_field =
    M_confirmed | M_already_purchased | M_sold_out | M_sale_not_active | M_not_initialized
  | M_rate_limited | M_invalid_user_id

definition PURCHASE_OUTCOMES :: "purchase_outcome list" where
  "PURCHASE_OUTCOMES =
     [CONFIRMED, ALREADY_PURCHASED, SOLD_OUT, SALE_NOT_STARTED, SALE_ENDED, NOT_INITIALIZED]"

definition REQUEST_OUTCOMES :: "request_outcome list" where
  "REQUEST_OUTCOMES = [INVALID_USER_ID, RATE_LIMITED, UPSTREAM_UNAVAILABLE]"

definition ATTEMPT_OUTCOMES :: "attempt_outcome list" where
  "ATTEMPT_OUTCOMES = map Decided PURCHASE_OUTCOMES @ map Refused REQUEST_OUTCOMES"

definition SALE_METRIC_FIELDS :: "sale_metric_field list" where
  "SALE_METRIC_FIELDS =
     [M_confirmed, M_already_purchased, M_sold_out, M_sale_not_active, M_not_initialized,
      M_rate_limited, M_invalid_user_id]"

fun purchase_outcome_text :: "purchase_outcome \<Rightarrow> string" where
  "purchase_outcome_text CONFIRMED = ''CONFIRMED''"
| "purchase_outcome_text ALREADY_PURCHASED = ''ALREADY_PURCHASED''"
| "purchase_outcome_text SOLD_OUT = ''SOLD_OUT''"
| "purchase_outcome_text SALE_NOT_STARTED = ''SALE_NOT_STARTED''"
| "purchase_outcome_text SALE_ENDED = ''SALE_ENDED''"
| "purchase_outcome_text NOT_INITIALIZED = ''NOT_INITIALIZED''"

fun request_outcome_text :: "request_outcome \<Rightarrow> string" where
  "request_outcome_text INVALID_USER_ID = ''INVALID_USER_ID''"
| "request_outcome_text RATE_LIMITED = ''RATE_LIMITED''"
| "request_outcome_text UPSTREAM_UNAVAILABLE = ''UPSTREAM_UNAVAILABLE''"

fun outcome_text :: "attempt_outcome \<Rightarrow> string" where
  "outcome_text (Decided p) = purchase_outcome_text p"
| "outcome_text (Refused r) = request_outcome_text r"

fun order_status_text :: "order_status \<Rightarrow> string" where
  "order_status_text Reserved = ''reserved''"
| "order_status_text Persisted = ''persisted''"
| "order_status_text Compensated = ''compensated''"

fun metric_field_text :: "sale_metric_field \<Rightarrow> string" where
  "metric_field_text M_confirmed = ''confirmed''"
| "metric_field_text M_already_purchased = ''already_purchased''"
| "metric_field_text M_sold_out = ''sold_out''"
| "metric_field_text M_sale_not_active = ''sale_not_active''"
| "metric_field_text M_not_initialized = ''not_initialized''"
| "metric_field_text M_rate_limited = ''rate_limited''"
| "metric_field_text M_invalid_user_id = ''invalid_user_id''"

fun PURCHASE_OUTCOME_HTTP_STATUS :: "attempt_outcome \<Rightarrow> nat" where
  "PURCHASE_OUTCOME_HTTP_STATUS (Decided CONFIRMED) = 201"
| "PURCHASE_OUTCOME_HTTP_STATUS (Decided ALREADY_PURCHASED) = 409"
| "PURCHASE_OUTCOME_HTTP_STATUS (Decided SOLD_OUT) = 410"
| "PURCHASE_OUTCOME_HTTP_STATUS (Decided SALE_NOT_STARTED) = 403"
| "PURCHASE_OUTCOME_HTTP_STATUS (Decided SALE_ENDED) = 403"
| "PURCHASE_OUTCOME_HTTP_STATUS (Decided NOT_INITIALIZED) = 503"
| "PURCHASE_OUTCOME_HTTP_STATUS (Refused INVALID_USER_ID) = 422"
| "PURCHASE_OUTCOME_HTTP_STATUS (Refused RATE_LIMITED) = 429"
| "PURCHASE_OUTCOME_HTTP_STATUS (Refused UPSTREAM_UNAVAILABLE) = 503"

definition isSuccessOutcome :: "attempt_outcome \<Rightarrow> bool" where
  "isSuccessOutcome o' \<longleftrightarrow> o' = Decided CONFIRMED"

fun OUTCOME_METRIC_FIELD :: "attempt_outcome \<Rightarrow> sale_metric_field" where
  "OUTCOME_METRIC_FIELD (Decided CONFIRMED) = M_confirmed"
| "OUTCOME_METRIC_FIELD (Decided ALREADY_PURCHASED) = M_already_purchased"
| "OUTCOME_METRIC_FIELD (Decided SOLD_OUT) = M_sold_out"
| "OUTCOME_METRIC_FIELD (Decided SALE_NOT_STARTED) = M_sale_not_active"
| "OUTCOME_METRIC_FIELD (Decided SALE_ENDED) = M_sale_not_active"
| "OUTCOME_METRIC_FIELD (Decided NOT_INITIALIZED) = M_not_initialized"
| "OUTCOME_METRIC_FIELD (Refused INVALID_USER_ID) = M_invalid_user_id"
| "OUTCOME_METRIC_FIELD (Refused RATE_LIMITED) = M_rate_limited"
| "OUTCOME_METRIC_FIELD (Refused UPSTREAM_UNAVAILABLE) = M_not_initialized"

section \<open>Facts\<close>

lemma PURCHASE_OUTCOMES_complete: "p \<in> set PURCHASE_OUTCOMES"
  by (cases p) (simp_all add: PURCHASE_OUTCOMES_def)

lemma ATTEMPT_OUTCOMES_complete: "out \<in> set ATTEMPT_OUTCOMES"
proof (cases out)
  case (Decided p)
  then show ?thesis using PURCHASE_OUTCOMES_complete [of p] by (simp add: ATTEMPT_OUTCOMES_def)
next
  case (Refused r)
  then show ?thesis by (cases r) (simp_all add: ATTEMPT_OUTCOMES_def REQUEST_OUTCOMES_def)
qed

lemma SALE_METRIC_FIELDS_complete: "f \<in> set SALE_METRIC_FIELDS"
  by (cases f) (simp_all add: SALE_METRIC_FIELDS_def)

lemma purchase_outcome_text_inject [simp]:
  "purchase_outcome_text p = purchase_outcome_text q \<longleftrightarrow> p = q"
  by (cases p; cases q) simp_all

lemma metric_field_text_inject [simp]:
  "metric_field_text f = metric_field_text g \<longleftrightarrow> f = g"
  by (cases f; cases g) simp_all

lemma outcome_text_inject: "outcome_text a = outcome_text b \<longleftrightarrow> a = b"
proof (cases a; cases b)
  fix p r assume "a = Decided p" "b = Refused r"
  then show ?thesis by (cases p; cases r) simp_all
next
  fix p r assume "a = Refused r" "b = Decided p"
  then show ?thesis by (cases p; cases r) simp_all
next
  fix r q assume "a = Refused r" "b = Refused q"
  then show ?thesis by (cases r; cases q) simp_all
qed simp_all

lemma http_2xx_iff_success:
  "PURCHASE_OUTCOME_HTTP_STATUS out < 300 \<longleftrightarrow> isSuccessOutcome out"
proof (cases out)
  case (Decided p)
  then show ?thesis by (cases p) (simp_all add: isSuccessOutcome_def)
next
  case (Refused r)
  then show ?thesis by (cases r) (simp_all add: isSuccessOutcome_def)
qed

end
