(* ===== verification/Sale_Ledger.thy ===== *)
theory Sale_Ledger
  imports Redis_Scripts Results
begin

text \<open>
  What the scripts guarantee together. A \<open>reservation desk\<close> is the interface: steps that take a
  unit for a user or give one back, a fixed capacity, and the books that must balance; its lemmas
  are proved once in the locale. The Redis scripts are its interpretation. From it follow the
  repository's invariants I1 (no oversell), I2 (one unit per user) and I3 (only inside the
  window) for every interleaving of purchases, compensations and repairs.
\<close>

section \<open>Runs\<close>

text \<open>Running operations one after another, with the reply to each.\<close>

fun run_ops :: "('op \<Rightarrow> 's \<Rightarrow> 'c \<times> 's) \<Rightarrow> 'op list \<Rightarrow> 's \<Rightarrow> ('op \<times> 'c) list \<times> 's" where
  "run_ops step [] s = ([], s)"
| "run_ops step (op # ops) s =
     (case step op s of (c, s1) \<Rightarrow>
       (case run_ops step ops s1 of (cs, s2) \<Rightarrow> ((op, c) # cs, s2)))"

lemma run_ops_append:
  "run_ops step (xs @ ys) s =
     (case run_ops step xs s of (cs, s1) \<Rightarrow>
       (case run_ops step ys s1 of (ds, s2) \<Rightarrow> (cs @ ds, s2)))"
  by (induction xs arbitrary: s) (auto split: prod.splits)

section \<open>The interface: a reservation desk\<close>

text \<open>
  \<open>takes op c\<close> is the user who gets a unit when \<open>op\<close> is answered with \<open>c\<close>, \<open>gives op c\<close> the one
  whose unit comes back.
\<close>

locale reservation_desk =
  fixes step :: "'op \<Rightarrow> 's \<Rightarrow> 'c \<times> 's"
    and ok :: "'op \<Rightarrow> bool"
    and inv :: "'s \<Rightarrow> bool"
    and holders :: "'s \<Rightarrow> 'u set"
    and free :: "'s \<Rightarrow> int"
    and capacity :: int
    and takes :: "'op \<Rightarrow> 'c \<Rightarrow> 'u option"
    and gives :: "'op \<Rightarrow> 'c \<Rightarrow> 'u option"
  assumes inv_step: "inv s \<Longrightarrow> ok op \<Longrightarrow> inv (snd (step op s))"
    and take_step: "inv s \<Longrightarrow> ok op \<Longrightarrow> takes op (fst (step op s)) = Some u \<Longrightarrow>
      u \<notin> holders s \<and> holders (snd (step op s)) = insert u (holders s)"
    and give_step: "inv s \<Longrightarrow> ok op \<Longrightarrow> takes op (fst (step op s)) = None \<Longrightarrow>
      gives op (fst (step op s)) = Some u \<Longrightarrow>
      u \<in> holders s \<and> holders (snd (step op s)) = holders s - {u}"
    and idle_step: "inv s \<Longrightarrow> ok op \<Longrightarrow> takes op (fst (step op s)) = None \<Longrightarrow>
      gives op (fst (step op s)) = None \<Longrightarrow> holders (snd (step op s)) = holders s"
    and exclusive: "takes op c = None \<or> gives op c = None"
    and books: "inv s \<Longrightarrow> finite (holders s) \<and> 0 \<le> free s \<and> free s + int (card (holders s)) = capacity"
begin

definition taken :: "('op \<times> 'c) list \<Rightarrow> nat" where
  "taken cs = length (filter (\<lambda>(op, c). takes op c \<noteq> None) cs)"

definition given :: "('op \<times> 'c) list \<Rightarrow> nat" where
  "given cs = length (filter (\<lambda>(op, c). gives op c \<noteq> None) cs)"

definition taken_by :: "'u \<Rightarrow> ('op \<times> 'c) list \<Rightarrow> nat" where
  "taken_by u cs = length (filter (\<lambda>(op, c). takes op c = Some u) cs)"

definition given_by :: "'u \<Rightarrow> ('op \<times> 'c) list \<Rightarrow> nat" where
  "given_by u cs = length (filter (\<lambda>(op, c). gives op c = Some u) cs)"

lemmas tally_defs = taken_def given_def taken_by_def given_by_def

lemma step_cases:
  assumes "inv s" and "ok op" and "step op s = (c, s1)"
  obtains (take) u where "takes op c = Some u" "gives op c = None" "u \<notin> holders s"
      "holders s1 = insert u (holders s)"
    | (give) u where "takes op c = None" "gives op c = Some u" "u \<in> holders s"
      "holders s1 = holders s - {u}"
    | (idle) "takes op c = None" "gives op c = None" "holders s1 = holders s"
proof -
  have eq: "c = fst (step op s)" "s1 = snd (step op s)" using assms(3) by simp_all
  show thesis
  proof (cases "takes op c")
    case (Some u)
    with exclusive [of op c] have "gives op c = None" by auto
    with Some take_step [OF assms(1,2)] that(1) eq show thesis by blast
  next
    case None
    show thesis
    proof (cases "gives op c")
      case (Some u)
      with None give_step [OF assms(1,2)] that(2) eq show thesis by blast
    next
      case none: None
      with None idle_step [OF assms(1,2)] that(3) eq show thesis by simp
    qed
  qed
qed

lemma user_step:
  assumes "inv s" and "ok op" and "step op s = (c, s1)"
  shows "(of_bool (takes op c = Some u) :: int) - of_bool (gives op c = Some u)
     = of_bool (u \<in> holders s1) - of_bool (u \<in> holders s)"
  using assms by (cases rule: step_cases) auto

lemma run_inv: "inv s \<Longrightarrow> \<forall>op \<in> set ops. ok op \<Longrightarrow> inv (snd (run_ops step ops s))"
proof (induction ops arbitrary: s)
  case (Cons op ops)
  then have "inv (snd (step op s))" using inv_step by simp
  with Cons show ?case by (auto split: prod.splits) (metis snd_conv)
qed simp

lemma user_balance:
  "inv s \<Longrightarrow> \<forall>op \<in> set ops. ok op \<Longrightarrow> run_ops step ops s = (cs, t) \<Longrightarrow>
   int (taken_by u cs) - int (given_by u cs) = of_bool (u \<in> holders t) - of_bool (u \<in> holders s)"
proof (induction ops arbitrary: s cs)
  case Nil
  then show ?case by (simp add: tally_defs)
next
  case (Cons op ops)
  obtain c s1 where c: "step op s = (c, s1)" by (cases "step op s")
  obtain ds where ds: "run_ops step ops s1 = (ds, t)" and cs: "cs = (op, c) # ds"
    using Cons.prems(3) c by (auto split: prod.splits)
  have "inv s1" using inv_step [OF Cons.prems(1), of op] Cons.prems(2) c by simp
  then have IH: "int (taken_by u ds) - int (given_by u ds)
     = of_bool (u \<in> holders t) - of_bool (u \<in> holders s1)"
    using Cons.IH ds Cons.prems(2) by simp
  have "ok op" using Cons.prems(2) by simp
  note move = user_step [OF Cons.prems(1) this c, of u]
  have "int (taken_by u cs) = of_bool (takes op c = Some u) + int (taken_by u ds)"
    and "int (given_by u cs) = of_bool (gives op c = Some u) + int (given_by u ds)"
    by (simp_all add: cs tally_defs)
  with IH move show ?case by simp
qed

lemma total_balance:
  "inv s \<Longrightarrow> \<forall>op \<in> set ops. ok op \<Longrightarrow> run_ops step ops s = (cs, t) \<Longrightarrow>
   int (taken cs) - int (given cs) = int (card (holders t)) - int (card (holders s))"
proof (induction ops arbitrary: s cs)
  case Nil
  then show ?case by (simp add: tally_defs)
next
  case (Cons op ops)
  obtain c s1 where c: "step op s = (c, s1)" by (cases "step op s")
  obtain ds where ds: "run_ops step ops s1 = (ds, t)" and cs: "cs = (op, c) # ds"
    using Cons.prems(3) c by (auto split: prod.splits)
  have "inv s1" using inv_step [OF Cons.prems(1), of op] Cons.prems(2) c by simp
  then have IH: "int (taken ds) - int (given ds) = int (card (holders t)) - int (card (holders s1))"
    using Cons.IH ds Cons.prems(2) by simp
  have fin: "finite (holders s)" using books [OF Cons.prems(1)] by simp
  have "ok op" using Cons.prems(2) by simp
  from Cons.prems(1) this c show ?case
  proof (cases rule: step_cases)
    case (give u)
    then have "int (card (holders s1)) = int (card (holders s)) - 1"
      using fin by (metis card_Diff1_less card_Diff_singleton card_gt_0_iff empty_iff of_nat_1 of_nat_diff One_nat_def Suc_leI)
    with IH give show ?thesis by (simp add: cs tally_defs)
  qed (use IH fin in \<open>simp_all add: cs tally_defs\<close>)
qed

text \<open>The books of a whole run: never more units out than the capacity, never two to one user.\<close>

lemma run_books:
  assumes "inv s" and "\<forall>op \<in> set ops. ok op" and "run_ops step ops s = (cs, t)"
  shows "int (card (holders t)) \<le> capacity"
    and "int (card (holders s)) + int (taken cs) - int (given cs) = capacity - free t"
    and "0 \<le> free t"
proof -
  have "inv t" using run_inv [OF assms(1,2)] assms(3) by simp
  note b = books [OF this]
  show "int (card (holders t)) \<le> capacity" and "0 \<le> free t" using b by simp_all
  show "int (card (holders s)) + int (taken cs) - int (given cs) = capacity - free t"
    using total_balance [OF assms] b by simp
qed

end

section \<open>The state invariant of a seeded sale\<close>

definition seeded :: "int \<Rightarrow> int \<Rightarrow> int \<Rightarrow> redis_sale \<Rightarrow> bool" where
  "seeded starts ends tot s \<longleftrightarrow>
     HGET (config_key s) ''startsAtMs'' = Some (dec_int starts)
     \<and> HGET (config_key s) ''endsAtMs'' = Some (dec_int ends)
     \<and> HGET (config_key s) ''totalStock'' = Some (dec_int tot)
     \<and> starts < ends \<and> 0 \<le> tot"

lemma seeded_fields:
  assumes "seeded starts ends tot s"
  shows "tonumber_field (config_key s) ''startsAtMs'' = Some starts"
    and "tonumber_field (config_key s) ''endsAtMs'' = Some ends"
    and "tonumber_field (config_key s) ''totalStock'' = Some tot"
    and "starts < ends" and "0 \<le> tot"
  using assms by (simp_all add: seeded_def tonumber_field_def)

text \<open>The identity on file for a user, as the scripts read it: the text before the first colon.\<close>

definition ledger_id :: "redis_sale \<Rightarrow> string \<Rightarrow> string option" where
  "ledger_id s u = map_option (\<lambda>v. fst (split_colon v)) (HGET (reservations_key s) u)"

definition ledger_users :: "redis_sale \<Rightarrow> string set" where
  "ledger_users s = fst ` set (reservations_key s)"

definition stock_of :: "redis_sale \<Rightarrow> int" where
  "stock_of s = (case stock_key s of None \<Rightarrow> 0 | Some k \<Rightarrow> k)"

definition stamped_in :: "int \<Rightarrow> int \<Rightarrow> string \<Rightarrow> bool" where
  "stamped_in starts ends v \<longleftrightarrow>
     (\<exists>rid n. v = ledger_value rid (lua_tostring n) \<and> UUID_PATTERN rid \<and> starts \<le> n \<and> n < ends)"

definition sale_inv :: "int \<Rightarrow> int \<Rightarrow> int \<Rightarrow> redis_sale \<Rightarrow> bool" where
  "sale_inv starts ends tot s \<longleftrightarrow>
     seeded starts ends tot s
     \<and> distinct (map fst (reservations_key s)) \<and> distinct (buyers_key s)
     \<and> set (buyers_key s) = ledger_users s
     \<and> stock_key s \<noteq> None \<and> 0 \<le> stock_of s
     \<and> stock_of s + HLEN (reservations_key s) = tot
     \<and> (\<forall>v \<in> snd ` set (reservations_key s). stamped_in starts ends v)"

text \<open>The operations that act on a live sale, each one script call.\<close>

datatype redis_op =
    Purchase redis_time string string
  | Compensate string string
  | Reconcile_Membership string
  | Reconcile_State
  | Seed string string string string int int int int

fun redis_step :: "redis_op \<Rightarrow> redis_sale \<Rightarrow> string \<times> redis_sale" where
  "redis_step (Purchase t u r) s = (case purchase_lua t u r s of (rep, s1) \<Rightarrow> (pur_code rep, s1))"
| "redis_step (Compensate u r) s = (case compensate_lua u r s of ((code, _), s1) \<Rightarrow> (code, s1))"
| "redis_step (Reconcile_Membership u) s = reconcile_membership_lua u s"
| "redis_step Reconcile_State s = (case reconcile_state_lua s of (rep, s1) \<Rightarrow> (rs_code rep, s1))"
| "redis_step (Seed i n sa ea sm em tot rem) s =
     (case seed_lua i n sa ea sm em tot rem s of (rep, s1) \<Rightarrow> (seed_code rep, s1))"

text \<open>Reservation identifiers come from \<open>randomUUID\<close>.\<close>

fun op_ok :: "redis_op \<Rightarrow> bool" where
  "op_ok (Purchase _ _ r) = UUID_PATTERN r"
| "op_ok _ = True"

fun op_takes :: "redis_op \<Rightarrow> string \<Rightarrow> string option" where
  "op_takes (Purchase _ u _) code = (if code = ''CONFIRMED'' then Some u else None)"
| "op_takes _ _ = None"

fun op_gives :: "redis_op \<Rightarrow> string \<Rightarrow> string option" where
  "op_gives (Compensate u _) code =
     (if code = ''COMPENSATED'' \<or> code = ''COMPENSATED_CAPPED'' then Some u else None)"
| "op_gives _ _ = None"

section \<open>One lemma per script\<close>

lemma ledger_users_alt: "u \<in> ledger_users s \<longleftrightarrow> HEXISTS (reservations_key s) u"
  by (simp add: ledger_users_def HEXISTS_def map_of_eq_None_iff)

lemma hash_laws [redis_simps]:
  "HGET (HSET f v h) g = (if g = f then Some v else HGET h g)"
  "HGET (HDEL f h) g = (if g = f then None else HGET h g)"
  "fst ` set (HSET f v h) = insert f (fst ` set h)"
  "fst ` set (HDEL f h) = fst ` set h - {f}"
  "distinct (map fst h) \<Longrightarrow> distinct (map fst (HSET f v h))"
  "distinct (map fst h) \<Longrightarrow> distinct (map fst (HDEL f h))"
  "f \<notin> fst ` set h \<Longrightarrow> HLEN (HSET f v h) = HLEN h + 1"
  "distinct (map fst h) \<Longrightarrow> f \<in> fst ` set h \<Longrightarrow> HLEN (HDEL f h) = HLEN h - 1"
  by (simp_all add: HGET_def HSET_def HDEL_def HLEN_def AList.update_conv' AList.delete_conv'
      dom_update length_alist_update)
    (use length_alist_delete in \<open>fastforce simp: AList.distinct_update AList.distinct_delete
      AList.delete_eq distinct_map_filter\<close>)+

lemma set_laws [redis_simps]:
  "set (SADD u b) = insert u (set b)" "distinct b \<Longrightarrow> distinct (SADD u b)"
  "set (SREM u b) = set b - {u}" "distinct b \<Longrightarrow> distinct (SREM u b)"
  "u \<in> set b \<Longrightarrow> SADD u b = b" "u \<notin> set b \<Longrightarrow> SREM u b = b"
  by (simp_all add: SADD_def SREM_def distinct_removeAll)

lemma hash_values:
  "v \<in> snd ` set (HSET f w h) \<Longrightarrow> v = w \<or> v \<in> snd ` set h"
  "v \<in> snd ` set (HDEL f h) \<Longrightarrow> v \<in> snd ` set h"
proof -
  show "v \<in> snd ` set (HSET f w h) \<Longrightarrow> v = w \<or> v \<in> snd ` set h"
    unfolding HSET_def by (induction h) (auto split: if_splits)
  show "v \<in> snd ` set (HDEL f h) \<Longrightarrow> v \<in> snd ` set h"
    unfolding HDEL_def by (auto simp: AList.delete_eq)
qed

lemma ledger_id_value:
  "UUID_PATTERN r \<Longrightarrow> fst (split_colon (ledger_value r x)) = r"
  by (simp add: ledger_value_def split_colon_append uuid_no_colon)

text \<open>What the purchase script does on a seeded sale, branch by branch.\<close>

lemma purchase_lua_cases:
  assumes "seeded starts ends tot s"
  obtains (not_started) "now_ms t < starts"
      "redis_step (Purchase t u r) s = (''SALE_NOT_STARTED'', s)"
    | (ended) "ends \<le> now_ms t" "redis_step (Purchase t u r) s = (''SALE_ENDED'', s)"
    | (duplicate) "starts \<le> now_ms t" "now_ms t < ends"
      "u \<in> set (buyers_key s) \<or> u \<in> ledger_users s"
      "redis_step (Purchase t u r) s =
         (''ALREADY_PURCHASED'', s\<lparr>buyers_key := SADD u (buyers_key s)\<rparr>)"
    | (sold_out) "starts \<le> now_ms t" "now_ms t < ends" "u \<notin> set (buyers_key s)"
      "u \<notin> ledger_users s" "stock_of s \<le> 0" "redis_step (Purchase t u r) s = (''SOLD_OUT'', s)"
    | (confirmed) "starts \<le> now_ms t" "now_ms t < ends" "u \<notin> set (buyers_key s)"
      "u \<notin> ledger_users s" "0 < stock_of s"
      "redis_step (Purchase t u r) s = (''CONFIRMED'',
         s\<lparr>stock_key := Some (stock_of s - 1), buyers_key := SADD u (buyers_key s),
           reservations_key := HSET u (ledger_value r (lua_tostring (now_ms t)))
             (reservations_key s)\<rparr>)"
proof -
  have cfg: "tonumber_field (config_key s) ''startsAtMs'' = Some starts"
    "tonumber_field (config_key s) ''endsAtMs'' = Some ends"
    using seeded_fields [OF assms] by simp_all
  note unfold = purchase_lua_def cfg stock_of_def [symmetric] Let_def SISMEMBER_def ledger_users_alt
  consider "now_ms t < starts" | "\<not> now_ms t < starts" "ends \<le> now_ms t"
    | "starts \<le> now_ms t" "now_ms t < ends" "u \<in> set (buyers_key s) \<or> u \<in> ledger_users s"
    | "starts \<le> now_ms t" "now_ms t < ends" "u \<notin> set (buyers_key s)" "u \<notin> ledger_users s"
      "stock_of s \<le> 0"
    | "starts \<le> now_ms t" "now_ms t < ends" "u \<notin> set (buyers_key s)" "u \<notin> ledger_users s"
      "0 < stock_of s" by linarith
  then show thesis
  proof cases
    case 1 then show thesis by (intro that(1)) (simp_all add: unfold)
  next
    case 2 then show thesis by (intro that(2)) (simp_all add: unfold)
  next
    case 3 then show thesis by (intro that(3)) (simp_all add: unfold)
  next
    case 4 then show thesis by (intro that(4)) (simp_all add: unfold)
  next
    case 5 then show thesis by (intro that(5)) (simp_all add: unfold)
  qed
qed

text \<open>The compensation script on any state: it acts only on the reservation it names.\<close>

lemma compensate_lua_cases:
  obtains (stale) "ledger_id s u \<noteq> Some r" "compensate_lua u r s = ((''NOOP'', stock_of s), s)"
    | (orphan) "ledger_id s u = Some r" "u \<notin> set (buyers_key s)"
      "compensate_lua u r s = ((''NOOP'', stock_of s),
         s\<lparr>reservations_key := HDEL u (reservations_key s), buyers_key := SREM u (buyers_key s)\<rparr>)"
    | (capped) tot where "ledger_id s u = Some r" "u \<in> set (buyers_key s)"
      "tonumber_field (config_key s) ''totalStock'' = Some tot" "tot \<le> stock_of s"
      "compensate_lua u r s = ((''COMPENSATED_CAPPED'', stock_of s),
         s\<lparr>reservations_key := HDEL u (reservations_key s), buyers_key := SREM u (buyers_key s)\<rparr>)"
    | (returned) "ledger_id s u = Some r" "u \<in> set (buyers_key s)"
      "\<forall>tot. tonumber_field (config_key s) ''totalStock'' = Some tot \<longrightarrow> stock_of s < tot"
      "compensate_lua u r s = ((''COMPENSATED'', stock_of s + 1),
         s\<lparr>reservations_key := HDEL u (reservations_key s), buyers_key := SREM u (buyers_key s),
           stock_key := Some (stock_of s + 1)\<rparr>)"
proof (cases "ledger_id s u = Some r")
  case False
  then have "compensate_lua u r s = ((''NOOP'', stock_of s), s)"
    by (auto simp: compensate_lua_def ledger_id_def stock_of_def Let_def split: option.splits)
  with False that(1) show thesis by blast
next
  case True
  then obtain v where v: "HGET (reservations_key s) u = Some v" "fst (split_colon v) = r"
    by (auto simp: ledger_id_def)
  note unfold = compensate_lua_def stock_of_def [symmetric] v Let_def SISMEMBER_def
  show thesis
  proof (cases "u \<in> set (buyers_key s)")
    case False
    with True that(2) show thesis by (simp add: unfold)
  next
    case member: True
    show thesis
    proof (cases "tonumber_field (config_key s) ''totalStock''")
      case None
      with True member that(4) show thesis by (simp add: unfold)
    next
      case (Some tot)
      with True member that(3,4) show thesis by (cases "tot \<le> stock_of s") (simp_all add: unfold)
    qed
  qed
qed

section \<open>Every script keeps the invariant\<close>

lemma sale_inv_facts:
  assumes "sale_inv starts ends tot s"
  shows "seeded starts ends tot s" and "distinct (map fst (reservations_key s))"
    and "distinct (buyers_key s)" and "set (buyers_key s) = ledger_users s"
    and "stock_key s = Some (stock_of s)" and "0 \<le> stock_of s"
    and "stock_of s + HLEN (reservations_key s) = tot"
    and "v \<in> snd ` set (reservations_key s) \<Longrightarrow> stamped_in starts ends v"
  using assms by (auto simp: sale_inv_def stock_of_def split: option.splits)

lemma ledger_users_fields [redis_simps]:
  "ledger_users (s\<lparr>buyers_key := b\<rparr>) = ledger_users s"
  "ledger_users (s\<lparr>stock_key := k\<rparr>) = ledger_users s"
  "ledger_users (s\<lparr>reservations_key := h\<rparr>) = fst ` set h"
  by (simp_all add: ledger_users_def)

lemma card_ledger_users:
  "distinct (map fst (reservations_key s)) \<Longrightarrow> int (card (ledger_users s)) = HLEN (reservations_key s)"
  unfolding ledger_users_def HLEN_def
  using distinct_card [of "map fst (reservations_key s)"] by simp

lemma sale_inv_take:
  assumes inv: "sale_inv starts ends tot s" and new: "u \<notin> ledger_users s" and free: "0 < stock_of s"
    and v: "stamped_in starts ends v"
  shows "sale_inv starts ends tot (s\<lparr>stock_key := Some (stock_of s - 1),
     buyers_key := SADD u (buyers_key s), reservations_key := HSET u v (reservations_key s)\<rparr>)"
proof -
  note f = sale_inv_facts [OF inv]
  have "w \<in> snd ` set (HSET u v (reservations_key s)) \<Longrightarrow> stamped_in starts ends w" for w
    using hash_values(1) [of w u v] f(8) v by blast
  with f(1-4,6,7) new free show ?thesis
    unfolding sale_inv_def
    by (auto simp: seeded_def stock_of_def ledger_users_def redis_simps)
qed

lemma sale_inv_give:
  assumes inv: "sale_inv starts ends tot s" and on: "u \<in> ledger_users s"
  shows "sale_inv starts ends tot (s\<lparr>reservations_key := HDEL u (reservations_key s),
     buyers_key := SREM u (buyers_key s), stock_key := Some (stock_of s + 1)\<rparr>)"
proof -
  note f = sale_inv_facts [OF inv]
  have "w \<in> snd ` set (HDEL u (reservations_key s)) \<Longrightarrow> stamped_in starts ends w" for w
    using hash_values(2) [of w u] f(8) by blast
  with f(1-4,6,7) on show ?thesis
    unfolding sale_inv_def
    by (auto simp: seeded_def stock_of_def ledger_users_def redis_simps)
qed

lemma ledger_id_users: "ledger_id s u = Some r \<Longrightarrow> u \<in> ledger_users s"
  by (auto simp: ledger_id_def ledger_users_alt HEXISTS_def HGET_def)

text \<open>With the books in order a compensation never meets the cap nor an orphan entry.\<close>

lemma compensate_on_inv:
  assumes inv: "sale_inv starts ends tot s"
  obtains (stale) "ledger_id s u \<noteq> Some r" "compensate_lua u r s = ((''NOOP'', stock_of s), s)"
    | (returned) "ledger_id s u = Some r" "u \<in> ledger_users s"
      "compensate_lua u r s = ((''COMPENSATED'', stock_of s + 1),
         s\<lparr>reservations_key := HDEL u (reservations_key s), buyers_key := SREM u (buyers_key s),
           stock_key := Some (stock_of s + 1)\<rparr>)"
proof (cases rule: compensate_lua_cases [of s u r])
  case stale
  then show thesis by (rule that(1))
next
  case orphan
  then show thesis using ledger_id_users [of s u r] sale_inv_facts(4) [OF inv] by simp
next
  case (capped t)
  note f = sale_inv_facts [OF inv]
  have "t = tot" using capped(3) seeded_fields [OF f(1)] by simp
  moreover have "u \<in> fst ` set (reservations_key s)"
    using ledger_id_users [OF capped(1)] by (simp add: ledger_users_def)
  then have "0 < HLEN (reservations_key s)" by (cases "reservations_key s") (auto simp: HLEN_def)
  ultimately show thesis using capped(4) f(7) by simp
next
  case returned
  then show thesis using ledger_id_users [of s u r] that(2) by simp
qed

lemma reconcile_membership_on_inv:
  assumes "sale_inv starts ends tot s"
  shows "reconcile_membership_lua u s = (if u \<in> ledger_users s then ''PRESENT'' else ''ABSENT'', s)"
  using sale_inv_facts(4) [OF assms]
  by (simp add: reconcile_membership_lua_def ledger_users_alt [symmetric] set_laws)

lemma tonumber_field_nonempty: "tonumber_field c f = Some i \<Longrightarrow> c \<noteq> []"
  by (auto simp: tonumber_field_def HGET_def)

lemma reconcile_state_on_inv:
  assumes "sale_inv starts ends tot s"
  shows "reconcile_state_lua s = (\<lparr>rs_code = ''RECONCILED'', rs_previous = stock_of s,
     rs_new = stock_of s, rs_count = HLEN (reservations_key s), rs_total = tot\<rparr>, s)"
proof -
  note f = sale_inv_facts [OF assms]
  have t: "tonumber_field (config_key s) ''totalStock'' = Some tot" and "0 \<le> tot"
    using seeded_fields [OF f(1)] by simp_all
  moreover have "tot - HLEN (reservations_key s) = stock_of s" and "HLEN (reservations_key s) \<le> tot"
    using f(6,7) by simp_all
  moreover have "s\<lparr>stock_key := Some (stock_of s)\<rparr> = s" using f(5) by (cases s) simp
  ultimately show ?thesis
    using tonumber_field_nonempty [OF t]
    by (simp add: reconcile_state_lua_def or_minus_one_def f(5) Let_def)
qed

lemma seed_on_inv:
  assumes "sale_inv starts ends tot s"
  shows "snd (seed_lua i n sa ea sm em k rem s) = s"
proof -
  note f = sale_inv_facts [OF assms]
  have "config_key s \<noteq> []" by (rule tonumber_field_nonempty [OF seeded_fields(1) [OF f(1)]])
  then show ?thesis by (simp add: seed_lua_def f(5) Let_def)
qed

text \<open>On a consistent sale every script call takes a unit, returns one, or changes nothing.\<close>

lemma redis_step_on_inv:
  assumes inv: "sale_inv starts ends tot s" and ok: "op_ok op"
  obtains (take) t u r where "op = Purchase t u r" "u \<notin> ledger_users s" "0 < stock_of s"
      "starts \<le> now_ms t" "now_ms t < ends"
      "redis_step op s = (''CONFIRMED'', s\<lparr>stock_key := Some (stock_of s - 1),
         buyers_key := SADD u (buyers_key s),
         reservations_key := HSET u (ledger_value r (lua_tostring (now_ms t))) (reservations_key s)\<rparr>)"
    | (give) u r where "op = Compensate u r" "ledger_id s u = Some r" "u \<in> ledger_users s"
      "redis_step op s = (''COMPENSATED'', s\<lparr>reservations_key := HDEL u (reservations_key s),
         buyers_key := SREM u (buyers_key s), stock_key := Some (stock_of s + 1)\<rparr>)"
    | (idle) "op_takes op (fst (redis_step op s)) = None" "op_gives op (fst (redis_step op s)) = None"
      "snd (redis_step op s) = s"
proof (cases op)
  case (Purchase t u r)
  note f = sale_inv_facts [OF inv]
  from f(1) show thesis
  proof (cases rule: purchase_lua_cases [where t = t and u = u and r = r])
    case duplicate
    moreover have "s\<lparr>buyers_key := SADD u (buyers_key s)\<rparr> = s"
      using duplicate(3) f(4) by (simp add: set_laws)
    ultimately show thesis using Purchase by (intro that(3)) simp_all
  next
    case confirmed
    then show thesis using Purchase by (intro that(1)) simp_all
  qed (use Purchase in \<open>intro that(3); simp\<close>)+
next
  case (Compensate u r)
  from inv show thesis
  proof (cases rule: compensate_on_inv [where u = u and r = r])
    case stale
    then show thesis using Compensate by (intro that(3)) simp_all
  next
    case returned
    then show thesis using Compensate by (intro that(2)) simp_all
  qed
next
  case (Reconcile_Membership u)
  then show thesis
    using reconcile_membership_on_inv [OF inv, of u] by (intro that(3)) simp_all
next
  case Reconcile_State
  then show thesis using reconcile_state_on_inv [OF inv] by (intro that(3)) simp_all
next
  case (Seed i n sa ea sm em k rem)
  then show thesis
    using seed_on_inv [OF inv, of i n sa ea sm em k rem]
    by (intro that(3)) (simp_all add: case_prod_unfold)
qed

lemma redis_step_inv:
  assumes inv: "sale_inv starts ends tot s" and ok: "op_ok op"
  shows "sale_inv starts ends tot (snd (redis_step op s))"
  using inv ok
proof (cases rule: redis_step_on_inv)
  case (take t u r)
  then have "stamped_in starts ends (ledger_value r (lua_tostring (now_ms t)))"
    unfolding stamped_in_def using ok by auto
  from sale_inv_take [OF inv take(2,3) this] take(6) show ?thesis by simp
next
  case (give u r)
  from sale_inv_give [OF inv give(3)] give(4) show ?thesis by simp
qed (simp add: inv)

interpretation desk: reservation_desk redis_step op_ok "sale_inv starts ends tot" ledger_users
  stock_of tot op_takes op_gives for starts ends tot
proof
  fix s op u
  assume inv: "sale_inv starts ends tot s"
  show "finite (ledger_users s) \<and> 0 \<le> stock_of s \<and> stock_of s + int (card (ledger_users s)) = tot"
    using sale_inv_facts [OF inv] card_ledger_users [of s] by (simp add: ledger_users_def)
  assume ok: "op_ok op"
  show "sale_inv starts ends tot (snd (redis_step op s))" using inv ok by (rule redis_step_inv)
  show "u \<notin> ledger_users s \<and> ledger_users (snd (redis_step op s)) = insert u (ledger_users s)"
    if "op_takes op (fst (redis_step op s)) = Some u"
    using inv ok
  proof (cases rule: redis_step_on_inv)
    case (take t u' r)
    then show ?thesis using that by (simp add: ledger_users_def redis_simps)
  qed (use that in simp_all)
  show "u \<in> ledger_users s \<and> ledger_users (snd (redis_step op s)) = ledger_users s - {u}"
    if "op_takes op (fst (redis_step op s)) = None" "op_gives op (fst (redis_step op s)) = Some u"
    using inv ok
  proof (cases rule: redis_step_on_inv)
    case (give u' r)
    then show ?thesis using that by (simp add: ledger_users_def redis_simps)
  qed (use that in simp_all)
  show "ledger_users (snd (redis_step op s)) = ledger_users s"
    if "op_takes op (fst (redis_step op s)) = None" "op_gives op (fst (redis_step op s)) = None"
    using inv ok by (cases rule: redis_step_on_inv) (use that in simp_all)
next
  fix op c
  show "op_takes op c = None \<or> op_gives op c = None" by (cases op) simp_all
qed

section \<open>The invariants of the sale\<close>

text \<open>A sale as the bootstrap leaves it: seeded once on empty keys.\<close>

definition fresh_sale :: "string \<Rightarrow> string \<Rightarrow> string \<Rightarrow> string \<Rightarrow> int \<Rightarrow> int \<Rightarrow> int \<Rightarrow> redis_sale" where
  "fresh_sale saleId name startsAt endsAt starts ends tot =
     snd (seed_lua saleId name startsAt endsAt starts ends tot tot empty_sale)"

lemma fresh_sale_inv:
  "starts < ends \<Longrightarrow> 0 \<le> tot \<Longrightarrow> sale_inv starts ends tot (fresh_sale i n sa ea starts ends tot)"
  by (simp add: fresh_sale_def seed_lua_def empty_sale_def sale_inv_def seeded_def stock_of_def
      ledger_users_def Let_def redis_simps) (simp add: HLEN_def)

lemma fresh_sale_users: "ledger_users (fresh_sale i n sa ea starts ends tot) = {}"
  by (simp add: fresh_sale_def seed_lua_def empty_sale_def ledger_users_def Let_def)

text \<open>What the answers of a run add up to.\<close>

definition confirmations :: "(redis_op \<times> string) list \<Rightarrow> nat" where
  "confirmations cs = length (filter (\<lambda>(op, c). op_takes op c \<noteq> None) cs)"

definition returns :: "(redis_op \<times> string) list \<Rightarrow> nat" where
  "returns cs = length (filter (\<lambda>(op, c). op_gives op c \<noteq> None) cs)"

definition confirmations_of :: "string \<Rightarrow> (redis_op \<times> string) list \<Rightarrow> nat" where
  "confirmations_of u cs = length (filter (\<lambda>(op, c). op_takes op c = Some u) cs)"

definition returns_of :: "string \<Rightarrow> (redis_op \<times> string) list \<Rightarrow> nat" where
  "returns_of u cs = length (filter (\<lambda>(op, c). op_gives op c = Some u) cs)"

text \<open>
  A sample run, for the witnesses: one unit, two users, a compensation and a second sale of the
  returned unit.
\<close>

definition sample_uuid :: "char \<Rightarrow> string" where
  "sample_uuid c = replicate 8 c @ ''-4444-4444-8444-444444444444''"

lemma sample_uuids:
  "UUID_PATTERN (sample_uuid CHR ''a'')" "UUID_PATTERN (sample_uuid CHR ''b'')"
  "UUID_PATTERN (sample_uuid CHR ''c'')" "sample_uuid CHR ''a'' \<noteq> sample_uuid CHR ''b''"
  "sample_uuid CHR ''a'' \<noteq> sample_uuid CHR ''c''"
  by code_simp+

definition sample_sale :: redis_sale where
  "sample_sale = fresh_sale ''flash-2026'' ''Flash'' ''t0'' ''t1'' 1000 9000 1"

definition sample_ops :: "redis_op list" where
  "sample_ops =
     [Purchase (1, 0) ''alice'' (sample_uuid CHR ''a''), Purchase (2, 0) ''bob'' (sample_uuid CHR ''b''),
      Compensate ''alice'' (sample_uuid CHR ''a''), Purchase (3, 0) ''bob'' (sample_uuid CHR ''c''),
      Compensate ''alice'' (sample_uuid CHR ''a''), Reconcile_State]"

lemma sample_ops_ok: "\<forall>op \<in> set sample_ops. op_ok op"
  by code_simp

lemmas script_eval = script_defs Let_def HGET_def HSET_def HEXISTS_def SISMEMBER_def SADD_def SREM_def
  HDEL_def HLEN_def tonumber_field_def now_ms_def or_minus_one_def AList.delete_eq

lemma sample_run:
  "run_ops redis_step sample_ops sample_sale =
     (zip sample_ops [''CONFIRMED'', ''SOLD_OUT'', ''COMPENSATED'', ''CONFIRMED'', ''NOOP'', ''RECONCILED''],
      sample_sale\<lparr>stock_key := Some 0, buyers_key := [''bob''],
        reservations_key := [(''bob'', ledger_value (sample_uuid CHR ''c'') (lua_tostring 3000))]\<rparr>)"
  by (simp add: sample_ops_def sample_sale_def fresh_sale_def empty_sale_def ledger_id_value
      sample_uuids script_eval)





lemma confirmed_in_window:
  assumes "seeded starts ends tot s" and "redis_step (Purchase t u r) s = (''CONFIRMED'', s1)"
  shows "starts \<le> now_ms t \<and> now_ms t < ends"
  using assms(1) by (cases rule: purchase_lua_cases [where t = t and u = u and r = r])
    (use assms(2) in simp_all)

lemma run_in_window:
  "sale_inv starts ends tot s \<Longrightarrow> \<forall>op \<in> set ops. op_ok op \<Longrightarrow>
   run_ops redis_step ops s = (cs, s') \<Longrightarrow> (Purchase t u r, ''CONFIRMED'') \<in> set cs \<Longrightarrow>
   starts \<le> now_ms t \<and> now_ms t < ends"
proof (induction ops arbitrary: s cs)
  case (Cons op ops)
  obtain c s1 where c: "redis_step op s = (c, s1)" by (cases "redis_step op s")
  obtain ds where ds: "run_ops redis_step ops s1 = (ds, s')" and cs: "cs = (op, c) # ds"
    using Cons.prems(3) c by (auto split: prod.splits)
  have inv1: "sale_inv starts ends tot s1" using redis_step_inv [OF Cons.prems(1)] Cons.prems(2) c
    by (metis list.set_intros(1) snd_conv)
  show ?case
  proof (cases "(Purchase t u r, ''CONFIRMED'') \<in> set ds")
    case True
    then show ?thesis using Cons.IH [OF inv1 _ ds] Cons.prems(2) by simp
  next
    case False
    then have "op = Purchase t u r" and "c = ''CONFIRMED''" using Cons.prems(4) cs by simp_all
    then show ?thesis using confirmed_in_window sale_inv_facts(1) [OF Cons.prems(1)] c by simp
  qed
qed simp



section \<open>Identity of a reservation\<close>

fun purchase_ids :: "redis_op list \<Rightarrow> string set" where
  "purchase_ids [] = {}"
| "purchase_ids (Purchase t u r # ops) = insert r (purchase_ids ops)"
| "purchase_ids (_ # ops) = purchase_ids ops"

lemma step_ledger_id:
  assumes inv: "sale_inv starts ends tot s" and ok: "op_ok op"
  shows "ledger_id (snd (redis_step op s)) u = Some r \<Longrightarrow>
     ledger_id s u = Some r \<or> (\<exists>t. op = Purchase t u r)"
  using inv ok
proof (cases rule: redis_step_on_inv)
  case (take t u' r')
  then have "UUID_PATTERN r'" using ok by simp
  moreover assume "ledger_id (snd (redis_step op s)) u = Some r"
  ultimately show ?thesis using take
    by (auto simp: ledger_id_def redis_simps ledger_id_value split: if_splits)
next
  case (give u' r')
  moreover assume "ledger_id (snd (redis_step op s)) u = Some r"
  ultimately show ?thesis by (auto simp: ledger_id_def redis_simps split: if_splits)
qed simp

lemma run_ledger_id:
  "sale_inv starts ends tot s \<Longrightarrow> \<forall>op \<in> set ops. op_ok op \<Longrightarrow> r \<notin> purchase_ids ops \<Longrightarrow>
   ledger_id s u \<noteq> Some r \<Longrightarrow> ledger_id (snd (run_ops redis_step ops s)) u \<noteq> Some r"
proof (induction ops arbitrary: s)
  case (Cons op ops)
  have ok: "op_ok op" using Cons.prems(2) by simp
  have "\<not> (\<exists>t. op = Purchase t u r)" and later: "r \<notin> purchase_ids ops"
    using Cons.prems(3) by (cases op; auto)+
  then have "ledger_id (snd (redis_step op s)) u \<noteq> Some r"
    using step_ledger_id [OF Cons.prems(1) ok, of u r] Cons.prems(4) by blast
  with Cons.IH [OF redis_step_inv [OF Cons.prems(1) ok] _ later] Cons.prems(2)
  show ?case by (simp add: case_prod_unfold)
qed simp



section \<open>Refinement of an abstract box office\<close>

text \<open>
  The contract of the scripts without keys, counters or text: a map from users to the reservation
  each holds, a window and a capacity.
\<close>

fun spec_step ::
  "int \<Rightarrow> int \<Rightarrow> int \<Rightarrow> redis_op \<Rightarrow> (string \<rightharpoonup> string) \<Rightarrow> string \<times> (string \<rightharpoonup> string)" where
  "spec_step starts ends tot (Purchase t u r) h =
     (if now_ms t < starts then (''SALE_NOT_STARTED'', h)
      else if ends \<le> now_ms t then (''SALE_ENDED'', h)
      else if u \<in> dom h then (''ALREADY_PURCHASED'', h)
      else if tot \<le> int (card (dom h)) then (''SOLD_OUT'', h)
      else (''CONFIRMED'', h(u \<mapsto> r)))"
| "spec_step starts ends tot (Compensate u r) h =
     (if h u = Some r then (''COMPENSATED'', h(u := None)) else (''NOOP'', h))"
| "spec_step starts ends tot (Reconcile_Membership u) h =
     (if u \<in> dom h then ''PRESENT'' else ''ABSENT'', h)"
| "spec_step starts ends tot Reconcile_State h = (''RECONCILED'', h)"
| "spec_step starts ends tot (Seed i n sa ea sm em k rem) h =
     (if sm = starts \<and> em = ends \<and> k = tot then ''ALREADY_SEEDED'' else ''CONFIG_DRIFT'', h)"

text \<open>One step simulated is every run simulated, answer by answer.\<close>

locale simulation =
  fixes step :: "'op \<Rightarrow> 's \<Rightarrow> 'c \<times> 's"
    and ok :: "'op \<Rightarrow> bool"
    and inv :: "'s \<Rightarrow> bool"
    and abs :: "'s \<Rightarrow> 'a"
    and spec :: "'op \<Rightarrow> 'a \<Rightarrow> 'c \<times> 'a"
  assumes keeps: "inv s \<Longrightarrow> ok op \<Longrightarrow> inv (snd (step op s))"
    and simulates: "inv s \<Longrightarrow> ok op \<Longrightarrow>
      spec op (abs s) = (fst (step op s), abs (snd (step op s)))"
begin

lemma run_refines:
  "inv s \<Longrightarrow> \<forall>op \<in> set ops. ok op \<Longrightarrow>
   run_ops spec ops (abs s) = (fst (run_ops step ops s), abs (snd (run_ops step ops s)))"
  by (induction ops arbitrary: s) (simp_all add: simulates keeps case_prod_unfold)

end

lemma dom_ledger_id: "dom (ledger_id s) = ledger_users s"
  by (auto simp: dom_def ledger_id_def ledger_users_alt HEXISTS_def HGET_def)

lemma ledger_id_fields [redis_simps]:
  "ledger_id (s\<lparr>buyers_key := b\<rparr>) = ledger_id s"
  "ledger_id (s\<lparr>stock_key := k\<rparr>) = ledger_id s"
  "ledger_id (s\<lparr>reservations_key := HSET u v h\<rparr>) =
     (ledger_id (s\<lparr>reservations_key := h\<rparr>))(u \<mapsto> fst (split_colon v))"
  "ledger_id (s\<lparr>reservations_key := HDEL u h\<rparr>) = (ledger_id (s\<lparr>reservations_key := h\<rparr>))(u := None)"
  by (simp_all add: ledger_id_def redis_simps fun_eq_iff)

lemma ledger_id_self [simp]: "ledger_id (s\<lparr>reservations_key := reservations_key s\<rparr>) = ledger_id s"
  by simp

lemma spec_sold_out:
  assumes "sale_inv starts ends tot s"
  shows "tot \<le> int (card (dom (ledger_id s))) \<longleftrightarrow> stock_of s \<le> 0"
  using sale_inv_facts(2,7) [OF assms] card_ledger_users [of s] by (simp add: dom_ledger_id) arith

lemma purchase_simulates:
  assumes inv: "sale_inv starts ends tot s" and r: "UUID_PATTERN r"
  shows "spec_step starts ends tot (Purchase t u r) (ledger_id s) =
     (fst (redis_step (Purchase t u r) s), ledger_id (snd (redis_step (Purchase t u r) s)))"
  using sale_inv_facts(1) [OF inv]
proof (cases rule: purchase_lua_cases [where t = t and u = u and r = r])
  case duplicate
  then have "u \<in> dom (ledger_id s)" using sale_inv_facts(4) [OF inv] by (auto simp: dom_ledger_id)
  with duplicate show ?thesis by (simp add: redis_simps del: domIff redis_step.simps)
next
  case confirmed
  then show ?thesis
    by (simp add: redis_simps dom_ledger_id [symmetric] spec_sold_out [OF inv] ledger_id_value [OF r]
        del: domIff redis_step.simps)
qed (use seeded_fields(4) [OF sale_inv_facts(1) [OF inv]] in
    \<open>simp_all add: dom_ledger_id spec_sold_out [OF inv, unfolded dom_ledger_id]
      del: domIff redis_step.simps\<close>)

lemma seed_simulates:
  assumes inv: "sale_inv starts ends tot s"
  shows "seed_code (fst (seed_lua i n sa ea sm em k rem s)) =
     (if sm = starts \<and> em = ends \<and> k = tot then ''ALREADY_SEEDED'' else ''CONFIG_DRIFT'')"
proof -
  note f = sale_inv_facts [OF inv]
  have c: "config_key s \<noteq> []" by (rule tonumber_field_nonempty [OF seeded_fields(1) [OF f(1)]])
  show ?thesis
    using f(1) unfolding seeded_def by (auto simp: seed_lua_def f(5) Let_def c)
qed

interpretation ledger: simulation redis_step op_ok "sale_inv starts ends tot" ledger_id
  "spec_step starts ends tot" for starts ends tot
proof
  fix s op
  assume inv: "sale_inv starts ends tot s" and ok: "op_ok op"
  show "sale_inv starts ends tot (snd (redis_step op s))" using inv ok by (rule redis_step_inv)
  show "spec_step starts ends tot op (ledger_id s) =
     (fst (redis_step op s), ledger_id (snd (redis_step op s)))"
  proof (cases op)
    case (Purchase t u r)
    then show ?thesis using purchase_simulates [OF inv] ok by simp
  next
    case (Compensate u r)
    from inv show ?thesis
      by (cases rule: compensate_on_inv [where u = u and r = r]) (simp_all add: Compensate redis_simps)
  next
    case (Reconcile_Membership u)
    then show ?thesis
      by (simp add: reconcile_membership_on_inv [OF inv] dom_ledger_id del: domIff)
  next
    case Reconcile_State
    then show ?thesis by (simp add: reconcile_state_on_inv [OF inv])
  next
    case (Seed i n sa ea sm em k rem)
    then show ?thesis
      using seed_simulates [OF inv] seed_on_inv [OF inv] by (simp add: case_prod_unfold)
  qed
qed



end
