(* ===== verification/Sale_Repair.thy ===== *)
theory Sale_Repair
  imports Sale_Ledger
begin

text \<open>
  The scripts that repair a sale whose keys disagree: membership repair, stock recomputation from
  the ledger, and restoration of a ledger entry from a persisted order. They start from states in
  which the invariant of Sale_Ledger is broken, and the theorems say what brings it back.
\<close>

section \<open>Membership repair\<close>

text \<open>A ledger in order: what no repair script can invent.\<close>

definition ledger_in_order :: "int \<Rightarrow> int \<Rightarrow> int \<Rightarrow> redis_sale \<Rightarrow> bool" where
  "ledger_in_order starts ends tot s \<longleftrightarrow>
     seeded starts ends tot s \<and> distinct (map fst (reservations_key s)) \<and> distinct (buyers_key s)
     \<and> HLEN (reservations_key s) \<le> tot
     \<and> (\<forall>v \<in> snd ` set (reservations_key s). stamped_in starts ends v)"

definition members_agree :: "redis_sale \<Rightarrow> string \<Rightarrow> bool" where
  "members_agree s u \<longleftrightarrow> (u \<in> set (buyers_key s) \<longleftrightarrow> u \<in> ledger_users s)"

lemma reconcile_membership_effect:
  assumes "reconcile_membership_lua u s = (code, s1)"
  shows "s1 = s\<lparr>buyers_key := buyers_key s1\<rparr>" and "distinct (buyers_key s) \<Longrightarrow> distinct (buyers_key s1)"
    and "members_agree s1 v \<longleftrightarrow> v = u \<or> members_agree s v"
    and "code = (if u \<in> ledger_users s then ''PRESENT'' else ''ABSENT'')"
  using assms
  by (auto simp: reconcile_membership_lua_def members_agree_def ledger_users_alt [symmetric]
      redis_simps set_laws split: if_splits)

definition repair_members :: "string list \<Rightarrow> redis_sale \<Rightarrow> redis_sale" where
  "repair_members users s = fold (\<lambda>u s. snd (reconcile_membership_lua u s)) users s"

lemma repair_members_effect:
  "repair_members users s = s\<lparr>buyers_key := buyers_key (repair_members users s)\<rparr>
   \<and> (distinct (buyers_key s) \<longrightarrow> distinct (buyers_key (repair_members users s)))
   \<and> (members_agree (repair_members users s) v \<longleftrightarrow> v \<in> set users \<or> members_agree s v)"
proof (induction users arbitrary: s)
  case Nil
  then show ?case by (simp add: repair_members_def)
next
  case (Cons u users)
  obtain code s1 where s1: "reconcile_membership_lua u s = (code, s1)"
    by (cases "reconcile_membership_lua u s")
  note e = reconcile_membership_effect [OF s1]
  have rep: "repair_members (u # users) s = repair_members users s1"
    by (simp add: repair_members_def s1)
  have "repair_members users s1 = s\<lparr>buyers_key := buyers_key (repair_members users s1)\<rparr>"
    using Cons.IH [of s1] e(1) by (metis (no_types, lifting) redis_sale.surjective redis_sale.update_convs(3))
  with Cons.IH [of s1] e(2,3) show ?case unfolding rep by auto
qed

text \<open>
  C17: the repair pass restores the books. Whatever the buyers set and the stock counter have
  become, repairing the membership of every user that either key names and then recomputing the
  stock leaves the sale consistent again, without touching a ledger entry, provided the ledger
  itself is in order and within the total.
\<close>

theorem repair_restores_books:
  assumes order: "ledger_in_order starts ends tot s"
    and covers: "set (buyers_key s) \<union> ledger_users s \<subseteq> set users"
  shows "sale_inv starts ends tot (snd (reconcile_state_lua (repair_members users s)))
     \<and> reservations_key (snd (reconcile_state_lua (repair_members users s))) = reservations_key s
     \<and> rs_code (fst (reconcile_state_lua (repair_members users s))) = ''RECONCILED''"
proof -
  let ?m = "repair_members users s"
  have m: "?m = s\<lparr>buyers_key := buyers_key ?m\<rparr>" and d: "distinct (buyers_key ?m)"
    using repair_members_effect [of users s] order by (simp_all add: ledger_in_order_def)
  have same: "config_key ?m = config_key s" "reservations_key ?m = reservations_key s"
    "ledger_users ?m = ledger_users s"
    by (subst m, simp add: redis_simps)+
  have "members_agree ?m v" for v
    using repair_members_effect [of users s v] covers by (auto simp: members_agree_def)
  then have agree: "set (buyers_key ?m) = ledger_users s"
    unfolding members_agree_def same by blast
  have seeded: "seeded starts ends tot s" and len: "HLEN (reservations_key s) \<le> tot"
    using order by (simp_all add: ledger_in_order_def)
  note t = seeded_fields [OF seeded]
  have rec: "reconcile_state_lua ?m = (\<lparr>rs_code = ''RECONCILED'', rs_previous = or_minus_one (stock_key ?m),
      rs_new = tot - HLEN (reservations_key s), rs_count = HLEN (reservations_key s), rs_total = tot\<rparr>,
      ?m\<lparr>stock_key := Some (tot - HLEN (reservations_key s))\<rparr>)"
    using tonumber_field_nonempty [OF t(1)] t(3,5) len
    by (simp add: reconcile_state_lua_def same Let_def or_minus_one_def)
  have "sale_inv starts ends tot (?m\<lparr>stock_key := Some (tot - HLEN (reservations_key s))\<rparr>)"
    using order d agree len
    by (simp add: sale_inv_def ledger_in_order_def seeded_def same stock_of_def ledger_users_fields)
  then show ?thesis by (simp add: rec same)
qed

definition sample_torn :: redis_sale where
  "sample_torn = sample_sale\<lparr>stock_key := None, buyers_key := [''carol''],
     reservations_key := [(''bob'', ledger_value (sample_uuid CHR ''b'') (lua_tostring 3000))]\<rparr>"

lemma sample_torn_order: "ledger_in_order 1000 9000 1 sample_torn"
proof -
  have "stamped_in 1000 9000 (ledger_value (sample_uuid CHR ''b'') (lua_tostring 3000))"
    unfolding stamped_in_def using sample_uuids(2)
    by (intro exI [of _ "sample_uuid CHR ''b''"] exI [of _ 3000]) simp
  then show ?thesis
    by (simp add: ledger_in_order_def sample_torn_def sample_sale_def fresh_sale_def seed_lua_def
        empty_sale_def seeded_def Let_def redis_simps HLEN_def)
qed

theorem repair_restores_books_witness:
  "stock_key sample_torn = None \<and> \<not> members_agree sample_torn ''carol''
   \<and> sale_inv 1000 9000 1 (snd (reconcile_state_lua (repair_members [''carol'', ''bob''] sample_torn)))"
proof -
  have "stock_key sample_torn = None" and "\<not> members_agree sample_torn ''carol''"
    by (simp_all add: sample_torn_def members_agree_def ledger_users_def)
  with repair_restores_books [OF sample_torn_order, of "[''carol'', ''bob'']"] show ?thesis
    by (simp add: sample_torn_def ledger_users_def)
qed

section \<open>Restoring an entry from a persisted order\<close>

text \<open>
  Restoration never replaces a live reservation. On any state the script leaves the identity
  on file for the user if there is one and otherwise records the given one; it touches no other
  user and never the stock; the user becomes a buyer unless the identity on file is another; and
  the answer and the entry it returns say which of the three happened.
\<close>

lemma compare_restore_first_writer_wins:
  assumes r: "UUID_PATTERN r"
    and reply: "compare_restore_lua u r ms s = ((code, v), s1)"
  shows "ledger_id s1 u = Some (case ledger_id s u of None \<Rightarrow> r | Some r0 \<Rightarrow> r0)
     \<and> HGET (reservations_key s1) u = Some v
     \<and> code = (if ledger_id s u = None then ''RESTORED''
               else if ledger_id s u = Some r then ''ALREADY_MATCHED'' else ''CONFLICT'')
     \<and> (\<forall>w. w \<noteq> u \<longrightarrow> HGET (reservations_key s1) w = HGET (reservations_key s) w)
     \<and> stock_key s1 = stock_key s
     \<and> set (buyers_key s1) = (if code = ''CONFLICT'' then set (buyers_key s)
                              else insert u (set (buyers_key s)))"
proof (cases "HGET (reservations_key s) u")
  case None
  then show ?thesis using reply ledger_id_value [OF r]
    by (auto simp: compare_restore_lua_def ledger_id_def redis_simps Let_def)
next
  case (Some w)
  then show ?thesis using reply
    by (cases "fst (split_colon w) = r")
      (auto simp: compare_restore_lua_def ledger_id_def redis_simps Let_def)
qed

lemma restored_state:
  assumes "u \<notin> ledger_users s"
  shows "compare_restore_lua u r ms s =
     ((''RESTORED'', ledger_value r (dec_int ms)),
      s\<lparr>reservations_key := HSET u (ledger_value r (dec_int ms)) (reservations_key s),
        buyers_key := SADD u (buyers_key s)\<rparr>)"
  using assms by (simp add: compare_restore_lua_def ledger_users_alt HEXISTS_def HGET_def Let_def)

text \<open>
  Restoring an entry consumes no unit. On a consistent sale the restored entry leaves stock and
  ledger one unit above the total together; recomputing the stock makes the sale consistent again
  when a unit was free, and is refused as \<open>OVERCOMMITTED\<close> when none was.
\<close>

lemma restore_then_reconcile:
  assumes inv: "sale_inv starts ends tot s" and new: "u \<notin> ledger_users s"
    and r: "UUID_PATTERN r" and ms: "starts \<le> ms" "ms < ends" "0 \<le> ms" "ms < 10 ^ 14"
    and reply: "compare_restore_lua u r ms s = (reply, s1)"
  shows "stock_of s1 + HLEN (reservations_key s1) = tot + 1
     \<and> (if 0 < stock_of s
        then sale_inv starts ends tot (snd (reconcile_state_lua s1))
        else rs_code (fst (reconcile_state_lua s1)) = ''OVERCOMMITTED'' \<and> snd (reconcile_state_lua s1) = s1)"
proof -
  note f = sale_inv_facts [OF inv]
  let ?v = "ledger_value r (dec_int ms)"
  have s1: "s1 = s\<lparr>reservations_key := HSET u ?v (reservations_key s), buyers_key := SADD u (buyers_key s)\<rparr>"
    using reply restored_state [OF new, of r ms] by simp
  have len: "HLEN (reservations_key s1) = HLEN (reservations_key s) + 1"
    using new by (simp add: s1 redis_simps ledger_users_def)
  have stock: "stock_of s1 = stock_of s" by (simp add: s1 stock_of_def)
  have seeded1: "seeded starts ends tot s1" using f(1) by (simp add: s1 seeded_def)
  note t = seeded_fields [OF seeded1]
  have rec: "reconcile_state_lua s1 =
     (if tot < HLEN (reservations_key s1)
      then (\<lparr>rs_code = ''OVERCOMMITTED'', rs_previous = or_minus_one (stock_key s1),
              rs_new = or_minus_one (stock_key s1), rs_count = HLEN (reservations_key s1), rs_total = tot\<rparr>, s1)
      else (\<lparr>rs_code = ''RECONCILED'', rs_previous = or_minus_one (stock_key s1),
              rs_new = tot - HLEN (reservations_key s1), rs_count = HLEN (reservations_key s1), rs_total = tot\<rparr>,
            s1\<lparr>stock_key := Some (tot - HLEN (reservations_key s1))\<rparr>))"
    using tonumber_field_nonempty [OF t(1)] t(3,5)
    by (simp add: reconcile_state_lua_def Let_def or_minus_one_def)
  have "lua_tostring ms = dec_int ms" using ms by (simp add: lua_tostring_def dec_int_def)
  then have "stamped_in starts ends ?v" unfolding stamped_in_def using r ms by metis
  then have "sale_inv starts ends tot (s1\<lparr>stock_key := Some (stock_of s - 1)\<rparr>)" if "0 < stock_of s"
    using sale_inv_take [OF inv new that, of ?v] by (cases s) (simp add: s1)
  moreover have "HLEN (reservations_key s1) = tot - stock_of s + 1" using len f(7) by simp
  ultimately show ?thesis using stock f(6) by (simp add: rec)
qed

end
