(* ===== verification/Sale_State.thy ===== *)
theory Sale_State
  imports Prelude
begin

text \<open>
  The sale state machine of packages/shared/src/sale-state.ts: a pure function of the clock, the
  window and the stock. Numbers are \<^typ>\<open>js_num\<close>, so the non-finite arguments that the code
  rejects, and a stock of NaN that it does not, are part of the model.
\<close>

section \<open>Definitions\<close>

datatype sale_state = Upcoming | Active | Sold_out | Ended

record sale_state_input =
  nowMs :: js_num
  startsAtMs :: js_num
  endsAtMs :: js_num
  stockRemaining :: js_num

definition assertValidWindow :: "js_num \<Rightarrow> js_num \<Rightarrow> js_num \<Rightarrow> unit result" where
  "assertValidWindow now starts ends =
     (if \<not> is_finite now \<or> \<not> is_finite starts \<or> \<not> is_finite ends
      then Inl (RangeError ''sale-state: nowMs, startsAtMs, and endsAtMs must all be finite numbers'')
      else if js_le ends starts
      then Inl (RangeError ''sale-state: endsAtMs must be strictly greater than startsAtMs'')
      else Inr ())"

definition deriveSaleState :: "sale_state_input \<Rightarrow> sale_state result" where
  "deriveSaleState i =
     bind_result (assertValidWindow (nowMs i) (startsAtMs i) (endsAtMs i)) (\<lambda>_.
       if js_lt (nowMs i) (startsAtMs i) then Inr Upcoming
       else if js_le (endsAtMs i) (nowMs i) then Inr Ended
       else let stock = (if js_lt (stockRemaining i) (Fin 0) then Fin 0 else stockRemaining i)
            in if js_le stock (Fin 0) then Inr Sold_out else Inr Active)"

definition isWithinSaleWindow :: "js_num \<Rightarrow> js_num \<Rightarrow> js_num \<Rightarrow> bool result" where
  "isWithinSaleWindow now starts ends =
     bind_result (assertValidWindow now starts ends)
       (\<lambda>_. Inr (js_le starts now \<and> js_lt now ends))"

fun js_sub :: "js_num \<Rightarrow> js_num \<Rightarrow> js_num" where
  "js_sub (Fin a) (Fin b) = Fin (a - b)"
| "js_sub (Fin _) PosInf = NegInf"
| "js_sub (Fin _) NegInf = PosInf"
| "js_sub PosInf (Fin _) = PosInf"
| "js_sub NegInf (Fin _) = NegInf"
| "js_sub PosInf NegInf = PosInf"
| "js_sub NegInf PosInf = NegInf"
| "js_sub _ _ = NaN"

definition msUntilNextTransition :: "sale_state_input \<Rightarrow> js_num option result" where
  "msUntilNextTransition i =
     bind_result (deriveSaleState i) (\<lambda>state.
       Inr (case state of
              Upcoming \<Rightarrow> Some (js_sub (startsAtMs i) (nowMs i))
            | Active \<Rightarrow> Some (js_sub (endsAtMs i) (nowMs i))
            | Sold_out \<Rightarrow> Some (js_sub (endsAtMs i) (nowMs i))
            | Ended \<Rightarrow> None))"

text \<open>The input built from integer readings, as every caller in the repository builds it.\<close>

abbreviation sale_input :: "int \<Rightarrow> int \<Rightarrow> int \<Rightarrow> int \<Rightarrow> sale_state_input" where
  "sale_input now starts ends stock \<equiv>
     \<lparr>nowMs = Fin now, startsAtMs = Fin starts, endsAtMs = Fin ends, stockRemaining = Fin stock\<rparr>"

section \<open>Properties\<close>

lemma assertValidWindow_Fin [simp]:
  "assertValidWindow (Fin n) (Fin s) (Fin e) =
     (if e \<le> s then Inl (RangeError ''sale-state: endsAtMs must be strictly greater than startsAtMs'')
      else Inr ())"
  by (simp add: assertValidWindow_def)

lemma deriveSaleState_Fin:
  "s < e \<Longrightarrow> deriveSaleState (sale_input n s e k) =
     Inr (if n < s then Upcoming else if e \<le> n then Ended else if k \<le> 0 then Sold_out else Active)"
  by (simp add: deriveSaleState_def)

lemma isWithinSaleWindow_Fin:
  "s < e \<Longrightarrow> isWithinSaleWindow (Fin n) (Fin s) (Fin e) = Inr (s \<le> n \<and> n < e)"
  by (simp add: isWithinSaleWindow_def)

text \<open>
  The machine is total on every valid window and follows the documented precedence
  (upcoming, then ended, then sold out, then active): the window is open exactly when the
  state is active or sold out, negative stock counts as none, and an invalid window is a
  RangeError and never a state.
\<close>

lemma deriveSaleState_spec:
  "(deriveSaleState i = Inr st \<longleftrightarrow>
      (\<exists>n s e. nowMs i = Fin n \<and> startsAtMs i = Fin s \<and> endsAtMs i = Fin e \<and> s < e \<and>
        st = (if n < s then Upcoming else if e \<le> n then Ended
              else if js_le (stockRemaining i) (Fin 0) then Sold_out else Active)))
   \<and> (isWithinSaleWindow (nowMs i) (startsAtMs i) (endsAtMs i) = Inr True \<longleftrightarrow>
      deriveSaleState i = Inr Active \<or> deriveSaleState i = Inr Sold_out)
   \<and> (\<forall>err. deriveSaleState i = Inl err \<longrightarrow> (\<exists>msg. err = RangeError msg))"
proof -
  have neg: "js_lt k (Fin 0) \<Longrightarrow> js_le k (Fin 0)" for k
    by (cases k) auto
  show ?thesis
  proof (cases "nowMs i"; cases "startsAtMs i"; cases "endsAtMs i")
    fix n s e assume fin: "nowMs i = Fin n" "startsAtMs i = Fin s" "endsAtMs i = Fin e"
    show ?thesis
      by (cases "s < e") (auto simp: fin deriveSaleState_def isWithinSaleWindow_def neg Let_def)
  qed (auto simp: deriveSaleState_def isWithinSaleWindow_def assertValidWindow_def)
qed

text \<open>
  The announced delay is exact. When a transition is pending, the delay is positive, at
  the instant it announces the state has changed, and at every earlier instant it has not; no
  delay is announced only once the sale has ended.
\<close>

lemma msUntilNextTransition_exact:
  assumes window: "s < e"
  shows "(msUntilNextTransition (sale_input n s e k) = Inr None \<longleftrightarrow> e \<le> n)
     \<and> (\<forall>d. msUntilNextTransition (sale_input n s e k) = Inr (Some (Fin d)) \<longrightarrow>
          0 < d
          \<and> deriveSaleState (sale_input (n + d) s e k) \<noteq> deriveSaleState (sale_input n s e k)
          \<and> (\<forall>t. 0 \<le> t \<and> t < d \<longrightarrow>
               deriveSaleState (sale_input (n + t) s e k) = deriveSaleState (sale_input n s e k)))"
  using window by (auto simp: msUntilNextTransition_def deriveSaleState_Fin split: if_splits)

end
