(* ===== verification/Sale_Store.thy ===== *)
theory Sale_Store
  imports Sale_Repair Sale_State
begin

text \<open>
  The Redis client side: packages/redis/src/scripts/run.ts and registry.ts (script execution with
  the \<open>EVALSHA\<close> to \<open>EVAL\<close> fallback) and packages/redis/src/sale-store.ts (the store every process
  uses), over a server that holds the keys of every sale and a script cache, behind a link that
  may lose a command or its reply.
\<close>

section \<open>The server and the link\<close>

text \<open>
  Keys of different sales are disjoint (shown in Contract), so the server's contents are one
  \<^typ>\<open>redis_sale\<close> per sale identifier. The cache holds the digests of the scripts it has seen;
  a script is identified by its name, which determines its source and so its digest.
  \<open>link\<close> lists what happens to the next commands; commands beyond the list are delivered.
\<close>

datatype delivery = Delivered | Lost_before | Lost_after

record redis_server =
  script_cache :: "string list"
  sales :: "string \<Rightarrow> redis_sale"
  link :: "delivery list"

definition connection_error :: js_error where
  "connection_error = GenericError ''Connection is closed.''"

definition redis_call :: "(redis_server, 'a) io \<Rightarrow> (redis_server, 'a) io" where
  "redis_call cmd srv =
     (case link srv of
        [] \<Rightarrow> cmd srv
      | d # ds \<Rightarrow>
          (case d of
             Delivered \<Rightarrow> cmd (srv\<lparr>link := ds\<rparr>)
           | Lost_before \<Rightarrow> (Inl connection_error, srv\<lparr>link := ds\<rparr>)
           | Lost_after \<Rightarrow> (Inl connection_error, snd (cmd (srv\<lparr>link := ds\<rparr>)))))"

definition on_sale :: "string \<Rightarrow> (redis_sale \<Rightarrow> 'a \<times> redis_sale) \<Rightarrow> (redis_server, 'a) io" where
  "on_sale saleId body srv =
     (case body (sales srv saleId) of (reply, s1) \<Rightarrow>
        (Inr reply, srv\<lparr>sales := (sales srv)(saleId := s1)\<rparr>))"

definition read_sale :: "string \<Rightarrow> (redis_sale \<Rightarrow> 'a) \<Rightarrow> (redis_server, 'a) io" where
  "read_sale saleId query = on_sale saleId (\<lambda>s. (query s, s))"

section \<open>The script registry and runScript\<close>

record lua_script =
  script_name :: string
  numKeys :: nat

definition PURCHASE_SCRIPT :: lua_script where
  "PURCHASE_SCRIPT = \<lparr>script_name = ''purchase'', numKeys = 4\<rparr>"

definition COMPENSATE_SCRIPT :: lua_script where
  "COMPENSATE_SCRIPT = \<lparr>script_name = ''compensate'', numKeys = 4\<rparr>"

definition SEED_SCRIPT :: lua_script where
  "SEED_SCRIPT = \<lparr>script_name = ''seed'', numKeys = 2\<rparr>"

definition STATUS_SCRIPT :: lua_script where
  "STATUS_SCRIPT = \<lparr>script_name = ''status'', numKeys = 2\<rparr>"

definition RECONCILE_SCRIPT :: lua_script where
  "RECONCILE_SCRIPT = \<lparr>script_name = ''reconcile'', numKeys = 2\<rparr>"

definition RECONCILE_MEMBERSHIP_SCRIPT :: lua_script where
  "RECONCILE_MEMBERSHIP_SCRIPT = \<lparr>script_name = ''reconcile-membership'', numKeys = 2\<rparr>"

definition RECONCILE_STATE_SCRIPT :: lua_script where
  "RECONCILE_STATE_SCRIPT = \<lparr>script_name = ''reconcile-state'', numKeys = 3\<rparr>"

definition COMPARE_RESTORE_RESERVATION_SCRIPT :: lua_script where
  "COMPARE_RESTORE_RESERVATION_SCRIPT = \<lparr>script_name = ''compare-restore-reservation'', numKeys = 2\<rparr>"

definition INSPECT_RESERVATION_MEMBERSHIP_SCRIPT :: lua_script where
  "INSPECT_RESERVATION_MEMBERSHIP_SCRIPT =
     \<lparr>script_name = ''inspect-reservation-membership'', numKeys = 2\<rparr>"

definition LUA_SCRIPTS :: "lua_script list" where
  "LUA_SCRIPTS =
     [PURCHASE_SCRIPT, COMPENSATE_SCRIPT, SEED_SCRIPT, STATUS_SCRIPT, RECONCILE_SCRIPT,
      RECONCILE_MEMBERSHIP_SCRIPT, RECONCILE_STATE_SCRIPT, COMPARE_RESTORE_RESERVATION_SCRIPT,
      INSPECT_RESERVATION_MEMBERSHIP_SCRIPT]"

lemmas registry_defs = PURCHASE_SCRIPT_def COMPENSATE_SCRIPT_def SEED_SCRIPT_def STATUS_SCRIPT_def
  RECONCILE_SCRIPT_def RECONCILE_MEMBERSHIP_SCRIPT_def RECONCILE_STATE_SCRIPT_def
  COMPARE_RESTORE_RESERVATION_SCRIPT_def INSPECT_RESERVATION_MEMBERSHIP_SCRIPT_def

definition EVALSHA :: "lua_script \<Rightarrow> (redis_server, 'a) io \<Rightarrow> (redis_server, 'a) io" where
  "EVALSHA script body srv =
     (if script_name script \<in> set (script_cache srv) then body srv
      else (Inl (GenericError ''NOSCRIPT No matching script. Please use EVAL.''), srv))"

definition EVAL :: "lua_script \<Rightarrow> (redis_server, 'a) io \<Rightarrow> (redis_server, 'a) io" where
  "EVAL script body srv =
     body (srv\<lparr>script_cache := List.insert (script_name script) (script_cache srv)\<rparr>)"

definition isNoScriptError :: "js_error \<Rightarrow> bool" where
  "isNoScriptError err \<longleftrightarrow> contains_text ''NOSCRIPT'' (error_message err)"

definition runScript ::
  "lua_script \<Rightarrow> string list \<Rightarrow> string \<Rightarrow> (redis_sale \<Rightarrow> 'a \<times> redis_sale) \<Rightarrow> (redis_server, 'a) io" where
  "runScript script keys saleId body =
     (if length keys \<noteq> numKeys script then io_throw (GenericError ''runScript: wrong number of KEYS'')
      else io_catch (redis_call (EVALSHA script (on_sale saleId body)))
        (\<lambda>err. if \<not> isNoScriptError err then io_throw err
               else redis_call (EVAL script (on_sale saleId body))))"

section \<open>The outcome unions and their decoding\<close>

datatype seed_outcome = SEEDED | ALREADY_SEEDED | CONFIG_DRIFT | STOCK_MISSING
datatype compensate_outcome = COMPENSATED | COMPENSATED_CAPPED | NOOP
datatype reconcile_outcome = RECONCILED | RECONCILE_NOT_INITIALIZED
datatype reconcile_state_outcome = STATE_RECONCILED | STATE_NOT_INITIALIZED | OVERCOMMITTED
datatype reconcile_membership_outcome = PRESENT | ABSENT
datatype compare_restore_outcome = RESTORED | ALREADY_MATCHED | CONFLICT
datatype reservation_membership_outcome = BOTH | NEITHER | BUYER_ONLY | RESERVATION_ONLY

definition SEED_OUTCOMES :: "(string \<times> seed_outcome) list" where
  "SEED_OUTCOMES = [(''SEEDED'', SEEDED), (''ALREADY_SEEDED'', ALREADY_SEEDED),
     (''CONFIG_DRIFT'', CONFIG_DRIFT), (''STOCK_MISSING'', STOCK_MISSING)]"

definition COMPENSATE_OUTCOMES :: "(string \<times> compensate_outcome) list" where
  "COMPENSATE_OUTCOMES = [(''COMPENSATED'', COMPENSATED),
     (''COMPENSATED_CAPPED'', COMPENSATED_CAPPED), (''NOOP'', NOOP)]"

definition RECONCILE_OUTCOMES :: "(string \<times> reconcile_outcome) list" where
  "RECONCILE_OUTCOMES =
     [(''RECONCILED'', RECONCILED), (''NOT_INITIALIZED'', RECONCILE_NOT_INITIALIZED)]"

definition RECONCILE_STATE_OUTCOMES :: "(string \<times> reconcile_state_outcome) list" where
  "RECONCILE_STATE_OUTCOMES = [(''RECONCILED'', STATE_RECONCILED),
     (''NOT_INITIALIZED'', STATE_NOT_INITIALIZED), (''OVERCOMMITTED'', OVERCOMMITTED)]"

definition RECONCILE_MEMBERSHIP_OUTCOMES :: "(string \<times> reconcile_membership_outcome) list" where
  "RECONCILE_MEMBERSHIP_OUTCOMES = [(''PRESENT'', PRESENT), (''ABSENT'', ABSENT)]"

definition COMPARE_RESTORE_RESERVATION_OUTCOMES :: "(string \<times> compare_restore_outcome) list" where
  "COMPARE_RESTORE_RESERVATION_OUTCOMES = [(''RESTORED'', RESTORED),
     (''ALREADY_MATCHED'', ALREADY_MATCHED), (''CONFLICT'', CONFLICT)]"

definition RESERVATION_MEMBERSHIP_OUTCOMES :: "(string \<times> reservation_membership_outcome) list" where
  "RESERVATION_MEMBERSHIP_OUTCOMES = [(''BOTH'', BOTH), (''NEITHER'', NEITHER),
     (''BUYER_ONLY'', BUYER_ONLY), (''RESERVATION_ONLY'', RESERVATION_ONLY)]"

definition purchase_codes :: "(string \<times> purchase_outcome) list" where
  "purchase_codes = map (\<lambda>p. (purchase_outcome_text p, p)) PURCHASE_OUTCOMES"

lemmas outcome_tables = SEED_OUTCOMES_def COMPENSATE_OUTCOMES_def RECONCILE_OUTCOMES_def
  RECONCILE_STATE_OUTCOMES_def RECONCILE_MEMBERSHIP_OUTCOMES_def
  COMPARE_RESTORE_RESERVATION_OUTCOMES_def RESERVATION_MEMBERSHIP_OUTCOMES_def
  purchase_codes_def PURCHASE_OUTCOMES_def

text \<open>The code is checked against the frozen union; an unknown one throws.\<close>

definition assertMember :: "string \<Rightarrow> (string \<times> 'a) list \<Rightarrow> 'a result" where
  "assertMember value allowed =
     (case map_of allowed value of
        None \<Rightarrow> Inl (GenericError ''SaleRedisStore: unrecognised code from Lua'')
      | Some v \<Rightarrow> Inr v)"

record reservation_entry =
  e_userId :: string
  e_reservationId :: string
  e_reservedAtMs :: "int option"

definition malformed_ledger_value :: js_error where
  "malformed_ledger_value = GenericError ''SaleRedisStore: malformed reservation ledger value''"

definition parseReservationEntry :: "string \<Rightarrow> string \<Rightarrow> reservation_entry result" where
  "parseReservationEntry userId value =
     (case split_colon value of
        (reservationId, rest) \<Rightarrow>
          if (case rest of None \<Rightarrow> False | Some after \<Rightarrow> CHR '':'' \<in> set after)
          then Inl malformed_ledger_value
          else if \<not> UUID_PATTERN reservationId then Inl malformed_ledger_value
          else (case rest of
                  None \<Rightarrow> Inr \<lparr>e_userId = userId, e_reservationId = reservationId, e_reservedAtMs = None\<rparr>
                | Some timestampText \<Rightarrow>
                    (case parse_digits timestampText of
                       None \<Rightarrow> Inl malformed_ledger_value
                     | Some n \<Rightarrow>
                         if \<not> is_safe_integer (Fin (int n)) then Inl malformed_ledger_value
                         else Inr \<lparr>e_userId = userId, e_reservationId = reservationId,
                                   e_reservedAtMs = Some (int n)\<rparr>)))"

definition assertReservationMembershipUserId :: "string \<Rightarrow> unit result" where
  "assertReservationMembershipUserId userId =
     guard_error (\<not> valid_user_id userId) (TypeError ''Invalid reservation-membership userId'')"

record membership_inspection =
  mi_outcome :: reservation_membership_outcome
  mi_reservation :: "reservation_entry option"

text \<open>The reply is a pair of strings by the script's type; the shape checks of the decoder remain.\<close>

definition decodeReservationMembershipInspection ::
  "string \<Rightarrow> string \<times> string \<Rightarrow> membership_inspection result" where
  "decodeReservationMembershipInspection userId raw =
     (case raw of (rawOutcome, storedValue) \<Rightarrow>
       bind_result (assertMember rawOutcome RESERVATION_MEMBERSHIP_OUTCOMES) (\<lambda>outcome.
         let bearing = (outcome = BOTH \<or> outcome = RESERVATION_ONLY)
         in if bearing = (storedValue = [])
            then Inl (GenericError ''SaleRedisStore: malformed reservation-membership tuple from Lua'')
            else if bearing
            then bind_result (parseReservationEntry userId storedValue) (\<lambda>e.
                   Inr \<lparr>mi_outcome = outcome, mi_reservation = Some e\<rparr>)
            else Inr \<lparr>mi_outcome = outcome, mi_reservation = None\<rparr>))"

record compare_restore_input =
  cr_userId :: string
  cr_reservationId :: string
  cr_reservedAtMs :: int

definition COMPARE_RESTORE_INPUT_KEYS :: "string list" where
  "COMPARE_RESTORE_INPUT_KEYS = [''userId'', ''reservationId'', ''reservedAtMs'']"

definition assertCompareRestoreReservationInput :: "js_value \<Rightarrow> compare_restore_input result" where
  "assertCompareRestoreReservationInput input =
     (case own_keys input of
        None \<Rightarrow> Inl (TypeError ''Invalid compare-and-restore reservation input'')
      | Some keys \<Rightarrow>
          bind_result (guard_error (length keys \<noteq> length COMPARE_RESTORE_INPUT_KEYS
              \<or> list_ex (\<lambda>k. k \<notin> set COMPARE_RESTORE_INPUT_KEYS) keys)
            (TypeError ''Invalid compare-and-restore reservation input keys'')) (\<lambda>_.
          bind_result (case js_get input ''userId'' of
              JStr u \<Rightarrow> if valid_user_id u then Inr u
                        else Inl (TypeError ''Invalid compare-and-restore reservation userId'')
            | _ \<Rightarrow> Inl (TypeError ''Invalid compare-and-restore reservation userId'')) (\<lambda>userId.
          bind_result (case js_get input ''reservationId'' of
              JStr r \<Rightarrow> if UUID_PATTERN r then Inr r
                        else Inl (TypeError ''Invalid compare-and-restore reservation reservationId'')
            | _ \<Rightarrow> Inl (TypeError ''Invalid compare-and-restore reservation reservationId'')) (\<lambda>reservationId.
          bind_result (case js_get input ''reservedAtMs'' of
              JNum (Fin t) \<Rightarrow> if is_safe_integer (Fin t) \<and> 0 \<le> t then Inr t
                              else Inl (TypeError ''Invalid compare-and-restore reservation reservedAtMs'')
            | _ \<Rightarrow> Inl (TypeError ''Invalid compare-and-restore reservation reservedAtMs'')) (\<lambda>reservedAtMs.
            Inr \<lparr>cr_userId = userId, cr_reservationId = reservationId, cr_reservedAtMs = reservedAtMs\<rparr>)))))"

definition compare_restore_value :: "compare_restore_input \<Rightarrow> js_value" where
  "compare_restore_value i =
     JObj [(''userId'', JStr (cr_userId i)), (''reservationId'', JStr (cr_reservationId i)),
           (''reservedAtMs'', JNum (Fin (cr_reservedAtMs i)))]"

section \<open>SaleRedisStore\<close>

record sale_config_input =
  c_saleId :: string
  c_name :: string
  c_startsAt :: string
  c_endsAt :: string
  c_totalStock :: int
  c_stockRemaining :: "int option"

record seed_result =
  sr_outcome :: seed_outcome
  sr_stockRemaining :: int
  sr_totalStock :: int
  sr_startsAtMs :: int
  sr_endsAtMs :: int

text \<open>\<open>Date.parse\<close> is the argument \<open>date_parse\<close>: NaN for text that is not a date.\<close>

definition seed :: "(string \<Rightarrow> js_num) \<Rightarrow> sale_config_input \<Rightarrow> (redis_server, seed_result) io" where
  "seed date_parse config =
     io_bind (io_lift (assertSaleId (c_saleId config))) (\<lambda>_.
       case (date_parse (c_startsAt config), date_parse (c_endsAt config)) of
         (Fin starts, Fin ends) \<Rightarrow>
           if ends \<le> starts
           then io_throw (RangeError ''SaleRedisStore.seed: endsAt must be after startsAt'')
           else
             (let remaining = (case c_stockRemaining config of None \<Rightarrow> c_totalStock config
                                    | Some k \<Rightarrow> k)
              in io_bind (io_lift (saleKeys (c_saleId config))) (\<lambda>keys.
                 io_bind (runScript SEED_SCRIPT [k_config keys, k_stock keys] (c_saleId config)
                   (seed_lua (c_saleId config) (c_name config) (c_startsAt config) (c_endsAt config)
                     starts ends (c_totalStock config) remaining)) (\<lambda>raw.
                 io_bind (io_lift (assertMember (seed_code raw) SEED_OUTCOMES)) (\<lambda>outcome.
                   io_return \<lparr>sr_outcome = outcome, sr_stockRemaining = seed_stock raw,
                     sr_totalStock = seed_total raw, sr_startsAtMs = seed_starts raw,
                     sr_endsAtMs = seed_ends raw\<rparr>))))
       | _ \<Rightarrow> io_throw (RangeError ''SaleRedisStore.seed: unparseable ISO timestamp''))"

record purchase_result =
  pr_outcome :: purchase_outcome
  pr_stockRemaining :: int
  pr_serverTimeMs :: int
  pr_reservationId :: "string option"

text \<open>The identifier that \<open>randomUUID\<close> draws and the server's clock reading are arguments.\<close>

definition purchase :: "string \<Rightarrow> redis_time \<Rightarrow> string \<Rightarrow> string \<Rightarrow> (redis_server, purchase_result) io" where
  "purchase reservationId time saleId userId =
     io_bind (io_lift (assertSaleId saleId)) (\<lambda>_.
     io_bind (io_lift (saleKeys saleId)) (\<lambda>keys.
     io_bind (runScript PURCHASE_SCRIPT
         [k_config keys, k_stock keys, k_buyers keys, k_reservations keys] saleId
         (purchase_lua time userId reservationId)) (\<lambda>raw.
     io_bind (io_lift (assertMember (pur_code raw) purchase_codes)) (\<lambda>outcome.
       io_return \<lparr>pr_outcome = outcome, pr_stockRemaining = pur_stock raw,
         pr_serverTimeMs = pur_now raw,
         pr_reservationId = (if outcome = CONFIRMED then Some (pur_reservation raw) else None)\<rparr>))))"

record compensate_result =
  co_outcome :: compensate_outcome
  co_stockRemaining :: int

definition compensate :: "string \<Rightarrow> string \<Rightarrow> string \<Rightarrow> (redis_server, compensate_result) io" where
  "compensate saleId userId reservationId =
     io_bind (io_lift (assertSaleId saleId)) (\<lambda>_.
     io_bind (io_lift (saleKeys saleId)) (\<lambda>keys.
     io_bind (runScript COMPENSATE_SCRIPT
         [k_config keys, k_stock keys, k_buyers keys, k_reservations keys] saleId
         (compensate_lua userId reservationId)) (\<lambda>raw.
     io_bind (io_lift (assertMember (fst raw) COMPENSATE_OUTCOMES)) (\<lambda>outcome.
       io_return \<lparr>co_outcome = outcome, co_stockRemaining = snd raw\<rparr>))))"

record reconcile_result =
  re_outcome :: reconcile_outcome
  re_previousStock :: int
  re_newStock :: int

definition reconcileStock :: "string \<Rightarrow> int \<Rightarrow> (redis_server, reconcile_result) io" where
  "reconcileStock saleId remaining =
     io_bind (io_lift (assertSaleId saleId)) (\<lambda>_.
     io_bind (io_lift (saleKeys saleId)) (\<lambda>keys.
     io_bind (runScript RECONCILE_SCRIPT [k_config keys, k_stock keys] saleId
         (reconcile_lua remaining)) (\<lambda>raw.
     io_bind (io_lift (assertMember (fst raw) RECONCILE_OUTCOMES)) (\<lambda>outcome.
       io_return \<lparr>re_outcome = outcome, re_previousStock = fst (snd raw), re_newStock = snd (snd raw)\<rparr>))))"

record reconcile_state_result =
  rr_outcome :: reconcile_state_outcome
  rr_previousStock :: int
  rr_newStock :: int
  rr_reservationCount :: int
  rr_totalStock :: int

definition reconcileStockFromReservations :: "string \<Rightarrow> (redis_server, reconcile_state_result) io" where
  "reconcileStockFromReservations saleId =
     io_bind (io_lift (assertSaleId saleId)) (\<lambda>_.
     io_bind (io_lift (saleKeys saleId)) (\<lambda>keys.
     io_bind (runScript RECONCILE_STATE_SCRIPT [k_config keys, k_stock keys, k_reservations keys] saleId
         reconcile_state_lua) (\<lambda>raw.
     io_bind (io_lift (assertMember (rs_code raw) RECONCILE_STATE_OUTCOMES)) (\<lambda>outcome.
       io_return \<lparr>rr_outcome = outcome, rr_previousStock = rs_previous raw, rr_newStock = rs_new raw,
         rr_reservationCount = rs_count raw, rr_totalStock = rs_total raw\<rparr>))))"

definition getReservation :: "string \<Rightarrow> string \<Rightarrow> (redis_server, reservation_entry option) io" where
  "getReservation saleId userId =
     io_bind (io_lift (assertSaleId saleId)) (\<lambda>_.
     io_bind (io_lift (saleKeys saleId)) (\<lambda>keys.
     io_bind (redis_call (read_sale saleId (\<lambda>s. HGET (reservations_key s) userId))) (\<lambda>value.
       case value of
         None \<Rightarrow> io_return None
       | Some v \<Rightarrow> io_lift (bind_result (parseReservationEntry userId v) (\<lambda>e. Inr (Some e))))))"

definition inspectReservationMembership ::
  "string \<Rightarrow> string \<Rightarrow> (redis_server, membership_inspection) io" where
  "inspectReservationMembership saleId userId =
     io_bind (io_lift (assertSaleId saleId)) (\<lambda>_.
     io_bind (io_lift (assertReservationMembershipUserId userId)) (\<lambda>_.
     io_bind (io_lift (saleKeys saleId)) (\<lambda>keys.
     io_bind (runScript INSPECT_RESERVATION_MEMBERSHIP_SCRIPT [k_buyers keys, k_reservations keys] saleId
         (\<lambda>s. (inspect_membership_lua userId s, s))) (\<lambda>raw.
       io_lift (decodeReservationMembershipInspection userId raw)))))"

text \<open>\<open>SSCAN\<close> and \<open>HSCAN\<close> choose their pages themselves: the page function is an argument.\<close>

type_synonym 'a scan = "'a list \<Rightarrow> string \<Rightarrow> string \<times> 'a list"

definition scanBuyers :: "string scan \<Rightarrow> string \<Rightarrow> string \<Rightarrow> (redis_server, string \<times> string list) io" where
  "scanBuyers sscan saleId cursor =
     io_bind (io_lift (assertSaleId saleId)) (\<lambda>_.
     io_bind (io_lift (saleKeys saleId)) (\<lambda>keys.
       redis_call (read_sale saleId (\<lambda>s. sscan (buyers_key s) cursor))))"

definition reconcileBuyerMembership ::
  "string \<Rightarrow> string \<Rightarrow> (redis_server, reconcile_membership_outcome) io" where
  "reconcileBuyerMembership saleId userId =
     io_bind (io_lift (assertSaleId saleId)) (\<lambda>_.
     io_bind (io_lift (saleKeys saleId)) (\<lambda>keys.
     io_bind (runScript RECONCILE_MEMBERSHIP_SCRIPT [k_buyers keys, k_reservations keys] saleId
         (reconcile_membership_lua userId)) (\<lambda>raw.
       io_lift (assertMember raw RECONCILE_MEMBERSHIP_OUTCOMES))))"

definition compareAndRestoreReservation ::
  "string \<Rightarrow> js_value \<Rightarrow> (redis_server, compare_restore_outcome \<times> reservation_entry) io" where
  "compareAndRestoreReservation saleId rawInput =
     io_bind (io_lift (assertSaleId saleId)) (\<lambda>_.
     io_bind (io_lift (assertCompareRestoreReservationInput rawInput)) (\<lambda>input.
     io_bind (io_lift (saleKeys saleId)) (\<lambda>keys.
     io_bind (runScript COMPARE_RESTORE_RESERVATION_SCRIPT [k_buyers keys, k_reservations keys] saleId
         (compare_restore_lua (cr_userId input) (cr_reservationId input) (cr_reservedAtMs input))) (\<lambda>raw.
     io_bind (io_lift (assertMember (fst raw) COMPARE_RESTORE_RESERVATION_OUTCOMES)) (\<lambda>outcome.
     io_bind (io_lift (parseReservationEntry (cr_userId input) (snd raw))) (\<lambda>current.
       io_return (outcome, current)))))))"

fun parse_entries :: "(string \<times> string) list \<Rightarrow> reservation_entry list result" where
  "parse_entries [] = Inr []"
| "parse_entries ((userId, value) # rest) =
     bind_result (parseReservationEntry userId value) (\<lambda>e.
       bind_result (parse_entries rest) (\<lambda>es. Inr (e # es)))"

definition scanReservations ::
  "(string \<times> string) scan \<Rightarrow> string \<Rightarrow> string \<Rightarrow> (redis_server, string \<times> reservation_entry list) io" where
  "scanReservations hscan saleId cursor =
     io_bind (io_lift (assertSaleId saleId)) (\<lambda>_.
     io_bind (io_lift (saleKeys saleId)) (\<lambda>keys.
     io_bind (redis_call (read_sale saleId (\<lambda>s. hscan (reservations_key s) cursor))) (\<lambda>page.
     io_bind (io_lift (parse_entries (snd page))) (\<lambda>entries.
       io_return (fst page, entries)))))"

definition RESTORE_CHUNK_SIZE :: nat where "RESTORE_CHUNK_SIZE = 500"

text \<open>One pipelined chunk: \<open>SADD\<close> and \<open>HSET\<close> per entry, with \<open>Date.now()\<close> for a missing stamp.\<close>

fun restore_chunk :: "int \<Rightarrow> (string \<times> string \<times> int option) list \<Rightarrow> redis_sale \<Rightarrow> redis_sale" where
  "restore_chunk now [] s = s"
| "restore_chunk now ((userId, reservationId, at) # es) s =
     restore_chunk now es
       (s\<lparr>buyers_key := SADD userId (buyers_key s),
          reservations_key := HSET userId
            (reservationId @ '':'' @ dec_int (case at of None \<Rightarrow> now | Some t \<Rightarrow> t)) (reservations_key s)\<rparr>)"

function restore_chunks ::
  "int \<Rightarrow> string \<Rightarrow> (string \<times> string \<times> int option) list \<Rightarrow> (redis_server, unit) io" where
  "restore_chunks now saleId entries =
     (if entries = [] then io_return ()
      else io_bind (redis_call (on_sale saleId
             (\<lambda>s. ((), restore_chunk now (take RESTORE_CHUNK_SIZE entries) s))))
           (\<lambda>_. restore_chunks now saleId (drop RESTORE_CHUNK_SIZE entries)))"
  by pat_completeness auto
termination
  by (relation "measure (\<lambda>(_, _, es). length es)") (auto simp: RESTORE_CHUNK_SIZE_def)

declare restore_chunks.simps [simp del]

definition restoreReservations ::
  "int \<Rightarrow> string \<Rightarrow> (string \<times> string \<times> int option) list \<Rightarrow> (redis_server, unit) io" where
  "restoreReservations now saleId entries =
     io_bind (io_lift (assertSaleId saleId)) (\<lambda>_.
       if entries = [] then io_return ()
       else io_bind (io_lift (saleKeys saleId)) (\<lambda>keys. restore_chunks now saleId entries))"

record sale_snapshot =
  ss_initialized :: bool
  ss_saleId :: string
  ss_name :: "string option"
  ss_startsAt :: "string option"
  ss_endsAt :: "string option"
  ss_startsAtMs :: int
  ss_endsAtMs :: int
  ss_totalStock :: int
  ss_stockRemaining :: int
  ss_serverTimeMs :: int
  ss_state :: sale_state

text \<open>
  A \<open>nil\<close> in the reply of status.lua ends the array there, so that every later element is
  \<open>undefined\<close>; the state machine refuses an undefined bound.
\<close>

definition decode_status :: "string \<Rightarrow> status_reply \<Rightarrow> sale_snapshot result" where
  "decode_status saleId raw =
     (if \<not> st_initialized raw then
        Inr \<lparr>ss_initialized = False, ss_saleId = saleId, ss_name = Some [], ss_startsAt = Some [],
          ss_endsAt = Some [], ss_startsAtMs = 0, ss_endsAtMs = 0, ss_totalStock = 0,
          ss_stockRemaining = 0, ss_serverTimeMs = st_now raw, ss_state = Upcoming\<rparr>
      else
        (case (st_total raw, st_starts raw, st_ends raw) of
           (Some tot, Some starts, Some ends) \<Rightarrow>
             bind_result (deriveSaleState (sale_input (st_now raw) starts ends (st_stock raw))) (\<lambda>state.
               Inr \<lparr>ss_initialized = True, ss_saleId = saleId, ss_name = st_name raw,
                 ss_startsAt = st_startsAt raw, ss_endsAt = st_endsAt raw, ss_startsAtMs = starts,
                 ss_endsAtMs = ends, ss_totalStock = tot, ss_stockRemaining = st_stock raw,
                 ss_serverTimeMs = st_now raw, ss_state = state\<rparr>)
         | _ \<Rightarrow> Inl (RangeError ''sale-state: nowMs, startsAtMs and endsAtMs must all be finite numbers'')))"

definition status :: "redis_time \<Rightarrow> string \<Rightarrow> (redis_server, sale_snapshot) io" where
  "status time saleId =
     io_bind (io_lift (assertSaleId saleId)) (\<lambda>_.
     io_bind (io_lift (saleKeys saleId)) (\<lambda>keys.
     io_bind (runScript STATUS_SCRIPT [k_config keys, k_stock keys] saleId
         (\<lambda>s. (status_lua time s, s))) (\<lambda>raw.
       io_lift (decode_status saleId raw))))"

definition hasPurchased :: "string \<Rightarrow> string \<Rightarrow> (redis_server, bool) io" where
  "hasPurchased saleId userId =
     io_bind (io_lift (assertSaleId saleId)) (\<lambda>_.
     io_bind (io_lift (saleKeys saleId)) (\<lambda>keys.
       redis_call (read_sale saleId (\<lambda>s. SISMEMBER (buyers_key s) userId))))"

text \<open>\<open>HINCRBY\<close> refuses a field that does not hold an integer.\<close>

definition HINCRBY :: "string \<Rightarrow> string \<Rightarrow> int \<Rightarrow> (redis_server, int) io" where
  "HINCRBY saleId f by srv =
     (let s = sales srv saleId;
          old = (case HGET (metrics_key s) f of None \<Rightarrow> Some 0 | Some v \<Rightarrow> tonumber v)
      in case old of
           None \<Rightarrow> (Inl (GenericError ''ERR hash value is not an integer''), srv)
         | Some n \<Rightarrow> (Inr (n + by), srv\<lparr>sales := (sales srv)(saleId :=
             s\<lparr>metrics_key := HSET f (dec_int (n + by)) (metrics_key s)\<rparr>)\<rparr>))"

definition bumpMetric :: "string \<Rightarrow> attempt_outcome \<Rightarrow> (redis_server, unit) io" where
  "bumpMetric saleId outcome =
     io_catch
       (io_bind (io_lift (assertSaleId saleId)) (\<lambda>_.
        io_bind (io_lift (saleKeys saleId)) (\<lambda>keys.
        io_bind (redis_call (HINCRBY saleId (metric_field_text (OUTCOME_METRIC_FIELD outcome)) 1))
          (\<lambda>_. io_return ()))))
       (\<lambda>_. io_return ())"

definition readMetrics :: "string \<Rightarrow> (redis_server, (string \<times> js_num) list) io" where
  "readMetrics saleId =
     io_bind (io_lift (assertSaleId saleId)) (\<lambda>_.
     io_bind (io_lift (saleKeys saleId)) (\<lambda>keys.
     io_bind (redis_call (read_sale saleId metrics_key)) (\<lambda>raw.
       io_return (map (\<lambda>(f, v). (f, case tonumber v of None \<Rightarrow> NaN | Some n \<Rightarrow> Fin n)) raw))))"

definition ping :: "(redis_server, bool) io" where
  "ping = io_catch (redis_call (io_return True)) (\<lambda>_. io_return False)"

definition reset :: "string \<Rightarrow> (redis_server, unit) io" where
  "reset saleId =
     io_bind (io_lift (assertSaleId saleId)) (\<lambda>_.
     io_bind (io_lift (saleKeys saleId)) (\<lambda>keys.
       redis_call (on_sale saleId (\<lambda>_. ((), empty_sale)))))"

section \<open>Script execution\<close>

lemma noscript_errors:
  "isNoScriptError (GenericError ''NOSCRIPT No matching script. Please use EVAL.'')"
  "\<not> isNoScriptError connection_error"
  by (simp_all add: isNoScriptError_def connection_error_def)

definition ran_on :: "string \<Rightarrow> (redis_sale \<Rightarrow> 'a \<times> redis_sale) \<Rightarrow> redis_server \<Rightarrow> redis_server \<Rightarrow> bool" where
  "ran_on saleId body srv srv1 \<longleftrightarrow>
     sales srv1 = (sales srv)(saleId := snd (body (sales srv saleId)))"

lemma on_sale_result:
  "on_sale saleId body srv = (Inr (fst (body (sales srv saleId))),
     srv\<lparr>sales := (sales srv)(saleId := snd (body (sales srv saleId)))\<rparr>)"
  by (simp add: on_sale_def case_prod_unfold)

lemma redis_call_cases:
  obtains (delivered) ds where "redis_call cmd srv = cmd (srv\<lparr>link := ds\<rparr>)"
      "link srv = [] \<longrightarrow> ds = []"
    | (before) ds where "redis_call cmd srv = (Inl connection_error, srv\<lparr>link := ds\<rparr>)" "link srv \<noteq> []"
    | (after) ds where "redis_call cmd srv = (Inl connection_error, snd (cmd (srv\<lparr>link := ds\<rparr>)))"
      "link srv \<noteq> []"
proof (cases "link srv")
  case Nil
  then have "redis_call cmd srv = cmd (srv\<lparr>link := []\<rparr>)"
    by (cases srv) (simp add: redis_call_def)
  then show thesis by (rule that(1)) simp
next
  case (Cons d ds)
  then show thesis using that by (cases d) (simp_all add: redis_call_def)
qed

lemma EVAL_outcome:
  assumes "redis_call (EVAL script (on_sale saleId body)) srv = (r, srv1)"
  shows "(\<exists>e. r = Inl e \<and> sales srv1 = sales srv) \<or> (ran_on saleId body srv srv1 \<and>
     (r = Inr (fst (body (sales srv saleId))) \<or> r = Inl connection_error))"
    and "link srv = [] \<Longrightarrow> r = Inr (fst (body (sales srv saleId))) \<and> ran_on saleId body srv srv1
       \<and> link srv1 = [] \<and> script_name script \<in> set (script_cache srv1)"
  using assms
  by (cases rule: redis_call_cases [of "EVAL script (on_sale saleId body)" srv];
      auto simp: EVAL_def on_sale_result ran_on_def)+


definition sample_server :: redis_server where
  "sample_server = \<lparr>script_cache = [], sales = (\<lambda>_. sample_sale), link = []\<rparr>"


lemma runScript_delivered:
  assumes "length keys = numKeys script" and "link srv = []"
  obtains srv1 where "runScript script keys saleId body srv = (Inr (fst (body (sales srv saleId))), srv1)"
    and "ran_on saleId body srv srv1" and "link srv1 = []"
proof -
  have hit: "runScript script keys saleId body srv = on_sale saleId body srv"
    if "script_name script \<in> set (script_cache srv)"
    using that assms by (simp add: runScript_def io_catch_def redis_call_def EVALSHA_def on_sale_result)
  have miss: "runScript script keys saleId body srv = EVAL script (on_sale saleId body) srv"
    if "script_name script \<notin> set (script_cache srv)"
    using that assms noscript_errors(1)
    by (simp add: runScript_def io_catch_def redis_call_def EVALSHA_def)
  show thesis
    using that hit miss assms(2)
    by (cases "script_name script \<in> set (script_cache srv)")
      (auto simp: EVAL_def on_sale_result ran_on_def)
qed

section \<open>Ledger text\<close>

lemma lua_tostring_dec: "0 \<le> n \<Longrightarrow> n < 10 ^ 14 \<Longrightarrow> lua_tostring n = dec_nat (nat n)"
  by (simp add: lua_tostring_def)

lemma parse_ledger_value:
  assumes r: "UUID_PATTERN r" and n: "int n \<le> max_safe_integer"
  shows "parseReservationEntry u (ledger_value r (dec_nat n)) =
     Inr \<lparr>e_userId = u, e_reservationId = r, e_reservedAtMs = Some (int n)\<rparr>"
proof -
  have "CHR '':'' \<notin> set (dec_nat n)" using dec_nat_no_colon [of n] by (auto simp: list_all_iff)
  moreover have "split_colon (ledger_value r (dec_nat n)) = (r, Some (dec_nat n))"
    using split_colon_append [OF uuid_no_colon [OF r]] by (simp add: ledger_value_def)
  ultimately show ?thesis using r n by (simp add: parseReservationEntry_def)
qed

text \<open>
  C34: the ledger text round-trips. What the purchase script writes for a well-formed identifier and
  a clock reading before the year 5138 is what the store parses back; and nothing else parses to
  that entry's identifier and instant except spellings of the same decimal number.
\<close>

theorem ledger_entry_round_trip:
  assumes r: "UUID_PATTERN r" and n: "0 \<le> n" "n < 10 ^ 14"
  shows "parseReservationEntry u (ledger_value r (lua_tostring n)) =
       Inr \<lparr>e_userId = u, e_reservationId = r, e_reservedAtMs = Some n\<rparr>
     \<and> (\<forall>v. parseReservationEntry u v =
              Inr \<lparr>e_userId = u, e_reservationId = r, e_reservedAtMs = Some n\<rparr> \<longrightarrow>
            (\<exists>t. v = ledger_value r t \<and> parse_digits t = Some (nat n)))"
proof (intro conjI allI impI)
  show "parseReservationEntry u (ledger_value r (lua_tostring n)) =
      Inr \<lparr>e_userId = u, e_reservationId = r, e_reservedAtMs = Some n\<rparr>"
    using parse_ledger_value [OF r, of "nat n"] n lua_tostring_dec [OF n]
    by (simp add: max_safe_integer_def)
next
  fix v
  have split: "v = a @ CHR '':'' # b" if "split_colon v = (a, Some b)" for a b
    using that by (induction v arbitrary: a) (auto split: if_splits prod.splits)
  assume "parseReservationEntry u v = Inr \<lparr>e_userId = u, e_reservationId = r, e_reservedAtMs = Some n\<rparr>"
  then show "\<exists>t. v = ledger_value r t \<and> parse_digits t = Some (nat n)"
    using split by (auto simp: parseReservationEntry_def ledger_value_def
        split: prod.splits option.splits if_splits)
qed

theorem ledger_entry_round_trip_witness:
  "parseReservationEntry ''bob'' (ledger_value (sample_uuid CHR ''a'') (lua_tostring 1767225600000)) =
     Inr \<lparr>e_userId = ''bob'', e_reservationId = sample_uuid CHR ''a'', e_reservedAtMs = Some 1767225600000\<rparr>"
  by (rule ledger_entry_round_trip [THEN conjunct1]) (simp_all add: sample_uuids)

section \<open>The hot path through the store\<close>

lemma assertMember_purchase: "assertMember (purchase_outcome_text p) purchase_codes = Inr p"
  by (cases p) (simp_all add: assertMember_def outcome_tables)

lemma purchase_lua_code:
  "\<exists>p. pur_code (fst (purchase_lua t u r s)) = purchase_outcome_text p
     \<and> pur_reservation (fst (purchase_lua t u r s)) = (if p = CONFIRMED then r else [])"
proof (cases "\<exists>starts ends. tonumber_field (config_key s) ''startsAtMs'' = Some starts
    \<and> tonumber_field (config_key s) ''endsAtMs'' = Some ends")
  case False
  then have "fst (purchase_lua t u r s) = \<lparr>pur_code = ''NOT_INITIALIZED'', pur_stock = -1,
      pur_now = now_ms t, pur_reservation = []\<rparr>"
    by (auto simp: purchase_lua_def Let_def split: option.splits)
  then show ?thesis by (intro exI [of _ NOT_INITIALIZED]) simp
next
  case True
  then obtain starts ends where "tonumber_field (config_key s) ''startsAtMs'' = Some starts"
    and "tonumber_field (config_key s) ''endsAtMs'' = Some ends" by blast
  note unfold = purchase_lua_def Let_def this
  consider "now_ms t < starts" | "\<not> now_ms t < starts" "ends \<le> now_ms t"
    | "\<not> now_ms t < starts" "\<not> ends \<le> now_ms t"
      "SISMEMBER (buyers_key s) u \<or> HEXISTS (reservations_key s) u"
    | "\<not> now_ms t < starts" "\<not> ends \<le> now_ms t" "stock_of s \<le> 0"
      "\<not> (SISMEMBER (buyers_key s) u \<or> HEXISTS (reservations_key s) u)"
    | "\<not> now_ms t < starts" "\<not> ends \<le> now_ms t" "\<not> stock_of s \<le> 0"
      "\<not> (SISMEMBER (buyers_key s) u \<or> HEXISTS (reservations_key s) u)" by blast
  then show ?thesis
  proof cases
    case 1 then show ?thesis by (intro exI [of _ SALE_NOT_STARTED]) (simp add: unfold)
  next
    case 2 then show ?thesis by (intro exI [of _ SALE_ENDED]) (simp add: unfold)
  next
    case 3 then show ?thesis by (intro exI [of _ ALREADY_PURCHASED]) (simp add: unfold)
  next
    case 4 then show ?thesis by (intro exI [of _ SOLD_OUT]) (simp add: unfold stock_of_def)
  next
    case 5 then show ?thesis by (intro exI [of _ CONFIRMED]) (simp add: unfold stock_of_def)
  qed
qed

lemma store_purchase_delivered:
  assumes id: "SALE_ID_PATTERN saleId" and up: "link srv = []"
  shows "\<exists>res srv1. purchase r t saleId u srv = (Inr res, srv1)
     \<and> purchase_outcome_text (pr_outcome res) = pur_code (fst (purchase_lua t u r (sales srv saleId)))
     \<and> pr_serverTimeMs res = pur_now (fst (purchase_lua t u r (sales srv saleId)))
     \<and> pr_stockRemaining res = pur_stock (fst (purchase_lua t u r (sales srv saleId)))
     \<and> pr_reservationId res = (if pr_outcome res = CONFIRMED then Some r else None)
     \<and> sales srv1 = (sales srv)(saleId := snd (purchase_lua t u r (sales srv saleId)))"
proof -
  obtain k where k: "saleKeys saleId = Inr k" using saleKeys_valid [OF id] by blast
  let ?rep = "fst (purchase_lua t u r (sales srv saleId))"
  obtain p where p: "pur_code ?rep = purchase_outcome_text p"
    and rid: "pur_reservation ?rep = (if p = CONFIRMED then r else [])"
    using purchase_lua_code by blast
  have four: "length [k_config k, k_stock k, k_buyers k, k_reservations k] = numKeys PURCHASE_SCRIPT"
    by (simp add: registry_defs)
  obtain srv1 where run: "runScript PURCHASE_SCRIPT [k_config k, k_stock k, k_buyers k, k_reservations k]
      saleId (purchase_lua t u r) srv = (Inr ?rep, srv1)" and ran: "ran_on saleId (purchase_lua t u r) srv srv1"
    by (rule runScript_delivered [OF four up, of saleId "purchase_lua t u r"])
  have "purchase r t saleId u srv = (Inr \<lparr>pr_outcome = p, pr_stockRemaining = pur_stock ?rep,
      pr_serverTimeMs = pur_now ?rep, pr_reservationId = (if p = CONFIRMED then Some r else None)\<rparr>, srv1)"
    using id k run p rid by (simp add: purchase_def assertMember_purchase)
  with ran p show ?thesis by (simp add: ran_on_def)
qed

text \<open>
  The store's purchase is the script's decision, decoded. On a valid sale identifier with a
  delivering link the call returns (it never throws), its outcome is the code of the script, the
  reservation identifier is present exactly when the purchase is confirmed and is the one drawn
  for this call, and only this sale's keys change, to the script's result.
\<close>

lemma store_purchase_decodes:
  assumes id: "SALE_ID_PATTERN saleId" and up: "link srv = []"
  shows "\<exists>res srv1. purchase r t saleId u srv = (Inr res, srv1)
     \<and> purchase_outcome_text (pr_outcome res) = pur_code (fst (purchase_lua t u r (sales srv saleId)))
     \<and> pr_serverTimeMs res = pur_now (fst (purchase_lua t u r (sales srv saleId)))
     \<and> pr_stockRemaining res = pur_stock (fst (purchase_lua t u r (sales srv saleId)))
     \<and> pr_reservationId res = (if pr_outcome res = CONFIRMED then Some r else None)
     \<and> sales srv1 = (sales srv)(saleId := snd (purchase_lua t u r (sales srv saleId)))"
  using assms by (rule store_purchase_delivered)

text \<open>
  C28: one clock judges both. On a consistent sale the state that the status reports and the answer
  that a first purchase gets at the same clock reading agree: upcoming is \<open>SALE_NOT_STARTED\<close>, ended
  is \<open>SALE_ENDED\<close>, sold out is \<open>SOLD_OUT\<close>, and active is a confirmation.
\<close>

theorem status_agrees_with_purchase:
  assumes id: "SALE_ID_PATTERN saleId" and up: "link srv = []"
    and inv: "sale_inv starts ends tot (sales srv saleId)" and new: "u \<notin> ledger_users (sales srv saleId)"
  shows "\<exists>snap srv1 res srv2. status t saleId srv = (Inr snap, srv1) \<and> sales srv1 = sales srv
     \<and> purchase r t saleId u srv1 = (Inr res, srv2)
     \<and> ss_initialized snap \<and> ss_stockRemaining snap = stock_of (sales srv saleId)
     \<and> pr_outcome res = (case ss_state snap of Upcoming \<Rightarrow> SALE_NOT_STARTED | Ended \<Rightarrow> SALE_ENDED
                         | Sold_out \<Rightarrow> SOLD_OUT | Active \<Rightarrow> CONFIRMED)"
proof -
  let ?s = "sales srv saleId"
  note f = sale_inv_facts [OF inv]
  note c = seeded_fields [OF f(1)]
  obtain k where k: "saleKeys saleId = Inr k" using saleKeys_valid [OF id] by blast
  have two: "length [k_config k, k_stock k] = numKeys STATUS_SCRIPT" by (simp add: registry_defs)
  obtain srv1 where run: "runScript STATUS_SCRIPT [k_config k, k_stock k] saleId (\<lambda>s. (status_lua t s, s)) srv
      = (Inr (fst (status_lua t ?s, ?s)), srv1)"
    and ran: "ran_on saleId (\<lambda>s. (status_lua t s, s)) srv srv1" and up1: "link srv1 = []"
    by (rule runScript_delivered [OF two up, of saleId "\<lambda>s. (status_lua t s, s)"])
  have same: "sales srv1 = sales srv" using ran by (simp add: ran_on_def)
  have raw: "st_initialized (status_lua t ?s)" "st_now (status_lua t ?s) = now_ms t"
    "st_stock (status_lua t ?s) = stock_of ?s" "st_total (status_lua t ?s) = Some tot"
    "st_starts (status_lua t ?s) = Some starts" "st_ends (status_lua t ?s) = Some ends"
    using c(1-3) f(1,5) by (simp_all add: status_lua_def Let_def seeded_def or_minus_one_def)
  obtain snap where snap: "status t saleId srv = (Inr snap, srv1)" "ss_initialized snap"
    "ss_stockRemaining snap = stock_of ?s"
    "ss_state snap = (if now_ms t < starts then Upcoming else if ends \<le> now_ms t then Ended
       else if stock_of ?s \<le> 0 then Sold_out else Active)"
    using id k run raw c(4) by (simp add: status_def decode_status_def deriveSaleState_Fin)
  obtain res srv2 where res: "purchase r t saleId u srv1 = (Inr res, srv2)"
    "purchase_outcome_text (pr_outcome res) = fst (redis_step (Purchase t u r) ?s)"
    using store_purchase_delivered [OF id up1, of r t u] by (auto simp: same case_prod_unfold)
  note res(2) [simp del] redis_step.simps [simp del]
  have out: "pr_outcome res = p" if "fst (redis_step (Purchase t u r) ?s) = purchase_outcome_text p" for p
    using res(2) that by simp
  have "pr_outcome res = (case ss_state snap of Upcoming \<Rightarrow> SALE_NOT_STARTED | Ended \<Rightarrow> SALE_ENDED
      | Sold_out \<Rightarrow> SOLD_OUT | Active \<Rightarrow> CONFIRMED)"
    using f(1)
  proof (cases rule: purchase_lua_cases [where t = t and u = u and r = r])
    case duplicate
    then show ?thesis using new f(4) by simp
  qed (use snap(4) c(4) in \<open>simp_all add: out\<close>)
  with snap res same show ?thesis by blast
qed

lemma sample_server_facts:
  "SALE_ID_PATTERN ''flash-2026''" "link sample_server = []"
  "sales sample_server saleId = sample_sale" "sale_inv 1000 9000 1 sample_sale"
  "ledger_users sample_sale = {}" "stock_of sample_sale = 1"
proof -
  show "SALE_ID_PATTERN ''flash-2026''" by code_simp
qed (simp_all add: sample_server_def sample_sale_def fresh_sale_inv fresh_sale_users,
    simp add: fresh_sale_def seed_lua_def empty_sale_def stock_of_def Let_def)

theorem status_agrees_with_purchase_witness:
  "\<exists>snap srv1 res srv2. status (2, 0) ''flash-2026'' sample_server = (Inr snap, srv1)
     \<and> purchase (sample_uuid CHR ''a'') (2, 0) ''flash-2026'' ''bob'' srv1 = (Inr res, srv2)
     \<and> ss_stockRemaining snap = 1
     \<and> pr_outcome res = (case ss_state snap of Upcoming \<Rightarrow> SALE_NOT_STARTED | Ended \<Rightarrow> SALE_ENDED
                         | Sold_out \<Rightarrow> SOLD_OUT | Active \<Rightarrow> CONFIRMED)"
  using status_agrees_with_purchase [OF sample_server_facts(1,2), of 1000 9000 1 "''bob''" "(2, 0)"
      "sample_uuid CHR ''a''"] sample_server_facts
  by (simp del: sample_sale_def) blast

section \<open>Bulk restoration and metrics\<close>

lemma restore_chunk_append: "restore_chunk now (xs @ ys) s = restore_chunk now ys (restore_chunk now xs s)"
  by (induction now xs s rule: restore_chunk.induct) simp_all

lemma restore_chunks_delivered:
  "link srv = [] \<Longrightarrow> restore_chunks now saleId es srv =
     (Inr (), srv\<lparr>sales := (sales srv)(saleId := restore_chunk now es (sales srv saleId))\<rparr>)"
proof (induction now saleId es arbitrary: srv rule: restore_chunks.induct)
  case (1 now saleId es)
  show ?case
  proof (cases "es = []")
    case True
    then show ?thesis by (simp add: restore_chunks.simps)
  next
    case False
    let ?srv = "srv\<lparr>sales := (sales srv)(saleId :=
      restore_chunk now (take RESTORE_CHUNK_SIZE es) (sales srv saleId))\<rparr>"
    have "restore_chunks now saleId es srv = restore_chunks now saleId (drop RESTORE_CHUNK_SIZE es) ?srv"
      using False 1(2) by (subst restore_chunks.simps) (simp add: redis_call_def on_sale_result io_bind_def)
    also have "\<dots> = (Inr (), ?srv\<lparr>sales := (sales ?srv)(saleId :=
        restore_chunk now (drop RESTORE_CHUNK_SIZE es) (sales ?srv saleId))\<rparr>)"
      by (rule 1(1) [OF False]) (simp add: 1(2))
    also have "\<dots> = (Inr (), srv\<lparr>sales := (sales srv)(saleId := restore_chunk now es (sales srv saleId))\<rparr>)"
      using restore_chunk_append [of now "take RESTORE_CHUNK_SIZE es" "drop RESTORE_CHUNK_SIZE es"
          "sales srv saleId"] by (cases srv) (auto simp: fun_eq_iff)
    finally show ?thesis .
  qed
qed

definition restored_value :: "int \<Rightarrow> string \<times> string \<times> int option \<Rightarrow> string \<times> string" where
  "restored_value now e = (case e of (u, r, at) \<Rightarrow>
     (u, ledger_value r (dec_int (case at of None \<Rightarrow> now | Some t \<Rightarrow> t))))"

lemma restore_chunk_effect:
  "distinct (map fst es) \<Longrightarrow>
   HGET (reservations_key (restore_chunk now es s)) u =
     (case map_of (map (restored_value now) es) u of None \<Rightarrow> HGET (reservations_key s) u | Some v \<Rightarrow> Some v)
   \<and> set (buyers_key (restore_chunk now es s)) = set (buyers_key s) \<union> fst ` set es
   \<and> stock_key (restore_chunk now es s) = stock_key s"
proof (induction now es s rule: restore_chunk.induct)
  case (2 now w r at es s)
  have "map_of (map (restored_value now) es) w = None" using 2(2)
    by (force simp: map_of_eq_None_iff restored_value_def split: prod.splits)
  moreover have "restored_value now (w, r, at) =
      (w, r @ '':'' @ dec_int (case at of None \<Rightarrow> now | Some t \<Rightarrow> t))"
    by (simp add: restored_value_def ledger_value_def)
  ultimately show ?case using 2 by (auto simp: redis_simps split: option.splits)
qed simp

text \<open>
  Bulk restoration in pipelined chunks is the same as restoring the entries one by one. With a
  delivering link the call returns, each listed user is a buyer and has the listed ledger entry
  (with the restore instant where none was recorded), every other entry is as before, and neither
  the stock nor another sale changes.
\<close>

lemma restoreReservations_complete:
  assumes id: "SALE_ID_PATTERN saleId" and up: "link srv = []" and users: "distinct (map fst es)"
  shows "\<exists>srv1. restoreReservations now saleId es srv = (Inr (), srv1)
     \<and> (\<forall>other. other \<noteq> saleId \<longrightarrow> sales srv1 other = sales srv other)
     \<and> (\<forall>u. HGET (reservations_key (sales srv1 saleId)) u =
          (case map_of (map (restored_value now) es) u of
             None \<Rightarrow> HGET (reservations_key (sales srv saleId)) u | Some v \<Rightarrow> Some v))
     \<and> set (buyers_key (sales srv1 saleId)) = set (buyers_key (sales srv saleId)) \<union> fst ` set es
     \<and> stock_key (sales srv1 saleId) = stock_key (sales srv saleId)"
proof -
  obtain k where k: "saleKeys saleId = Inr k" using saleKeys_valid [OF id] by blast
  let ?srv = "srv\<lparr>sales := (sales srv)(saleId := restore_chunk now es (sales srv saleId))\<rparr>"
  have "restoreReservations now saleId es srv = (Inr (), ?srv)"
    using id k restore_chunks_delivered [OF up, of now saleId es]
    by (simp add: restoreReservations_def)
  with restore_chunk_effect [OF users, of now "sales srv saleId"] show ?thesis by simp
qed

text \<open>
  Counting is fire and forget. Recording a metric never throws, on any sale identifier and any
  link; it changes no key of any sale but the metrics hash of the one it names, so it can never
  affect a purchase.
\<close>

lemma bumpMetric_harmless:
  "fst (bumpMetric saleId out srv) = Inr ()
   \<and> config_key (sales (snd (bumpMetric saleId out srv)) i) = config_key (sales srv i)
   \<and> stock_key (sales (snd (bumpMetric saleId out srv)) i) = stock_key (sales srv i)
   \<and> buyers_key (sales (snd (bumpMetric saleId out srv)) i) = buyers_key (sales srv i)
   \<and> reservations_key (sales (snd (bumpMetric saleId out srv)) i) = reservations_key (sales srv i)"
proof (cases "SALE_ID_PATTERN saleId")
  case False
  then show ?thesis by (simp add: bumpMetric_def)
next
  case True
  then obtain k where k: "saleKeys saleId = Inr k" using saleKeys_valid by blast
  let ?cmd = "HINCRBY saleId (metric_field_text (OUTCOME_METRIC_FIELD out)) 1"
  have cmd: "config_key (sales (snd (?cmd v)) i) = config_key (sales v i)
    \<and> stock_key (sales (snd (?cmd v)) i) = stock_key (sales v i)
    \<and> buyers_key (sales (snd (?cmd v)) i) = buyers_key (sales v i)
    \<and> reservations_key (sales (snd (?cmd v)) i) = reservations_key (sales v i)" for v
    by (simp add: HINCRBY_def Let_def split: option.splits)
  have eq: "snd (bumpMetric saleId out srv) = snd (redis_call ?cmd srv)"
    "fst (bumpMetric saleId out srv) = Inr ()"
    using True k by (simp_all add: bumpMetric_def io_catch_def io_bind_def split: prod.splits sum.splits)
  show ?thesis unfolding eq
    by (cases rule: redis_call_cases [of ?cmd srv]) (simp_all add: cmd)
qed

text \<open>The keys that decide a sale: all but the metrics.\<close>

definition books :: "redis_sale \<Rightarrow> redis_hash \<times> int option \<times> string list \<times> redis_hash" where
  "books s = (config_key s, stock_key s, buyers_key s, reservations_key s)"

lemma bumpMetric_books:
  "fst (bumpMetric saleId out srv) = Inr ()" "books (sales (snd (bumpMetric saleId out srv)) i) = books (sales srv i)"
  using bumpMetric_harmless [of saleId out srv i] by (simp_all add: books_def)

lemma store_compensate_delivered:
  assumes id: "SALE_ID_PATTERN saleId" and up: "link srv = []"
  obtains c srv1 where "compensate saleId u r srv = (Inr c, srv1)"
    and "sales srv1 = (sales srv)(saleId := snd (compensate_lua u r (sales srv saleId)))"
    and "link srv1 = []"
proof -
  obtain k where k: "saleKeys saleId = Inr k" using saleKeys_valid [OF id] by blast
  have four: "length [k_config k, k_stock k, k_buyers k, k_reservations k] = numKeys COMPENSATE_SCRIPT"
    by (simp add: registry_defs)
  obtain srv1 where run: "runScript COMPENSATE_SCRIPT [k_config k, k_stock k, k_buyers k, k_reservations k]
      saleId (compensate_lua u r) srv = (Inr (fst (compensate_lua u r (sales srv saleId))), srv1)"
    and ran: "ran_on saleId (compensate_lua u r) srv srv1" and up1: "link srv1 = []"
    by (rule runScript_delivered [OF four up, of saleId "compensate_lua u r"])
  have "\<exists>c. assertMember (fst (fst (compensate_lua u r (sales srv saleId)))) COMPENSATE_OUTCOMES = Inr c"
    by (rule compensate_lua_cases [of "sales srv saleId" u r])
      (simp_all add: assertMember_def outcome_tables)
  then obtain c where "assertMember (fst (fst (compensate_lua u r (sales srv saleId)))) COMPENSATE_OUTCOMES = Inr c"
    by blast
  with id k run have "compensate saleId u r srv =
      (Inr \<lparr>co_outcome = c, co_stockRemaining = snd (fst (compensate_lua u r (sales srv saleId)))\<rparr>, srv1)"
    by (simp add: compensate_def)
  with ran up1 show thesis by (intro that) (simp_all add: ran_on_def)
qed

lemma compensated_ledger_id: "ledger_id (snd (compensate_lua u r s)) u \<noteq> Some r"
  by (rule compensate_lua_cases [of s u r]) (simp_all add: ledger_id_def redis_simps)

end
