(* ===== verification/Orders_Repository.thy ===== *)
theory Orders_Repository
  imports Sale_Store
begin

text \<open>
  The durable half: the tables of infra/postgres/init/001_schema.sql with their constraints, and
  apps/worker/src/orders/order.repository.ts over them. Each repository method is one transaction
  and so one step; the advisory lock on the reservation and the row lock serialise the two methods
  that write one order. The world of a worker is the Redis server, the tables and the queue.
\<close>

section \<open>Tables and constraints\<close>

record sale_row =
  sl_id :: string
  sl_name :: string
  sl_total_stock :: int
  sl_starts_ms :: int
  sl_ends_ms :: int

record order_row =
  or_id :: string
  or_user_id :: string
  or_sale_id :: string
  or_status :: order_status
  or_created_at_ms :: int
  or_persisted_at :: "int option"
  or_request_id :: string

text \<open>
  What can go wrong with the next transaction: no connection, a failed \<open>COMMIT\<close> (rolled back), or a
  \<open>COMMIT\<close> that succeeded but whose reply was lost.
\<close>

datatype tx_fate = Tx_ok | Tx_refused | Tx_commit_failed | Tx_commit_unknown

record pg =
  pg_sales :: "sale_row list"
  pg_orders :: "order_row list"
  pg_fates :: "tx_fate list"

record 'q world =
  w_redis :: redis_server
  w_pg :: pg
  w_queue :: 'q

definition on_redis :: "(redis_server, 'a) io \<Rightarrow> ('q world, 'a) io" where
  "on_redis = io_part w_redis (\<lambda>s w. w\<lparr>w_redis := s\<rparr>)"

text \<open>A \<open>uuid\<close> column holds the value, whose text form is lower case.\<close>

definition lower_char :: "char \<Rightarrow> char" where
  "lower_char c = (if is_upper c then char_of (of_char c + 32 :: nat) else c)"

definition uuid_text :: "string \<Rightarrow> string" where
  "uuid_text = map lower_char"

definition orders_checks :: "order_row \<Rightarrow> bool" where
  "orders_checks r \<longleftrightarrow>
     3 \<le> length (or_user_id r) \<and> length (or_user_id r) \<le> 64
     \<and> 1 \<le> length (or_request_id r) \<and> length (or_request_id r) \<le> 128
     \<and> (if or_status r = Persisted then or_persisted_at r \<noteq> None else or_persisted_at r = None)"

definition constraint_violation :: "string \<Rightarrow> js_error" where
  "constraint_violation name = DatabaseError name"

definition find_user :: "string \<Rightarrow> order_row list \<Rightarrow> order_row option" where
  "find_user u rows = find (\<lambda>r. or_user_id r = u) rows"

text \<open>
  \<open>INSERT INTO orders\<close>: row checks first, then the unique indexes, then the foreign key. With
  \<open>ON CONFLICT (user_id) DO NOTHING\<close> a row of the same user yields no row instead of an error.
\<close>

definition insert_order :: "bool \<Rightarrow> order_row \<Rightarrow> pg \<Rightarrow> (bool \<times> pg) result" where
  "insert_order do_nothing r db =
     (if \<not> orders_checks r then Inl (constraint_violation ''orders check constraint'')
      else if find_user (or_user_id r) (pg_orders db) \<noteq> None then
        (if do_nothing then Inr (False, db)
         else Inl (constraint_violation ''orders_user_id_uniq''))
      else if or_id r \<in> or_id ` set (pg_orders db) then Inl (constraint_violation ''orders_pkey'')
      else if or_sale_id r \<notin> sl_id ` set (pg_sales db)
      then Inl (constraint_violation ''orders_sale_id_fkey'')
      else Inr (True, db\<lparr>pg_orders := pg_orders db @ [r]\<rparr>))"

text \<open>\<open>UPDATE orders SET ... WHERE user_id = u AND id = i AND status = 'compensated'\<close>, with its row count.\<close>

definition update_compensated ::
  "string \<Rightarrow> string \<Rightarrow> (order_row \<Rightarrow> order_row) \<Rightarrow> pg \<Rightarrow> (nat \<times> pg) result" where
  "update_compensated u i f db =
     (let hit = (\<lambda>r. or_user_id r = u \<and> or_id r = i \<and> or_status r = Compensated);
          rows = map (\<lambda>r. if hit r then f r else r) (pg_orders db)
      in if \<not> list_all orders_checks rows then Inl (constraint_violation ''orders check constraint'')
         else if \<not> distinct (map or_id rows) then Inl (constraint_violation ''orders_pkey'')
         else if \<not> list_all (\<lambda>r. or_sale_id r \<in> sl_id ` set (pg_sales db)) rows
         then Inl (constraint_violation ''orders_sale_id_fkey'')
         else Inr (length (filter hit (pg_orders db)), db\<lparr>pg_orders := rows\<rparr>))"

definition on_pg :: "(pg \<Rightarrow> ('a \<times> pg) result) \<Rightarrow> ('q world, 'a) io" where
  "on_pg stmt w = (case stmt (w_pg w) of Inl e \<Rightarrow> (Inl e, w) | Inr (x, db) \<Rightarrow> (Inr x, w\<lparr>w_pg := db\<rparr>))"

section \<open>Transactions\<close>

definition pop_fate :: "pg \<Rightarrow> tx_fate \<times> pg" where
  "pop_fate db = (case pg_fates db of [] \<Rightarrow> (Tx_ok, db) | f # fs \<Rightarrow> (f, db\<lparr>pg_fates := fs\<rparr>))"

definition rolled_back :: "pg \<Rightarrow> 'q world \<Rightarrow> 'q world" where
  "rolled_back db w = w\<lparr>w_pg := (w_pg w)\<lparr>pg_sales := pg_sales db, pg_orders := pg_orders db\<rparr>\<rparr>"

definition transaction :: "('q world, 'a) io \<Rightarrow> ('q world, 'a) io" where
  "transaction work w =
     (case pop_fate (w_pg w) of (fate, db) \<Rightarrow>
       let w0 = w\<lparr>w_pg := db\<rparr>
       in if fate = Tx_refused then (Inl (DatabaseError ''connection refused''), w0)
          else (case work w0 of
                  (Inl e, w1) \<Rightarrow> (Inl e, rolled_back db w1)
                | (Inr x, w1) \<Rightarrow>
                    (case fate of
                       Tx_commit_failed \<Rightarrow> (Inl (DatabaseError ''commit failed''), rolled_back db w1)
                     | Tx_commit_unknown \<Rightarrow> (Inl (DatabaseError ''connection terminated''), w1)
                     | _ \<Rightarrow> (Inr x, w1))))"

section \<open>OrderRepository\<close>

record worker_env =
  SALE_ID :: string
  SALE_NAME :: string
  SALE_TOTAL_STOCK :: int
  SALE_STARTS_AT :: string
  SALE_ENDS_AT :: string
  RECONCILE_SCAN_COUNT :: nat
  DLQ_SCAN_COUNT :: nat

text \<open>
  \<open>ensureSale\<close>: an insert that keeps an existing row, then a comparison of the row with the
  environment. \<open>date_parse\<close> is \<open>Date.parse\<close> and the server's own reading of a timestamp.
\<close>

definition ensureSale :: "(string \<Rightarrow> js_num) \<Rightarrow> worker_env \<Rightarrow> pg \<Rightarrow> (unit \<times> pg) result" where
  "ensureSale date_parse env db =
     (case (date_parse (SALE_STARTS_AT env), date_parse (SALE_ENDS_AT env)) of
        (Fin starts, Fin ends) \<Rightarrow>
          let row = \<lparr>sl_id = SALE_ID env, sl_name = SALE_NAME env, sl_total_stock = SALE_TOTAL_STOCK env,
                     sl_starts_ms = starts, sl_ends_ms = ends\<rparr>
          in if SALE_TOTAL_STOCK env < - 2147483648 \<or> 2147483647 < SALE_TOTAL_STOCK env
             then Inl (constraint_violation ''integer out of range'')
             else if SALE_TOTAL_STOCK env < 0 \<or> ends \<le> starts
             then Inl (constraint_violation ''sales check constraint'')
             else
               (let db1 = (if SALE_ID env \<in> sl_id ` set (pg_sales db) then db
                           else db\<lparr>pg_sales := pg_sales db @ [row]\<rparr>)
                in case find (\<lambda>r. sl_id r = SALE_ID env) (pg_sales db1) of
                     None \<Rightarrow> Inl (GenericError ''sale configuration drift'')
                   | Some r \<Rightarrow>
                       if sl_name r \<noteq> SALE_NAME env \<or> sl_total_stock r \<noteq> SALE_TOTAL_STOCK env
                          \<or> sl_starts_ms r \<noteq> starts \<or> sl_ends_ms r \<noteq> ends
                       then Inl (GenericError ''sale configuration drift'')
                       else Inr ((), db1))
      | _ \<Rightarrow> Inl (constraint_violation ''invalid input syntax for type timestamp''))"

datatype persist_result = P_persisted | P_idempotent | P_compensated
datatype resolve_failed_result = R_persisted | R_compensated | R_compensation_noop

text \<open>The row that a payload becomes. \<open>now\<close> is \<open>clock_timestamp()\<close>.\<close>

definition persisted_row :: "int \<Rightarrow> orders_payload \<Rightarrow> order_row" where
  "persisted_row now p =
     \<lparr>or_id = uuid_text (p_reservationId p), or_user_id = p_userId p, or_sale_id = p_saleId p,
      or_status = Persisted, or_created_at_ms = p_reservedAtMs p, or_persisted_at = Some now,
      or_request_id = p_requestId p\<rparr>"

definition compensated_row :: "orders_payload \<Rightarrow> order_row" where
  "compensated_row p =
     \<lparr>or_id = uuid_text (p_reservationId p), or_user_id = p_userId p, or_sale_id = p_saleId p,
      or_status = Compensated, or_created_at_ms = p_reservedAtMs p, or_persisted_at = None,
      or_request_id = p_requestId p\<rparr>"

definition selectUserForUpdate :: "string \<Rightarrow> ('q world, (string \<times> order_status) option) io" where
  "selectUserForUpdate u = on_pg (\<lambda>db.
     Inr (map_option (\<lambda>r. (or_id r, or_status r)) (find_user u (pg_orders db)), db))"

definition persist_tx :: "int \<Rightarrow> orders_payload \<Rightarrow> ('q world, persist_result) io" where
  "persist_tx now payload =
        io_bind (on_pg (insert_order True (persisted_row now payload))) (\<lambda>inserted.
          if inserted then io_return P_persisted
          else io_bind (selectUserForUpdate (p_userId payload)) (\<lambda>current.
            case current of
              None \<Rightarrow> io_throw (GenericError ''order conflict produced no user row'')
            | Some (curId, curStatus) \<Rightarrow>
                if curId = p_reservationId payload
                then io_return (if curStatus = Persisted then P_idempotent else P_compensated)
                else if curStatus = Persisted
                then io_throw (PersistenceConflictError ''permanent persistence conflict'')
                else io_bind (on_redis (getReservation (p_saleId payload) (p_userId payload))) (\<lambda>ledger.
                  if map_option e_reservationId ledger \<noteq> Some (p_reservationId payload)
                  then io_throw (GenericError ''current reservation identity mismatch'')
                  else io_bind (on_pg (update_compensated (p_userId payload) curId
                         (\<lambda>_. persisted_row now payload))) (\<lambda>count.
                    if count \<noteq> 1
                    then io_throw (GenericError ''guarded compensated-order promotion affected unexpected row count'')
                    else io_return P_persisted))))"

definition persist :: "int \<Rightarrow> orders_payload \<Rightarrow> ('q world, persist_result) io" where
  "persist now payload = transaction (persist_tx now payload)"

text \<open>
  \<open>resolveFailed\<close>, with the compensation as a callback. Its three outcomes are the whole union, so
  the test for an unexpected one has no counterpart.
\<close>

definition resolve_tx ::
  "orders_payload \<Rightarrow> ('q world, compensate_result) io \<Rightarrow> ('q world, resolve_failed_result \<times> bool) io" where
  "resolve_tx payload undo =
          io_bind (selectUserForUpdate (p_userId payload)) (\<lambda>current.
            if current = Some (p_reservationId payload, Persisted) then io_return (R_persisted, False)
            else if current = Some (p_reservationId payload, Compensated)
            then io_return (R_compensation_noop, True)
            else io_bind undo (\<lambda>compensation.
              io_bind
                (case current of
                   None \<Rightarrow> io_bind (on_pg (insert_order False (compensated_row payload))) (\<lambda>_. io_return ())
                 | Some (curId, curStatus) \<Rightarrow>
                     if curStatus = Compensated
                     then io_bind (on_pg (update_compensated (p_userId payload) curId
                            (\<lambda>_. compensated_row payload))) (\<lambda>count.
                       if count \<noteq> 1
                       then io_throw (GenericError ''guarded compensation marker update affected unexpected row count'')
                       else io_return ())
                     else io_return ())
                (\<lambda>_. io_return (if co_outcome compensation = NOOP then R_compensation_noop
                                else R_compensated, False))))"

definition resolveFailed ::
  "orders_payload \<Rightarrow> ('q world, compensate_result) io \<Rightarrow> ('q world, resolve_failed_result) io" where
  "resolveFailed payload undo =
     io_bind (transaction (resolve_tx payload undo))
       (\<lambda>(result, compensateAfterCommit).
          if compensateAfterCommit then io_bind undo (\<lambda>_. io_return result)
          else io_return result)"

text \<open>The callback that the sweep passes.\<close>

definition compensate_payload :: "orders_payload \<Rightarrow> ('q world, compensate_result) io" where
  "compensate_payload p = on_redis (compensate (p_saleId p) (p_userId p) (p_reservationId p))"

definition getByUser :: "string \<Rightarrow> ('q world, order_row option) io" where
  "getByUser u = on_pg (\<lambda>db. Inr (find_user u (pg_orders db), db))"

text \<open>\<open>ORDER BY user_id OFFSET ... LIMIT ...\<close>; text order is the server's collation, an argument.\<close>

definition listSaleOrders ::
  "(string \<Rightarrow> nat) \<Rightarrow> worker_env \<Rightarrow> nat \<Rightarrow> nat \<Rightarrow> ('q world, order_row list) io" where
  "listSaleOrders collate env offset lim = on_pg (\<lambda>db.
     Inr (take lim (drop offset (sort_key (\<lambda>r. collate (or_user_id r))
           (filter (\<lambda>r. or_sale_id r = SALE_ID env) (pg_orders db)))), db))"

section \<open>What a transaction can do to the tables\<close>

text \<open>
  A relation between tables before and after that holds when nothing changes and composes: every
  method built from statements that respect it respects it, whatever the Redis calls, the errors
  and the fate of the commit.
\<close>

locale table_relation =
  fixes R :: "pg \<Rightarrow> pg \<Rightarrow> bool"
  assumes same: "pg_sales db = pg_sales db' \<Longrightarrow> pg_orders db = pg_orders db' \<Longrightarrow> R db db'"
    and compose: "R a b \<Longrightarrow> R b c \<Longrightarrow> R a c"
begin

definition keeps :: "('q world, 'a) io \<Rightarrow> bool" where
  "keeps m \<longleftrightarrow> (\<forall>w. R (w_pg w) (w_pg (snd (m w))))"

lemma keeps_pure: "keeps (io_return x)" "keeps (io_throw e)" "keeps (io_lift r)" "keeps (on_redis m)"
  by (simp_all add: keeps_def same on_redis_def io_part_def case_prod_unfold)

lemma keeps_bind: "keeps m \<Longrightarrow> (\<And>x. keeps (f x)) \<Longrightarrow> keeps (io_bind m f)"
  unfolding keeps_def io_bind_def
  by (auto split: prod.splits sum.splits) (metis compose snd_conv)+

lemma keeps_on_pg: "(\<And>db x db'. stmt db = Inr (x, db') \<Longrightarrow> R db db') \<Longrightarrow> keeps (on_pg stmt)"
  by (auto simp: keeps_def on_pg_def same split: sum.splits prod.splits)

lemma keeps_transaction:
  fixes work :: "('q world, 'a) io"
  assumes "keeps work"
  shows "keeps (transaction work)"
  unfolding keeps_def
proof
  fix w :: "'q world"
  obtain fate db where pop: "pop_fate (w_pg w) = (fate, db)" by (cases "pop_fate (w_pg w)")
  have tables: "pg_sales db = pg_sales (w_pg w)" "pg_orders db = pg_orders (w_pg w)"
    using pop by (auto simp: pop_fate_def split: list.splits)
  obtain r w1 where work: "work (w\<lparr>w_pg := db\<rparr>) = (r, w1)" by (cases "work (w\<lparr>w_pg := db\<rparr>)")
  have "R (w_pg w) db" using tables by (simp add: same)
  moreover have "R db (w_pg w1)" using assms work unfolding keeps_def
    by (metis (no_types, lifting) snd_conv world.select_convs(2) world.surjective world.update_convs(2))
  ultimately have whole: "R (w_pg w) (w_pg w1)" by (rule compose)
  show "R (w_pg w) (w_pg (snd (transaction work w)))"
    using whole work tables
    by (cases r; cases fate) (simp_all add: transaction_def pop Let_def same rolled_back_def)
qed

lemma keeps_select: "keeps (selectUserForUpdate u)"
  unfolding selectUserForUpdate_def by (rule keeps_on_pg) (simp add: same)

lemma keeps_branch:
  "(b \<Longrightarrow> keeps m) \<Longrightarrow> (\<not> b \<Longrightarrow> keeps n) \<Longrightarrow> keeps (if b then m else n)"
  "(x = None \<Longrightarrow> keeps m) \<Longrightarrow> (\<And>y. x = Some y \<Longrightarrow> keeps (f y)) \<Longrightarrow> keeps (case x of None \<Rightarrow> m | Some y \<Rightarrow> f y)"
  "(\<And>a b. p = (a, b) \<Longrightarrow> keeps (g a b)) \<Longrightarrow> keeps (case p of (a, b) \<Rightarrow> g a b)"
  by (simp_all split: option.split prod.split)

lemmas keeps_intros = keeps_pure keeps_branch keeps_bind keeps_select keeps_transaction

lemma keeps_persist:
  assumes "\<And>db x db'. insert_order True (persisted_row now p) db = Inr (x, db') \<Longrightarrow> R db db'"
    and "\<And>i db x db'. update_compensated (p_userId p) i (\<lambda>_. persisted_row now p) db = Inr (x, db') \<Longrightarrow> R db db'"
  shows "keeps (persist now p)"
  unfolding persist_def persist_tx_def
  by (intro keeps_intros keeps_on_pg) (erule assms)+

lemma keeps_resolveFailed:
  assumes "keeps undo"
    and "\<And>db x db'. insert_order False (compensated_row p) db = Inr (x, db') \<Longrightarrow> R db db'"
    and "\<And>i db x db'. update_compensated (p_userId p) i (\<lambda>_. compensated_row p) db = Inr (x, db') \<Longrightarrow> R db db'"
  shows "keeps (resolveFailed p undo)"
  unfolding resolveFailed_def resolve_tx_def
  by (intro keeps_intros keeps_on_pg assms(1)) (erule assms(2,3))+

lemma keeps_compensate_payload: "keeps (compensate_payload p)"
  unfolding compensate_payload_def by (rule keeps_pure)

end

definition pg_inv :: "pg \<Rightarrow> bool" where
  "pg_inv db \<longleftrightarrow>
     distinct (map or_user_id (pg_orders db)) \<and> distinct (map or_id (pg_orders db))
     \<and> (\<forall>r \<in> set (pg_orders db). orders_checks r \<and> or_sale_id r \<in> sl_id ` set (pg_sales db)
          \<and> or_status r \<noteq> Reserved)"

definition evolves :: "pg \<Rightarrow> pg \<Rightarrow> bool" where
  "evolves db db' \<longleftrightarrow>
     pg_sales db' = pg_sales db \<and> (pg_inv db \<longrightarrow> pg_inv db')
     \<and> (\<forall>r \<in> set (pg_orders db). or_status r = Persisted \<longrightarrow> r \<in> set (pg_orders db'))"

interpretation evo: table_relation evolves
proof
  show "evolves db db'" if "pg_sales db = pg_sales db'" "pg_orders db = pg_orders db'" for db db'
    using that by (simp add: evolves_def pg_inv_def)
  show "evolves a c" if "evolves a b" "evolves b c" for a b c
    using that unfolding evolves_def by simp
qed

lemma find_user_None: "find_user u rows = None \<longleftrightarrow> u \<notin> or_user_id ` set rows"
  by (auto simp: find_user_def find_None_iff)

lemma find_user_Some_in: "find_user u rows = Some r \<Longrightarrow> r \<in> set rows \<and> or_user_id r = u"
  by (auto simp: find_user_def find_Some_iff)

lemma find_user_append:
  "find_user u xs = None \<Longrightarrow> find_user u (xs @ [r]) = (if or_user_id r = u then Some r else None)"
  by (induction xs) (auto simp: find_user_def split: if_splits)

lemma find_user_unique:
  assumes "distinct (map or_user_id rows)" and "r \<in> set rows"
  shows "find_user (or_user_id r) rows = Some r"
proof (cases "find_user (or_user_id r) rows")
  case None
  with assms(2) show ?thesis by (simp add: find_user_None)
next
  case (Some r')
  with find_user_Some_in [OF this] assms show ?thesis by (metis distinct_map inj_onD)
qed

lemma insert_order_evolves:
  assumes "insert_order b r db = Inr (x, db')" and "or_status r \<noteq> Reserved"
  shows "evolves db db'"
  using assms
  by (auto simp: insert_order_def evolves_def pg_inv_def find_user_None split: if_splits)

lemma update_users:
  assumes "\<forall>r. or_user_id (f r) = u"
  shows "map or_user_id (map (\<lambda>r. if or_user_id r = u \<and> or_id r = i \<and> or_status r = Compensated then f r else r) rows)
     = map or_user_id rows"
  using assms by (induction rows) auto

lemma update_compensated_evolves:
  assumes "update_compensated u i f db = Inr (n, db')" and "\<forall>r. or_user_id (f r) = u"
    and "\<forall>r. or_status (f r) \<noteq> Reserved"
  shows "evolves db db'"
proof -
  let ?g = "\<lambda>r. if or_user_id r = u \<and> or_id r = i \<and> or_status r = Compensated then f r else r"
  define rows where "rows = map ?g (pg_orders db)"
  have db': "db' = db\<lparr>pg_orders := rows\<rparr>"
    and checks: "list_all orders_checks rows" "distinct (map or_id rows)"
      "list_all (\<lambda>r. or_sale_id r \<in> sl_id ` set (pg_sales db)) rows"
    using assms(1) unfolding rows_def by (simp_all add: update_compensated_def Let_def split: if_splits)
  have old: "r \<in> set rows" if "r \<in> set (pg_orders db)" "or_status r = Persisted" for r
    using that by (auto simp: rows_def intro!: rev_image_eqI [of r])
  have "map or_user_id rows = map or_user_id (pg_orders db)"
    unfolding rows_def by (rule update_users [OF assms(2)])
  moreover have "or_status r \<noteq> Reserved" if "pg_inv db" "r \<in> set rows" for r
    using that assms(3) by (auto simp: rows_def pg_inv_def split: if_splits)
  ultimately have "pg_inv db'" if "pg_inv db"
    using that checks unfolding pg_inv_def db' by (simp add: list_all_iff)
  with old show ?thesis unfolding evolves_def db' by auto
qed

section \<open>Persisted orders are final\<close>

text \<open>
  Everything that can happen around the tables: a persist attempt and a failure resolution for any
  payload under any faults, and any activity elsewhere (Redis, the queue).
\<close>

inductive repo_step :: "'q world \<Rightarrow> 'q world \<Rightarrow> bool" where
  persisting: "repo_step w (snd (persist now p w))"
| resolving: "repo_step w (snd (resolveFailed p (compensate_payload p) w))"
| elsewhere: "pg_sales (w_pg w') = pg_sales (w_pg w) \<Longrightarrow> pg_orders (w_pg w') = pg_orders (w_pg w) \<Longrightarrow>
    repo_step w w'"

lemma row_user [simp]:
  "or_user_id (persisted_row now p) = p_userId p" "or_user_id (compensated_row p) = p_userId p"
  "or_status (persisted_row now p) = Persisted" "or_status (compensated_row p) = Compensated"
  "or_id (persisted_row now p) = uuid_text (p_reservationId p)"
  "or_id (compensated_row p) = uuid_text (p_reservationId p)"
  by (simp_all add: persisted_row_def compensated_row_def)

lemma repo_step_evolves:
  assumes "repo_step w w'"
  shows "evolves (w_pg w) (w_pg w')"
  using assms
proof cases
  case (persisting now p)
  have "evo.keeps (persist now p :: ('a world, persist_result) io)"
    by (rule evo.keeps_persist) (auto intro: insert_order_evolves update_compensated_evolves)
  then show ?thesis unfolding persisting evo.keeps_def by simp
next
  case (resolving p)
  have "evo.keeps (resolveFailed p (compensate_payload p) :: ('a world, resolve_failed_result) io)"
    by (rule evo.keeps_resolveFailed [OF evo.keeps_compensate_payload])
      (auto intro: insert_order_evolves update_compensated_evolves)
  then show ?thesis unfolding resolving evo.keeps_def by simp
next
  case elsewhere
  then show ?thesis using evo.same by simp
qed

lemma repo_steps_evolve: "repo_step\<^sup>*\<^sup>* w w' \<Longrightarrow> evolves (w_pg w) (w_pg w')"
  by (induction rule: rtranclp_induct) (auto intro: evo.same evo.compose repo_step_evolves)

text \<open>
  C6: a persisted order is final. Whatever sequence of persist attempts, failure resolutions and
  other activity follows, under any faults, the row of a user whose order is persisted stays
  exactly as it is, and every constraint of the schema keeps holding (one row per user, one per
  reservation).
\<close>

theorem persisted_is_final:
  assumes inv: "pg_inv (w_pg w)" and steps: "repo_step\<^sup>*\<^sup>* w w'"
    and row: "find_user u (pg_orders (w_pg w)) = Some r" "or_status r = Persisted"
  shows "find_user u (pg_orders (w_pg w')) = Some r \<and> pg_inv (w_pg w')"
proof -
  have e: "evolves (w_pg w) (w_pg w')" using steps by (rule repo_steps_evolve)
  then have inv': "pg_inv (w_pg w')" and in': "r \<in> set (pg_orders (w_pg w'))"
    using inv row find_user_Some_in [OF row(1)] by (auto simp: evolves_def)
  from inv' have "distinct (map or_user_id (pg_orders (w_pg w')))" by (simp add: pg_inv_def)
  from find_user_unique [OF this in'] find_user_Some_in [OF row(1)] inv' show ?thesis by simp
qed

section \<open>Settled reservations\<close>

lemma transaction_readonly:
  assumes "\<And>w0. w_redis w0 = w_redis w \<Longrightarrow> pg_sales (w_pg w0) = pg_sales (w_pg w) \<Longrightarrow>
      pg_orders (w_pg w0) = pg_orders (w_pg w) \<Longrightarrow> work w0 = (Inr x, w0)"
    and "transaction work w = (r, w')"
  shows "w_redis w' = w_redis w \<and> pg_sales (w_pg w') = pg_sales (w_pg w)
     \<and> pg_orders (w_pg w') = pg_orders (w_pg w) \<and> (r = Inr x \<or> (\<exists>m. r = Inl (DatabaseError m)))
     \<and> (pg_fates (w_pg w) = [] \<longrightarrow> r = Inr x \<and> w' = w)"
proof -
  obtain fate db where pop: "pop_fate (w_pg w) = (fate, db)" by (cases "pop_fate (w_pg w)")
  have tables: "pg_sales db = pg_sales (w_pg w)" "pg_orders db = pg_orders (w_pg w)"
    "pg_fates (w_pg w) = [] \<longrightarrow> fate = Tx_ok \<and> db = w_pg w"
    using pop by (auto simp: pop_fate_def split: list.splits)
  have "work (w\<lparr>w_pg := db\<rparr>) = (Inr x, w\<lparr>w_pg := db\<rparr>)"
    using tables by (intro assms(1)) simp_all
  then show ?thesis using assms(2) tables
    by (cases fate) (auto simp: transaction_def pop Let_def rolled_back_def)
qed

lemma insert_conflict:
  assumes "find_user (or_user_id r) (pg_orders db) = Some r0" and "orders_checks r"
  shows "insert_order True r db = Inr (False, db)"
  using assms by (simp add: insert_order_def)

lemma payload_checks:
  assumes "valid_payload p"
  shows "orders_checks (persisted_row now p)" and "orders_checks (compensated_row p)"
  using assms
  by (auto simp: orders_checks_def persisted_row_def compensated_row_def valid_payload_def
      valid_user_id_def USER_ID_MIN_LENGTH_def USER_ID_MAX_LENGTH_def REQUEST_ID_PATTERN_def)

text \<open>
  C7: persist and compensate exclude each other. Once the user's row carries this reservation, in
  either state, a further persist attempt or resolution of it changes neither the tables nor,
  when the order is persisted, Redis: a persisted reservation is never compensated, a compensated
  one never persisted. The answer names the state, unless the database itself fails.
\<close>

theorem settled_reservation_exclusive:
  assumes valid: "valid_payload p"
    and row: "find_user (p_userId p) (pg_orders (w_pg w)) = Some r" "or_id r = p_reservationId p"
    and persist: "persist now p w = (a, w1)" and resolve: "resolveFailed p undo w = (b, w2)"
  shows "pg_orders (w_pg w1) = pg_orders (w_pg w) \<and> w_redis w1 = w_redis w
     \<and> (a = Inr (if or_status r = Persisted then P_idempotent else P_compensated)
        \<or> (\<exists>m. a = Inl (DatabaseError m)))
     \<and> (or_status r = Persisted \<longrightarrow>
          pg_orders (w_pg w2) = pg_orders (w_pg w) \<and> w_redis w2 = w_redis w
          \<and> (b = Inr R_persisted \<or> (\<exists>m. b = Inl (DatabaseError m))))"
proof -
  let ?x = "if or_status r = Persisted then P_idempotent else P_compensated"
  have tx: "persist_tx now p w0 = (Inr ?x, w0)" if "pg_orders (w_pg w0) = pg_orders (w_pg w)" for w0
    using that by (simp add: persist_tx_def on_pg_def io_bind_def insert_conflict row
        payload_checks [OF valid] selectUserForUpdate_def)
  have p: "w_redis w1 = w_redis w \<and> pg_sales (w_pg w1) = pg_sales (w_pg w)
     \<and> pg_orders (w_pg w1) = pg_orders (w_pg w) \<and> (a = Inr ?x \<or> (\<exists>m. a = Inl (DatabaseError m)))
     \<and> (pg_fates (w_pg w) = [] \<longrightarrow> a = Inr ?x \<and> w1 = w)"
    by (rule transaction_readonly [OF _ persist [unfolded persist_def]]) (rule tx)
  have q: "w_redis w2 = w_redis w \<and> pg_orders (w_pg w2) = pg_orders (w_pg w)
     \<and> (b = Inr R_persisted \<or> (\<exists>m. b = Inl (DatabaseError m)))" if st: "or_status r = Persisted"
  proof -
    obtain t w3 where t: "transaction (resolve_tx p undo) w = (t, w3)"
      by (cases "transaction (resolve_tx p undo) w")
    have "resolve_tx p undo w0 = (Inr (R_persisted, False), w0)"
      if "pg_orders (w_pg w0) = pg_orders (w_pg w)" for w0
      using that by (simp add: resolve_tx_def io_bind_def selectUserForUpdate_def on_pg_def row st)
    then have "w_redis w3 = w_redis w \<and> pg_orders (w_pg w3) = pg_orders (w_pg w)
       \<and> (t = Inr (R_persisted, False) \<or> (\<exists>m. t = Inl (DatabaseError m)))"
      using transaction_readonly [OF _ t, of "(R_persisted, False)"] by simp
    then show ?thesis using resolve t by (auto simp: resolveFailed_def io_bind_def)
  qed
  from p q show ?thesis by blast
qed

section \<open>Resolution of a failed job\<close>

definition reservation_on_file :: "orders_payload \<Rightarrow> 'q world \<Rightarrow> bool" where
  "reservation_on_file p w \<longleftrightarrow>
     ledger_id (sales (w_redis w) (p_saleId p)) (p_userId p) = Some (p_reservationId p)"

text \<open>What every enqueued payload satisfies: its sale exists and its identifier is not another user's.\<close>

definition enlisted :: "orders_payload \<Rightarrow> pg \<Rightarrow> bool" where
  "enlisted p db \<longleftrightarrow> valid_payload p \<and> uuid_text (p_reservationId p) = p_reservationId p
     \<and> p_saleId p \<in> sl_id ` set (pg_sales db)
     \<and> (\<forall>r \<in> set (pg_orders db). or_id r = p_reservationId p \<longrightarrow> or_user_id r = p_userId p)"

lemma compensate_payload_delivered:
  assumes "valid_payload p" and "link (w_redis w) = []"
  obtains c srv where "compensate_payload p w = (Inr c, w\<lparr>w_redis := srv\<rparr>)" and "link srv = []"
    and "\<not> reservation_on_file p (w\<lparr>w_redis := srv\<rparr>)"
proof -
  have id: "SALE_ID_PATTERN (p_saleId p)" using assms(1) by (simp add: valid_payload_def)
  obtain c srv where run: "compensate (p_saleId p) (p_userId p) (p_reservationId p) (w_redis w) = (Inr c, srv)"
    and s: "sales srv = (sales (w_redis w))(p_saleId p := snd (compensate_lua (p_userId p) (p_reservationId p)
        (sales (w_redis w) (p_saleId p))))" and l: "link srv = []"
    by (rule store_compensate_delivered [OF id assms(2)])
  have "compensate_payload p w = (Inr c, w\<lparr>w_redis := srv\<rparr>)"
    by (simp add: compensate_payload_def on_redis_def io_part_def run)
  moreover have "\<not> reservation_on_file p (w\<lparr>w_redis := srv\<rparr>)"
    using compensated_ledger_id by (simp add: reservation_on_file_def s)
  ultimately show thesis using l by (intro that)
qed

lemma insert_marker:
  assumes "enlisted p db" and "find_user (p_userId p) (pg_orders db) = None"
  shows "insert_order b (compensated_row p) db = Inr (True, db\<lparr>pg_orders := pg_orders db @ [compensated_row p]\<rparr>)"
    and "insert_order b (persisted_row now p) db = Inr (True, db\<lparr>pg_orders := pg_orders db @ [persisted_row now p]\<rparr>)"
proof -
  have "\<not> (\<exists>r \<in> set (pg_orders db). or_id r = p_reservationId p)"
    using assms unfolding enlisted_def find_user_None by (metis imageI)
  then have "p_reservationId p \<notin> or_id ` set (pg_orders db)" by auto
  then show "insert_order b (compensated_row p) db = Inr (True, db\<lparr>pg_orders := pg_orders db @ [compensated_row p]\<rparr>)"
    and "insert_order b (persisted_row now p) db = Inr (True, db\<lparr>pg_orders := pg_orders db @ [persisted_row now p]\<rparr>)"
    using assms payload_checks [of p]
    by (simp_all add: insert_order_def enlisted_def compensated_row_def persisted_row_def)
qed

lemma update_marker:
  assumes "enlisted p db" and "pg_inv db" and "find_user (p_userId p) (pg_orders db) = Some r"
    and "or_status r = Compensated"
    and row: "row = compensated_row p \<or> row = persisted_row now p"
  shows "\<exists>rows. update_compensated (p_userId p) (or_id r) (\<lambda>_. row) db
      = Inr (1, db\<lparr>pg_orders := rows\<rparr>) \<and> find_user (p_userId p) rows = Some row"
proof -
  let ?hit = "\<lambda>x. or_user_id x = p_userId p \<and> or_id x = or_id r \<and> or_status x = Compensated"
  let ?rows = "map (\<lambda>x. if ?hit x then row else x) (pg_orders db)"
  have r: "r \<in> set (pg_orders db)" "or_user_id r = p_userId p" using find_user_Some_in [OF assms(3)] by simp_all
  have d: "distinct (map or_user_id (pg_orders db))" "distinct (map or_id (pg_orders db))"
    using assms(2) by (simp_all add: pg_inv_def)
  have only: "?hit x \<longleftrightarrow> x = r" if "x \<in> set (pg_orders db)" for x
    using that r d assms(4) by (metis distinct_map inj_onD)
  have rows: "?rows = map (\<lambda>x. if x = r then row else x) (pg_orders db)" using only by simp
  have row_facts: "or_user_id row = p_userId p" "or_id row = p_reservationId p" "orders_checks row"
    "or_sale_id row = p_saleId p"
    using row assms(1) payload_checks [of p] by (auto simp: enlisted_def compensated_row_def persisted_row_def)
  have checks: "list_all orders_checks ?rows"
    "list_all (\<lambda>x. or_sale_id x \<in> sl_id ` set (pg_sales db)) ?rows"
    using assms(1,2) row_facts by (auto simp: list_all_iff pg_inv_def enlisted_def)
  have "distinct (map or_id ?rows)"
  proof -
    have "inj_on (\<lambda>x. or_id (if x = r then row else x)) (set (pg_orders db))"
    proof (rule inj_onI)
      fix x y assume x: "x \<in> set (pg_orders db)" and y: "y \<in> set (pg_orders db)"
        and eq: "or_id (if x = r then row else x) = or_id (if y = r then row else y)"
      have other: "or_id z \<noteq> p_reservationId p" if "z \<in> set (pg_orders db)" "z \<noteq> r" for z
        using that assms(1) r d(1) unfolding enlisted_def by (metis distinct_map inj_onD)
      show "x = y" using eq x y d(2) other row_facts(2)
        by (auto split: if_splits) (metis distinct_map inj_onD)
    qed
    moreover have "distinct (pg_orders db)" using d(1) by (simp add: distinct_map)
    ultimately show ?thesis unfolding rows by (simp add: distinct_map comp_inj_on_iff o_def)
  qed
  moreover have "length (filter ?hit (pg_orders db)) = 1"
  proof -
    have "filter ?hit (pg_orders db) = filter (\<lambda>x. x = r) (pg_orders db)" using only by (auto intro: filter_cong)
    moreover have "distinct (pg_orders db)" using d(1) by (simp add: distinct_map)
    ultimately show ?thesis using r(1) by (simp add: distinct_length_filter Collect_conv_if)
  qed
  moreover have "find_user (p_userId p) ?rows = Some row"
  proof -
    have "map or_user_id ?rows = map or_user_id (pg_orders db)"
      by (rule update_users) (simp add: row_facts)
    with d(1) have "distinct (map or_user_id ?rows)" by (simp only:)
    moreover have "row \<in> set ?rows" unfolding rows using r(1) by auto
    ultimately show ?thesis using find_user_unique row_facts(1) by fastforce
  qed
  ultimately show ?thesis using checks
    by (intro exI [of _ ?rows]) (simp add: update_compensated_def Let_def)
qed

lemma transaction_healthy:
  "pg_fates (w_pg w) = [] \<Longrightarrow> work w = (Inr x, w1) \<Longrightarrow> transaction work w = (Inr x, w1)"
  by (simp add: transaction_def pop_fate_def)

lemma persist_fresh:
  assumes "enlisted p (w_pg w)" and "find_user (p_userId p) (pg_orders (w_pg w)) = None" and "pg_fates (w_pg w) = []"
  shows "persist now p w = (Inr P_persisted, w\<lparr>w_pg := (w_pg w)\<lparr>pg_orders := pg_orders (w_pg w) @ [persisted_row now p]\<rparr>\<rparr>)"
proof -
  have "persist_tx now p w
      = (Inr P_persisted, w\<lparr>w_pg := (w_pg w)\<lparr>pg_orders := pg_orders (w_pg w) @ [persisted_row now p]\<rparr>\<rparr>)"
    using insert_marker(2) [OF assms(1,2)] by (simp add: persist_tx_def io_bind_def on_pg_def)
  then show ?thesis unfolding persist_def by (rule transaction_healthy [of w "persist_tx now p", OF assms(3)])
qed

lemma resolve_tx_unsettled:
  assumes undo: "undo w = (Inr c, w\<lparr>w_redis := srv\<rparr>)"
    and inv: "pg_inv (w_pg w)" and enl: "enlisted p (w_pg w)"
    and new: "\<And>r. find_user (p_userId p) (pg_orders (w_pg w)) = Some r \<Longrightarrow> or_id r \<noteq> p_reservationId p"
  shows "\<exists>res db r. resolve_tx p undo w = (Inr (res, False), w\<lparr>w_redis := srv, w_pg := db\<rparr>)
     \<and> pg_fates db = pg_fates (w_pg w)
     \<and> res \<noteq> R_persisted \<and> find_user (p_userId p) (pg_orders db) = Some r
     \<and> (if or_status r = Persisted then or_id r \<noteq> p_reservationId p
        else or_id r = p_reservationId p \<and> or_status r = Compensated)"
proof -
  have canon: "uuid_text (p_reservationId p) = p_reservationId p" using enl by (simp add: enlisted_def)
  note unfold = resolve_tx_def io_bind_def selectUserForUpdate_def on_pg_def undo
  show ?thesis
  proof (cases "find_user (p_userId p) (pg_orders (w_pg w))")
    case None
    moreover have "find_user (p_userId p) (pg_orders (w_pg w) @ [compensated_row p]) = Some (compensated_row p)"
      using None by (simp add: find_user_append)
    ultimately show ?thesis using insert_marker(1) [OF enl None] canon
      by (auto simp: unfold intro!: exI [of _ "(w_pg w)\<lparr>pg_orders := pg_orders (w_pg w) @ [compensated_row p]\<rparr>"])
  next
    case (Some r)
    have "or_status r \<noteq> Reserved" using inv find_user_Some_in [OF Some] by (simp add: pg_inv_def)
    then consider "or_status r = Persisted" | "or_status r = Compensated" by (cases "or_status r") auto
    then show ?thesis
    proof cases
      case 1
      then show ?thesis using Some new [OF Some]
        by (auto simp: unfold intro!: exI [of _ "w_pg w"])
    next
      case 2
      obtain rows where rows: "update_compensated (p_userId p) (or_id r) (\<lambda>_. compensated_row p) (w_pg w)
          = Inr (1, (w_pg w)\<lparr>pg_orders := rows\<rparr>)" "find_user (p_userId p) rows = Some (compensated_row p)"
        using update_marker [OF enl inv Some 2, of "compensated_row p" 0] by blast
      with 2 show ?thesis using Some new [OF Some] canon
        by (auto simp: unfold intro!: exI [of _ "(w_pg w)\<lparr>pg_orders := rows\<rparr>"])
    qed
  qed
qed

text \<open>
  C16: resolving a failed job settles it, whatever earlier attempts left behind. From any state
  that satisfies the schema, a resolution that meets no fault returns. Either the order turns out
  to be persisted and nothing changes, or the reservation is off the Redis ledger and the
  user's row is the compensation marker of this reservation or an order persisted for another one.
\<close>

theorem resolveFailed_settles:
  assumes inv: "pg_inv (w_pg w)" and enl: "enlisted p (w_pg w)"
    and up: "link (w_redis w) = []" "pg_fates (w_pg w) = []"
  shows "\<exists>res w' r. resolveFailed p (compensate_payload p) w = (Inr res, w')
     \<and> find_user (p_userId p) (pg_orders (w_pg w')) = Some r
     \<and> (if res = R_persisted
        then or_id r = p_reservationId p \<and> or_status r = Persisted \<and> w' = w
        else \<not> reservation_on_file p w' \<and>
          (if or_status r = Persisted then or_id r \<noteq> p_reservationId p
           else or_id r = p_reservationId p \<and> or_status r = Compensated))"
proof -
  have valid: "valid_payload p" using enl by (simp add: enlisted_def)
  obtain c srv where undo: "compensate_payload p w = (Inr c, w\<lparr>w_redis := srv\<rparr>)"
    and off: "\<not> reservation_on_file p (w\<lparr>w_redis := srv\<rparr>)"
    by (rule compensate_payload_delivered [OF valid up(1)])
  show ?thesis
  proof (cases "\<exists>r. find_user (p_userId p) (pg_orders (w_pg w)) = Some r \<and> or_id r = p_reservationId p")
    case True
    then obtain r where r: "find_user (p_userId p) (pg_orders (w_pg w)) = Some r" "or_id r = p_reservationId p"
      by blast
    let ?x = "if or_status r = Persisted then (R_persisted, False) else (R_compensation_noop, True)"
    have st: "or_status r \<noteq> Reserved" using inv find_user_Some_in [OF r(1)] by (simp add: pg_inv_def)
    then have "or_status r \<noteq> Persisted \<Longrightarrow> or_status r = Compensated" by (cases "or_status r") auto
    then have "resolve_tx p (compensate_payload p) w = (Inr ?x, w)"
      using r by (simp add: resolve_tx_def io_bind_def selectUserForUpdate_def on_pg_def)
    from transaction_healthy [of w "resolve_tx p (compensate_payload p)", OF up(2) this]
    have "resolveFailed p (compensate_payload p) w =
        (if or_status r = Persisted then (Inr R_persisted, w) else (Inr R_compensation_noop, w\<lparr>w_redis := srv\<rparr>))"
      by (simp add: resolveFailed_def undo io_bind_def)
    then show ?thesis using r off st by (cases "or_status r") simp_all
  next
    case False
    then obtain res db r where tx: "resolve_tx p (compensate_payload p) w = (Inr (res, False), w\<lparr>w_redis := srv, w_pg := db\<rparr>)"
      "res \<noteq> R_persisted" "find_user (p_userId p) (pg_orders db) = Some r"
      "if or_status r = Persisted then or_id r \<noteq> p_reservationId p
        else or_id r = p_reservationId p \<and> or_status r = Compensated"
      using resolve_tx_unsettled [of "compensate_payload p" w c srv p, OF undo inv enl] by blast
    have "resolveFailed p (compensate_payload p) w = (Inr res, w\<lparr>w_redis := srv, w_pg := db\<rparr>)"
      using transaction_healthy [of w "resolve_tx p (compensate_payload p)", OF up(2) tx(1)] by (simp add: resolveFailed_def io_bind_def)
    moreover have "\<not> reservation_on_file p (w\<lparr>w_redis := srv, w_pg := db\<rparr>)"
      using off by (simp add: reservation_on_file_def)
    ultimately show ?thesis using tx(2-4) by (intro exI conjI) (assumption | simp)+
  qed
qed

section \<open>The window between the Redis compensation and the commit\<close>


section \<open>Witnesses\<close>

definition sample_payload :: "string \<Rightarrow> char \<Rightarrow> orders_payload" where
  "sample_payload u c = \<lparr>p_saleId = ''flash-2026'', p_userId = u, p_reservationId = sample_uuid c,
     p_reservedAtMs = 2000, p_requestId = ''req-1''\<rparr>"

definition sample_pg :: "tx_fate list \<Rightarrow> order_row list \<Rightarrow> pg" where
  "sample_pg fates rows = \<lparr>pg_sales = [\<lparr>sl_id = ''flash-2026'', sl_name = ''Flash'', sl_total_stock = 1,
     sl_starts_ms = 1000, sl_ends_ms = 9000\<rparr>], pg_orders = rows, pg_fates = fates\<rparr>"

definition sample_world :: "tx_fate list \<Rightarrow> order_row list \<Rightarrow> unit world" where
  "sample_world fates rows = \<lparr>w_redis = sample_server, w_pg = sample_pg fates rows, w_queue = ()\<rparr>"

lemma sample_payload_valid:
  "valid_payload (sample_payload ''alice'' CHR ''a'')"
  "uuid_text (sample_uuid CHR ''a'') = sample_uuid CHR ''a''"
  by code_simp+

lemma sample_world_facts:
  "link (w_redis (sample_world fates rows)) = []" "pg_fates (w_pg (sample_world fates rows)) = fates"
  "pg_orders (w_pg (sample_world fates rows)) = rows"
  "enlisted (sample_payload ''alice'' CHR ''a'') (w_pg (sample_world fates []))"
  "pg_inv (w_pg (sample_world fates []))"
  using sample_payload_valid
  by (simp_all add: sample_world_def sample_pg_def sample_server_def enlisted_def sample_payload_def pg_inv_def)


theorem resolveFailed_settles_witness:
  "\<exists>res w' r. resolveFailed (sample_payload ''alice'' CHR ''a'')
       (compensate_payload (sample_payload ''alice'' CHR ''a'')) (sample_world [] []) = (Inr res, w')
     \<and> find_user ''alice'' (pg_orders (w_pg w')) = Some r"
  using resolveFailed_settles [OF sample_world_facts(5,4,1,2)] by (auto simp: sample_payload_def)

definition sample_order :: order_row where
  "sample_order = persisted_row 7000 (sample_payload ''alice'' CHR ''a'')"

lemma sample_order_found: "find_user ''alice'' [sample_order] = Some sample_order"
  by (simp add: find_user_def sample_order_def sample_payload_def)

theorem persisted_is_final_witness:
  "find_user ''alice'' (pg_orders (w_pg (snd (resolveFailed (sample_payload ''alice'' CHR ''b'')
     (compensate_payload (sample_payload ''alice'' CHR ''b'')) (sample_world [Tx_commit_unknown] [sample_order])))))
   = Some sample_order"
proof -
  let ?w = "sample_world [Tx_commit_unknown] [sample_order]"
  have inv: "pg_inv (w_pg ?w)"
    using payload_checks(1) [OF sample_payload_valid(1), of 7000]
    by (simp add: pg_inv_def sample_world_def sample_pg_def sample_order_def)
      (simp add: sample_payload_def persisted_row_def)
  have step: "repo_step\<^sup>*\<^sup>* ?w (snd (resolveFailed (sample_payload ''alice'' CHR ''b'')
     (compensate_payload (sample_payload ''alice'' CHR ''b'')) ?w))"
    by (rule r_into_rtranclp) (rule repo_step.resolving)
  have row: "find_user ''alice'' (pg_orders (w_pg ?w)) = Some sample_order"
    by (simp only: sample_world_facts(3) sample_order_found)
  have st: "or_status sample_order = Persisted" by (simp add: sample_order_def)
  show ?thesis using persisted_is_final [OF inv step row st] by (rule conjunct1)
qed

theorem settled_reservation_exclusive_witness:
  "pg_orders (w_pg (snd (persist 8000 (sample_payload ''alice'' CHR ''a'') (sample_world [] [sample_order]))))
     = [sample_order]
   \<and> w_redis (snd (resolveFailed (sample_payload ''alice'' CHR ''a'')
        (compensate_payload (sample_payload ''alice'' CHR ''a'')) (sample_world [] [sample_order]))) = sample_server"
proof -
  let ?w = "sample_world [] [sample_order]" and ?p = "sample_payload ''alice'' CHR ''a''"
  have row: "find_user (p_userId ?p) (pg_orders (w_pg ?w)) = Some sample_order"
    using sample_order_found by (simp only: sample_world_facts(3)) (simp add: sample_payload_def)
  have id: "or_id sample_order = p_reservationId ?p"
    using sample_payload_valid(2) by (simp add: sample_order_def sample_payload_def)
  have st: "or_status sample_order = Persisted" by (simp add: sample_order_def)
  have rd: "w_redis ?w = sample_server" by (simp add: sample_world_def)
  from settled_reservation_exclusive [OF sample_payload_valid(1) row id prod.collapse [symmetric]
      prod.collapse [symmetric], of 8000 "compensate_payload ?p"] st rd sample_world_facts(3) [of "[]" "[sample_order]"]
  show ?thesis by simp
qed

end
