(* ===== verification/Orders_Queue.thy ===== *)
theory Orders_Queue
  imports Orders_Repository
begin

text \<open>
  The orders queue as the worker sees it: jobs, the interface to BullMQ, the processor of
  apps/worker/src/orders/order.processor.ts and the job checks of
  apps/worker/src/reconciliation/reconciliation.service.ts that decide which queue entries are
  well formed, terminal, or in the way of a live reservation.
\<close>

section \<open>Jobs and the interface to BullMQ\<close>

datatype job_state = Job_waiting | Job_active | Job_delayed | Job_failed | Job_completed | Job_other

record job =
  j_id :: "string option"
  j_name :: string
  j_data :: js_value
  j_attempts :: "int option"
  j_attemptsMade :: int
  j_failedReason :: string
  j_stalledCounter :: int

definition QUEUE_STATES :: "job_state list" where
  "QUEUE_STATES = [Job_waiting, Job_active, Job_delayed, Job_failed, Job_completed]"

definition live_states :: "job_state list" where
  "live_states = [Job_waiting, Job_active, Job_delayed, Job_failed]"

text \<open>The methods of \<open>Queue\<close> and \<open>Job\<close> that the worker calls, over an abstract queue state.\<close>

record 'q bullmq =
  q_getJob :: "string \<Rightarrow> ('q, job option) io"
  q_getState :: "job \<Rightarrow> ('q, job_state) io"
  q_add :: "string \<Rightarrow> js_value \<Rightarrow> string \<Rightarrow> int \<Rightarrow> ('q, job) io"
  q_remove :: "job \<Rightarrow> ('q, unit) io"
  q_getJobs :: "job_state \<Rightarrow> nat \<Rightarrow> nat \<Rightarrow> ('q, job option list) io"
  q_getFailedCount :: "('q, nat) io"
  q_getActiveCount :: "('q, nat) io"
  q_getJobCounts :: "('q, nat \<times> nat) io"
  q_pause :: "('q, unit) io"
  q_resume :: "('q, unit) io"
  q_isPaused :: "('q, bool) io"

definition on_queue :: "('q, 'a) io \<Rightarrow> ('q world, 'a) io" where
  "on_queue = io_part w_queue (\<lambda>q w. w\<lparr>w_queue := q\<rparr>)"

section \<open>Classification of queue entries\<close>

datatype queue_entry_issue = UNEXPECTED_NAME | INVALID_PAYLOAD | JOB_ID_MISMATCH

datatype classified = Issue queue_entry_issue | Entry orders_payload

definition classifyQueueEntry :: "job \<Rightarrow> classified" where
  "classifyQueueEntry job =
     (if j_name job \<noteq> PERSIST_ORDER_JOB_NAME then Issue UNEXPECTED_NAME
      else (case assertOrdersQueueJobPayload (j_data job) of
              Inl _ \<Rightarrow> Issue INVALID_PAYLOAD
            | Inr payload \<Rightarrow>
                (case buildOrdersJobId (p_saleId payload) (p_userId payload) of
                   Inl _ \<Rightarrow> Issue JOB_ID_MISMATCH
                 | Inr expectedId \<Rightarrow>
                     if j_id job \<noteq> Some expectedId then Issue JOB_ID_MISMATCH
                     else if j_attempts job \<noteq> Some ORDERS_JOB_ATTEMPTS then Issue INVALID_PAYLOAD
                     else Entry payload)))"

definition ORDERS_MAX_STALLED_COUNT :: int where "ORDERS_MAX_STALLED_COUNT = 2"

definition BULLMQ_MAX_STALLED_FAILED_REASON :: string where
  "BULLMQ_MAX_STALLED_FAILED_REASON = ''job stalled more than allowable limit''"

definition retry_exhausted :: "job \<Rightarrow> bool" where
  "retry_exhausted job \<longleftrightarrow> j_attemptsMade job \<ge> ORDERS_JOB_ATTEMPTS"

definition max_stalled :: "job \<Rightarrow> bool" where
  "max_stalled job \<longleftrightarrow> j_failedReason job = BULLMQ_MAX_STALLED_FAILED_REASON
     \<and> j_stalledCounter job > ORDERS_MAX_STALLED_COUNT"

definition isTerminalFailedJobEligible :: "'q bullmq \<Rightarrow> job \<Rightarrow> ('q, bool) io" where
  "isTerminalFailedJobEligible ops job =
     io_bind (q_getState ops job) (\<lambda>state.
       io_return
         (if state \<noteq> Job_failed then False
          else if j_name job \<noteq> PERSIST_ORDER_JOB_NAME then False
          else (case assertOrdersQueueJobPayload (j_data job) of
                  Inl _ \<Rightarrow> False
                | Inr payload \<Rightarrow>
                    if map_option Inr (j_id job) \<noteq> Some (buildOrdersJobId (p_saleId payload) (p_userId payload))
                    then False
                    else if j_attempts job \<noteq> Some ORDERS_JOB_ATTEMPTS then False
                    else retry_exhausted job \<or> max_stalled job)))"

section \<open>OrderProcessor\<close>

text \<open>\<open>process\<close>: validation, then the persist transaction; its errors are logged and rethrown.\<close>

definition process_order :: "int \<Rightarrow> job \<Rightarrow> ('q world, unit) io" where
  "process_order now job =
     (if j_name job \<noteq> PERSIST_ORDER_JOB_NAME then io_throw (GenericError ''unexpected job name'')
      else io_bind (io_lift (assertOrdersQueueJobPayload (j_data job))) (\<lambda>payload.
           io_bind (io_lift (buildOrdersJobId (p_saleId payload) (p_userId payload))) (\<lambda>expectedId.
             if j_id job \<noteq> Some expectedId then io_throw (GenericError ''job id mismatch'')
             else if j_attempts job \<noteq> Some ORDERS_JOB_ATTEMPTS
             then io_throw (GenericError ''job attempts must equal 5'')
             else io_bind (persist now payload) (\<lambda>_. io_return ()))))"

section \<open>Covering a live reservation with a job\<close>

datatype ensure_result = ENQUEUED | ALREADY_COVERED | DURABLY_SATISFIED | RETAINED_COLLISION

definition live_payload :: "worker_env \<Rightarrow> reservation_entry \<Rightarrow> orders_payload" where
  "live_payload env entry =
     \<lparr>p_saleId = SALE_ID env, p_userId = e_userId entry, p_reservationId = e_reservationId entry,
      p_reservedAtMs = (case e_reservedAtMs entry of None \<Rightarrow> 0 | Some t \<Rightarrow> t),
      p_requestId = ''reconcile-'' @ e_reservationId entry\<rparr>"

definition enqueueLiveReservation ::
  "'q bullmq \<Rightarrow> worker_env \<Rightarrow> reservation_entry \<Rightarrow> string \<Rightarrow> ('q, ensure_result) io" where
  "enqueueLiveReservation ops env entry jobId =
     io_bind (io_lift (assertOrdersQueueJobPayload (payload_value (live_payload env entry)))) (\<lambda>payload.
     io_bind (q_add ops PERSIST_ORDER_JOB_NAME (payload_value payload) jobId ORDERS_JOB_ATTEMPTS) (\<lambda>repaired.
       io_return
         (case classifyQueueEntry repaired of
            Issue _ \<Rightarrow> RETAINED_COLLISION
          | Entry q \<Rightarrow> if p_reservationId q \<noteq> p_reservationId payload then RETAINED_COLLISION else ENQUEUED)))"

definition enqueueAfterRemoval ::
  "'q bullmq \<Rightarrow> worker_env \<Rightarrow> reservation_entry \<Rightarrow> string \<Rightarrow> ('q, ensure_result) io" where
  "enqueueAfterRemoval ops env live jobId =
     io_bind (q_getJob ops jobId) (\<lambda>raced.
       case raced of
         Some job \<Rightarrow>
           io_bind (q_getState ops job) (\<lambda>_.
             io_return
               (case classifyQueueEntry job of
                  Issue _ \<Rightarrow> RETAINED_COLLISION
                | Entry q \<Rightarrow> if p_reservationId q = e_reservationId live then ALREADY_COVERED
                             else RETAINED_COLLISION))
       | None \<Rightarrow> enqueueLiveReservation ops env live jobId)"

text \<open>
  \<open>targetedJob\<close> is \<open>undefined\<close> (here \<open>None\<close>), or a job or \<open>null\<close> that the caller has already
  looked up (here \<open>Some\<close> of an option).
\<close>

definition ensureLiveReservationQueued ::
  "'q bullmq \<Rightarrow> worker_env \<Rightarrow> reservation_entry \<Rightarrow> order_row option \<Rightarrow> job option option \<Rightarrow>
   ('q, ensure_result) io" where
  "ensureLiveReservationQueued ops env live durable targetedJob =
     io_bind (io_lift (buildOrdersJobId (SALE_ID env) (e_userId live))) (\<lambda>jobId.
     io_bind (case targetedJob of None \<Rightarrow> q_getJob ops jobId | Some j \<Rightarrow> io_return j) (\<lambda>current.
       case current of
         None \<Rightarrow> enqueueLiveReservation ops env live jobId
       | Some job \<Rightarrow>
           io_bind (q_getState ops job) (\<lambda>state.
             case classifyQueueEntry job of
               Issue _ \<Rightarrow> io_return RETAINED_COLLISION
             | Entry q \<Rightarrow>
                 let again = (\<lambda>_. if targetedJob = None then enqueueAfterRemoval ops env live jobId
                                  else enqueueLiveReservation ops env live jobId)
                 in if p_reservationId q = e_reservationId live then
                      (if state \<in> set live_states then io_return ALREADY_COVERED
                       else if (case durable of None \<Rightarrow> False | Some r \<Rightarrow>
                                  or_id r = e_reservationId live \<and> or_status r = Persisted)
                       then io_return DURABLY_SATISFIED
                       else if state \<noteq> Job_completed then io_return RETAINED_COLLISION
                       else io_bind (q_remove ops job) again)
                    else if state = Job_active then io_return RETAINED_COLLISION
                    else if state \<notin> {Job_waiting, Job_delayed, Job_failed, Job_completed}
                         \<or> (case durable of None \<Rightarrow> True | Some r \<Rightarrow>
                              or_id r \<noteq> p_reservationId q \<or> or_status r \<notin> {Persisted, Compensated})
                    then io_return RETAINED_COLLISION
                    else io_bind (q_remove ops job) again)))"

section \<open>What the worker relies on\<close>

text \<open>
  The documented behaviour of the queue, over the contents it holds: one job per identifier; a
  lookup or a state query changes nothing; adding under an identifier in use is ignored; a removal
  removes that job or fails. A method that throws has taken effect or not.
\<close>

type_synonym 'q contents = "'q \<Rightarrow> string \<Rightarrow> (job \<times> job_state) option"

definition added_job :: "string \<Rightarrow> js_value \<Rightarrow> string \<Rightarrow> int \<Rightarrow> job \<Rightarrow> bool" where
  "added_job n d i a j \<longleftrightarrow> j_id j = Some i \<and> j_name j = n \<and> j_data j = d \<and> j_attempts j = Some a"

definition queue_laws :: "'q bullmq \<Rightarrow> 'q contents \<Rightarrow> bool" where
  "queue_laws ops contents \<longleftrightarrow>
     (\<forall>q i j st. contents q i = Some (j, st) \<longrightarrow> j_id j = Some i)
     \<and> (\<forall>q i r q'. q_getJob ops i q = (r, q') \<longrightarrow>
          q' = q \<and> (\<forall>x. r = Inr x \<longrightarrow> x = map_option fst (contents q i)))
     \<and> (\<forall>q j r q'. q_getState ops j q = (r, q') \<longrightarrow>
          q' = q \<and> (\<forall>st i st0. r = Inr st \<longrightarrow> contents q i = Some (j, st0) \<longrightarrow> st = st0))
     \<and> (\<forall>q n d i a r q'. q_add ops n d i a q = (r, q') \<longrightarrow>
          (if contents q i \<noteq> None then contents q' = contents q
           else (\<exists>j. added_job n d i a j \<and> (r = Inr j \<or> (\<exists>e. r = Inl e))
                   \<and> contents q' = (contents q)(i \<mapsto> (j, Job_waiting)))
                \<or> (\<exists>e. r = Inl e) \<and> contents q' = contents q))
     \<and> (\<forall>q i j st r q'. contents q i = Some (j, st) \<longrightarrow> q_remove ops j q = (r, q') \<longrightarrow>
          contents q' = (contents q)(i := None) \<or> (\<exists>e. r = Inl e) \<and> contents q' = contents q)"

lemma queue_lawsD:
  assumes "queue_laws ops contents"
  shows "contents q i = Some (j, st) \<Longrightarrow> j_id j = Some i"
    and "q_getJob ops i q = (r, q') \<Longrightarrow> q' = q"
    and "q_getJob ops i q = (Inr x, q') \<Longrightarrow> x = map_option fst (contents q i)"
    and "q_getState ops j q = (r', q') \<Longrightarrow> q' = q"
    and "q_getState ops j q = (Inr st, q') \<Longrightarrow> contents q i = Some (j, st0) \<Longrightarrow> st = st0"
    and "q_add ops n d i a q = (Inr j, q') \<Longrightarrow> contents q i = None \<Longrightarrow>
      added_job n d i a j \<and> contents q' = (contents q)(i \<mapsto> (j, Job_waiting))"
    and "contents q i = Some (j, st) \<Longrightarrow> q_remove ops j q = (Inr u, q') \<Longrightarrow>
      contents q' = (contents q)(i := None)"
proof -
  note laws = assms [unfolded queue_laws_def]
  note l1 = laws [THEN conjunct1, rule_format]
  note l2 = laws [THEN conjunct2, THEN conjunct1, rule_format]
  note l3 = laws [THEN conjunct2, THEN conjunct2, THEN conjunct1, rule_format]
  note l4 = laws [THEN conjunct2, THEN conjunct2, THEN conjunct2, THEN conjunct1, rule_format]
  note l5 = laws [THEN conjunct2, THEN conjunct2, THEN conjunct2, THEN conjunct2, rule_format]
  show "contents q i = Some (j, st) \<Longrightarrow> j_id j = Some i" by (rule l1)
  show "q_getJob ops i q = (r, q') \<Longrightarrow> q' = q" by (rule l2 [THEN conjunct1])
  show "q_getJob ops i q = (Inr x, q') \<Longrightarrow> x = map_option fst (contents q i)"
    by (rule l2 [THEN conjunct2, rule_format, OF _ refl])
  show "q_getState ops j q = (r', q') \<Longrightarrow> q' = q" by (rule l3 [THEN conjunct1])
  show "q_getState ops j q = (Inr st, q') \<Longrightarrow> contents q i = Some (j, st0) \<Longrightarrow> st = st0"
    by (rule l3 [THEN conjunct2, rule_format, OF _ refl])
  show "q_add ops n d i a q = (Inr j, q') \<Longrightarrow> contents q i = None \<Longrightarrow>
      added_job n d i a j \<and> contents q' = (contents q)(i \<mapsto> (j, Job_waiting))"
    using l4 [of n d i a q "Inr j" q'] by auto
  show "contents q i = Some (j, st) \<Longrightarrow> q_remove ops j q = (Inr u, q') \<Longrightarrow>
      contents q' = (contents q)(i := None)"
    using l5 [of q i j st "Inr u" q'] by auto
qed

text \<open>A job under \<open>jobId\<close> that will persist the live reservation.\<close>

definition covers :: "(job \<times> job_state) option \<Rightarrow> string \<Rightarrow> bool" where
  "covers slot rid \<longleftrightarrow> (\<exists>job st payload. slot = Some (job, st) \<and> st \<in> set live_states
     \<and> classifyQueueEntry job = Entry payload \<and> p_reservationId payload = rid)"

section \<open>A queue in memory\<close>

record mem_queue =
  mq_jobs :: "(string \<times> job \<times> job_state) list"
  mq_paused :: bool

definition mem_contents :: "mem_queue contents" where
  "mem_contents q i = (case map_of (mq_jobs q) i of
     Some (j, st) \<Rightarrow> if j_id j = Some i then Some (j, st) else None | None \<Rightarrow> None)"

definition mem_get_state :: "job \<Rightarrow> (mem_queue, job_state) io" where
  "mem_get_state j q = (Inr (case j_id j of None \<Rightarrow> Job_other | Some i \<Rightarrow>
     (case mem_contents q i of None \<Rightarrow> Job_other | Some (_, st) \<Rightarrow> st)), q)"

definition mem_add :: "string \<Rightarrow> js_value \<Rightarrow> string \<Rightarrow> int \<Rightarrow> (mem_queue, job) io" where
  "mem_add n d i a q =
     (let j = \<lparr>j_id = Some i, j_name = n, j_data = d, j_attempts = Some a, j_attemptsMade = 0,
               j_failedReason = [], j_stalledCounter = 0\<rparr>
      in (Inr j, if mem_contents q i \<noteq> None then q
                 else q\<lparr>mq_jobs := AList.update i (j, Job_waiting) (mq_jobs q)\<rparr>))"

definition mem_remove :: "job \<Rightarrow> (mem_queue, unit) io" where
  "mem_remove j q =
     (case j_id j of
        None \<Rightarrow> (Inl (GenericError ''job not found''), q)
      | Some i \<Rightarrow>
          (case mem_contents q i of
             Some (_, Job_active) \<Rightarrow> (Inl (GenericError ''job is locked''), q)
           | _ \<Rightarrow> (Inr (), q\<lparr>mq_jobs := AList.delete i (mq_jobs q)\<rparr>)))"

definition mem_in_state :: "job_state \<Rightarrow> mem_queue \<Rightarrow> job list" where
  "mem_in_state st q = map (\<lambda>(i, j, s). j) (filter (\<lambda>(i, j, s). s = st) (mq_jobs q))"

definition mem_ops :: "mem_queue bullmq" where
  "mem_ops = \<lparr>q_getJob = (\<lambda>i q. (Inr (map_option fst (mem_contents q i)), q)), q_getState = mem_get_state,
     q_add = mem_add, q_remove = mem_remove,
     q_getJobs = (\<lambda>st a b q. (Inr (map Some (take (Suc b - a) (drop a (mem_in_state st q)))), q)),
     q_getFailedCount = (\<lambda>q. (Inr (length (mem_in_state Job_failed q)), q)),
     q_getActiveCount = (\<lambda>q. (Inr (length (mem_in_state Job_active q)), q)),
     q_getJobCounts = (\<lambda>q. (Inr (length (mem_in_state Job_active q), length (mem_in_state Job_failed q)), q)),
     q_pause = (\<lambda>q. (Inr (), q\<lparr>mq_paused := True\<rparr>)), q_resume = (\<lambda>q. (Inr (), q\<lparr>mq_paused := False\<rparr>)),
     q_isPaused = (\<lambda>q. (Inr (mq_paused q), q))\<rparr>"

lemma mem_contents_update:
  "j_id j = Some i \<Longrightarrow> mem_contents (q\<lparr>mq_jobs := AList.update i (j, st) (mq_jobs q)\<rparr>)
     = (mem_contents q)(i \<mapsto> (j, st))"
  "mem_contents (q\<lparr>mq_jobs := AList.delete i (mq_jobs q)\<rparr>) = (mem_contents q)(i := None)"
  by (auto simp: mem_contents_def fun_eq_iff AList.update_conv' AList.delete_conv')

lemma mem_contents_id: "mem_contents q i = Some (j, st) \<Longrightarrow> j_id j = Some i"
  by (auto simp: mem_contents_def split: option.splits if_splits)

lemma mem_queue_laws: "queue_laws mem_ops mem_contents"
proof -
  show ?thesis
    unfolding queue_laws_def
  proof (intro conjI allI impI)
    show "j_id j = Some i" if "mem_contents q i = Some (j, st)" for q i j st
      using that by (rule mem_contents_id)
    show "q' = q" if "q_getJob mem_ops i q = (r, q')" for q i r q' using that by (simp add: mem_ops_def)
    show "x = map_option fst (mem_contents q i)" if "q_getJob mem_ops i q = (r, q')" "r = Inr x" for q i r q' x
      using that by (auto simp: mem_ops_def)
    show "q' = q" if "q_getState mem_ops j q = (r, q')" for q j r q'
      using that by (simp add: mem_ops_def mem_get_state_def)
    show "st = st0" if "q_getState mem_ops j q = (r, q')" "r = Inr st" "mem_contents q i = Some (j, st0)"
      for q j r q' st i st0
      using that mem_contents_id [OF that(3)] by (simp add: mem_ops_def mem_get_state_def)
    show "if mem_contents q i \<noteq> None then mem_contents q' = mem_contents q
       else (\<exists>j. added_job n d i a j \<and> (r = Inr j \<or> (\<exists>e. r = Inl e))
               \<and> mem_contents q' = (mem_contents q)(i \<mapsto> (j, Job_waiting)))
            \<or> (\<exists>e. r = Inl e) \<and> mem_contents q' = mem_contents q"
      if "q_add mem_ops n d i a q = (r, q')" for q n d i a r q'
      using that by (auto simp: mem_ops_def mem_add_def Let_def added_job_def mem_contents_update)
    show "mem_contents q' = (mem_contents q)(i := None) \<or> (\<exists>e. r = Inl e) \<and> mem_contents q' = mem_contents q"
      if "mem_contents q i = Some (j, st)" "q_remove mem_ops j q = (r, q')" for q i j st r q'
      using that mem_contents_id [OF that(1)]
      by (cases st) (auto simp: mem_ops_def mem_remove_def mem_contents_update)
  qed
qed

section \<open>Processor and classification agree\<close>

text \<open>
  The processor and the reconciler accept the same jobs. A job that the reconciler classifies as
  an entry is processed exactly by the persist transaction of its payload; a job it classifies as
  an issue is refused by the processor before anything is read or written.
\<close>

lemma processor_agrees_with_classification:
  "case classifyQueueEntry job of
     Entry p \<Rightarrow> process_order now job w = io_bind (persist now p) (\<lambda>_. io_return ()) w
   | Issue _ \<Rightarrow> (\<exists>e. process_order now job w = (Inl e, w))"
proof (cases "assertOrdersQueueJobPayload (j_data job)")
  case (Inl e)
  then show ?thesis by (simp add: classifyQueueEntry_def process_order_def)
next
  case (Inr p)
  then show ?thesis
    by (cases "buildOrdersJobId (p_saleId p) (p_userId p)")
      (simp_all add: classifyQueueEntry_def process_order_def)
qed

text \<open>A job that classifies as an entry is persisted by one run of the processor on a free row.\<close>

lemma process_entry_persists:
  assumes "classifyQueueEntry job = Entry p" and "enlisted p (w_pg w)"
    and "find_user (p_userId p) (pg_orders (w_pg w)) = None" and "pg_fates (w_pg w) = []"
  shows "\<exists>w'. process_order now job w = (Inr (), w')
     \<and> find_user (p_userId p) (pg_orders (w_pg w')) = Some (persisted_row now p)"
  using processor_agrees_with_classification [where job = job and now = now and w = w] persist_fresh [OF assms(2-4), of now] assms
  by (simp add: find_user_append)

text \<open>
  A job is swept only when no attempt of it can follow. The eligibility test answers yes
  exactly for a well-formed entry in the failed state whose attempts are used up or which stalled
  more often than the worker allows, and it changes nothing.
\<close>

lemma terminal_eligibility:
  assumes laws: "queue_laws ops contents" and job: "contents q i = Some (job, st)"
    and ask: "isTerminalFailedJobEligible ops job q = (Inr answer, q')"
  shows "q' = q \<and> (answer \<longleftrightarrow> st = Job_failed \<and> (\<exists>p. classifyQueueEntry job = Entry p)
     \<and> (5 \<le> j_attemptsMade job
        \<or> j_failedReason job = ''job stalled more than allowable limit'' \<and> 2 < j_stalledCounter job))"
proof -
  obtain r q1 where st: "q_getState ops job q = (r, q1)" by (cases "q_getState ops job q")
  obtain s where r: "r = Inr s" using ask st by (cases r) (auto simp: isTerminalFailedJobEligible_def)
  have q1: "q1 = q" using queue_lawsD(4) [OF laws] st by blast
  have s: "s = st" using queue_lawsD(5) [OF laws _ job] st r by blast
  have ans: "answer = (if st \<noteq> Job_failed then False
      else if j_name job \<noteq> PERSIST_ORDER_JOB_NAME then False
      else (case assertOrdersQueueJobPayload (j_data job) of
              Inl _ \<Rightarrow> False
            | Inr payload \<Rightarrow>
                if map_option Inr (j_id job) \<noteq> Some (buildOrdersJobId (p_saleId payload) (p_userId payload))
                then False
                else if j_attempts job \<noteq> Some ORDERS_JOB_ATTEMPTS then False
                else retry_exhausted job \<or> max_stalled job))" and "q' = q"
    using ask st q1 r s by (simp_all add: isTerminalFailedJobEligible_def)
  have "(\<exists>p. classifyQueueEntry job = Entry p) \<longleftrightarrow> j_name job = PERSIST_ORDER_JOB_NAME
     \<and> (\<exists>p. assertOrdersQueueJobPayload (j_data job) = Inr p
          \<and> map_option Inr (j_id job) = Some (buildOrdersJobId (p_saleId p) (p_userId p))
          \<and> j_attempts job = Some ORDERS_JOB_ATTEMPTS)"
    by (cases "j_id job") (auto simp: classifyQueueEntry_def split: sum.splits)
  moreover have "retry_exhausted job \<or> max_stalled job \<longleftrightarrow> 5 \<le> j_attemptsMade job
        \<or> j_failedReason job = ''job stalled more than allowable limit'' \<and> 2 < j_stalledCounter job"
    by (simp add: retry_exhausted_def max_stalled_def ORDERS_JOB_ATTEMPTS_def
        ORDERS_MAX_STALLED_COUNT_def BULLMQ_MAX_STALLED_FAILED_REASON_def)
  ultimately show ?thesis using \<open>q' = q\<close> unfolding ans
    by (cases "assertOrdersQueueJobPayload (j_data job)") simp_all
qed

section \<open>A live reservation is covered\<close>

lemma added_job_covers:
  assumes "valid_payload p" and "added_job PERSIST_ORDER_JOB_NAME (payload_value p) i ORDERS_JOB_ATTEMPTS j"
    and "buildOrdersJobId (p_saleId p) (p_userId p) = Inr i"
  shows "classifyQueueEntry j = Entry p"
  using assms payload_check_value [of p] by (simp add: classifyQueueEntry_def added_job_def)

lemma q_add_effect:
  assumes laws: "queue_laws ops contents" and valid: "valid_payload p"
    and id: "buildOrdersJobId (p_saleId p) (p_userId p) = Inr i"
    and run: "q_add ops PERSIST_ORDER_JOB_NAME (payload_value p) i ORDERS_JOB_ATTEMPTS q = (r, q')"
  shows "contents q' = contents q \<or> contents q i = None
     \<and> (\<exists>job. contents q' = (contents q)(i \<mapsto> (job, Job_waiting)) \<and> classifyQueueEntry job = Entry p)"
proof -
  note add = laws [unfolded queue_laws_def, THEN conjunct2, THEN conjunct2, THEN conjunct2, THEN conjunct1, rule_format, OF run]
  show ?thesis
    using add added_job_covers [OF valid _ id] by (auto split: if_splits)
qed

lemma live_enqueued:
  assumes laws: "queue_laws ops contents" and valid: "valid_payload (live_payload env live)"
    and id: "buildOrdersJobId (SALE_ID env) (e_userId live) = Inr i" and free: "contents q i = None"
    and run: "enqueueLiveReservation ops env live i q = (Inr res, q')"
  shows "\<exists>j. res = ENQUEUED \<and> contents q' = (contents q)(i \<mapsto> (j, Job_waiting))
     \<and> classifyQueueEntry j = Entry (live_payload env live)"
proof -
  let ?p = "live_payload env live"
  have p: "assertOrdersQueueJobPayload (payload_value ?p) = Inr ?p" using payload_check_value valid by blast
  obtain r q1 where add: "q_add ops PERSIST_ORDER_JOB_NAME (payload_value ?p) i ORDERS_JOB_ATTEMPTS q = (r, q1)"
    by (cases "q_add ops PERSIST_ORDER_JOB_NAME (payload_value ?p) i ORDERS_JOB_ATTEMPTS q")
  obtain j where r: "r = Inr j" using run p add by (cases r) (auto simp: enqueueLiveReservation_def)
  have added: "added_job PERSIST_ORDER_JOB_NAME (payload_value ?p) i ORDERS_JOB_ATTEMPTS j"
    and contents: "contents q1 = (contents q)(i \<mapsto> (j, Job_waiting))"
    using queue_lawsD(6) [OF laws add [unfolded r] free] by simp_all
  have "classifyQueueEntry j = Entry ?p"
    by (rule added_job_covers [OF valid added]) (simp add: live_payload_def id)
  moreover from this have "res = ENQUEUED \<and> q' = q1"
    using run p add r by (simp add: enqueueLiveReservation_def)
  ultimately show ?thesis using contents by blast
qed

lemma enqueue_covers:
  assumes laws: "queue_laws ops contents" and valid: "valid_payload (live_payload env live)"
    and id: "buildOrdersJobId (SALE_ID env) (e_userId live) = Inr i" and free: "contents q i = None"
    and run: "enqueueLiveReservation ops env live i q = (Inr res, q')"
  shows "res = ENQUEUED \<and> covers (contents q' i) (e_reservationId live)
     \<and> (\<forall>k. k \<noteq> i \<longrightarrow> contents q' k = contents q k)"
  using live_enqueued [OF assms] by (auto simp: covers_def live_states_def live_payload_def)

lemma enqueue_after_removal_covers:
  assumes laws: "queue_laws ops contents" and valid: "valid_payload (live_payload env live)"
    and id: "buildOrdersJobId (SALE_ID env) (e_userId live) = Inr i" and free: "contents q i = None"
    and run: "enqueueAfterRemoval ops env live i q = (Inr res, q')"
  shows "res = ENQUEUED \<and> covers (contents q' i) (e_reservationId live)
     \<and> (\<forall>k. k \<noteq> i \<longrightarrow> contents q' k = contents q k)"
proof -
  obtain r q1 where get: "q_getJob ops i q = (r, q1)" by (cases "q_getJob ops i q")
  obtain x where r: "r = Inr x" using run get by (cases r) (auto simp: enqueueAfterRemoval_def)
  have "x = None" "q1 = q" using queue_lawsD(2,3) [OF laws] get r free by fastforce+
  then have "enqueueLiveReservation ops env live i q = (Inr res, q')"
    using run get r by (simp add: enqueueAfterRemoval_def)
  from enqueue_covers [OF laws valid id free this] show ?thesis .
qed

text \<open>When the reconciler may replace the job in the slot.\<close>

definition replaceable :: "reservation_entry \<Rightarrow> order_row option \<Rightarrow> job \<Rightarrow> job_state \<Rightarrow> bool" where
  "replaceable live durable job st \<longleftrightarrow> st \<noteq> Job_active \<and> (\<exists>p. classifyQueueEntry job = Entry p
     \<and> (if p_reservationId p = e_reservationId live then st = Job_completed
        else \<exists>r. durable = Some r \<and> or_id r = p_reservationId p \<and> or_status r \<in> {Persisted, Compensated}))"

definition held_by :: "order_row option \<Rightarrow> string \<Rightarrow> bool" where
  "held_by durable rid \<longleftrightarrow> (\<exists>r. durable = Some r \<and> or_id r = rid \<and> or_status r = Persisted)"

text \<open>
  A filled slot. Either the queue is left alone, and the answer says why, or the job in the slot is
  replaceable and the rest of the check is its removal and the new enqueue.
\<close>

lemma ensure_on_filled_slot:
  assumes laws: "queue_laws ops contents" and id: "buildOrdersJobId (SALE_ID env) (e_userId live) = Inr i"
    and slot: "contents q i = Some (job, st)"
    and run: "ensureLiveReservationQueued ops env live durable None q = (Inr res, q')"
  shows "q' = q \<and> (res = ALREADY_COVERED \<and> covers (contents q i) (e_reservationId live)
         \<or> res = DURABLY_SATISFIED \<and> held_by durable (e_reservationId live) \<or> res = RETAINED_COLLISION)
     \<or> replaceable live durable job st
       \<and> io_bind (q_remove ops job) (\<lambda>_. enqueueAfterRemoval ops env live i) q = (Inr res, q')"
proof -
  note ensure = run [unfolded ensureLiveReservationQueued_def]
  obtain x q1 where get: "q_getJob ops i q = (Inr x, q1)" using ensure id by (auto simp: io_bind_Inr)
  have x: "x = Some job" "q1 = q"
    using queue_lawsD(3) [OF laws get] queue_lawsD(2) [OF laws get] slot by simp_all
  obtain s q2 where ask: "q_getState ops job q = (Inr s, q2)" using ensure id get x by (auto simp: io_bind_Inr)
  have s: "s = st" "q2 = q" using queue_lawsD(5) [OF laws ask slot] queue_lawsD(4) [OF laws ask] by simp_all
  note step = ensure id get x slot ask s
  show ?thesis
  proof (cases "classifyQueueEntry job")
    case (Issue c)
    then show ?thesis using step by simp
  next
    case (Entry p)
    show ?thesis
    proof (cases "p_reservationId p = e_reservationId live")
      case True
      then show ?thesis using step Entry
        by (cases st) (auto simp: covers_def held_by_def replaceable_def live_states_def split: option.splits if_splits)
    next
      case False
      then show ?thesis using step Entry
        by (cases st) (auto simp: replaceable_def split: option.splits if_splits)
    qed
  qed
qed

lemma replacement_covers:
  assumes laws: "queue_laws ops contents" and valid: "valid_payload (live_payload env live)"
    and id: "buildOrdersJobId (SALE_ID env) (e_userId live) = Inr i" and slot: "contents q i = Some (job, st)"
    and run: "io_bind (q_remove ops job) (\<lambda>_. enqueueAfterRemoval ops env live i) q = (Inr res, q')"
  shows "res = ENQUEUED \<and> covers (contents q' i) (e_reservationId live)
     \<and> (\<forall>k. k \<noteq> i \<longrightarrow> contents q' k = contents q k)"
proof -
  obtain u q1 where r: "q_remove ops job q = (Inr u, q1)" "enqueueAfterRemoval ops env live i q1 = (Inr res, q')"
    using run by (auto simp: io_bind_Inr)
  have c: "contents q1 = (contents q)(i := None)" by (rule queue_lawsD(7) [OF laws slot r(1)])
  then have "contents q1 i = None" by simp
  from enqueue_after_removal_covers [OF laws valid id this r(2)] c show ?thesis by simp
qed

lemma ensure_on_free_slot:
  assumes laws: "queue_laws ops contents" and id: "buildOrdersJobId (SALE_ID env) (e_userId live) = Inr i"
    and free: "contents q i = None"
    and run: "ensureLiveReservationQueued ops env live durable None q = (Inr res, q')"
  shows "enqueueLiveReservation ops env live i q = (Inr res, q')"
proof -
  note ensure = run [unfolded ensureLiveReservationQueued_def]
  obtain x q1 where get: "q_getJob ops i q = (Inr x, q1)" using ensure id by (auto simp: io_bind_Inr)
  have "x = None" "q1 = q" using queue_lawsD(3) [OF laws get] queue_lawsD(2) [OF laws get] free by simp_all
  then show ?thesis using ensure id get by simp
qed

text \<open>
  C14: reconciliation covers a live reservation without losing another. When the check returns, it
  has left a job in a live state that will persist exactly this reservation, or found the order
  persisted, or reports a collision and leaves the queue as it was. A job already in the slot is
  replaced only when it is not active and its own reservation is settled in the tables, or it is
  a completed job of this reservation; no other slot changes.
\<close>

theorem live_reservation_covered:
  assumes laws: "queue_laws ops contents" and valid: "valid_payload (live_payload env live)"
    and id: "buildOrdersJobId (SALE_ID env) (e_userId live) = Inr i"
    and run: "ensureLiveReservationQueued ops env live durable None q = (Inr res, q')"
  shows "(res \<in> {ENQUEUED, ALREADY_COVERED} \<longrightarrow> covers (contents q' i) (e_reservationId live))
     \<and> (res = DURABLY_SATISFIED \<longrightarrow>
          (\<exists>r. durable = Some r \<and> or_id r = e_reservationId live \<and> or_status r = Persisted))
     \<and> (res \<noteq> ENQUEUED \<longrightarrow> contents q' = contents q)
     \<and> (\<forall>k. k \<noteq> i \<longrightarrow> contents q' k = contents q k)
     \<and> (\<forall>job st. contents q i = Some (job, st) \<and> contents q' i \<noteq> contents q i \<longrightarrow>
          replaceable live durable job st)"
proof (cases "contents q i")
  case None
  from enqueue_covers [OF laws valid id None ensure_on_free_slot [OF laws id None run]] None show ?thesis by simp
next
  case (Some slot)
  then obtain job st where slot: "contents q i = Some (job, st)" by (cases slot) simp
  from ensure_on_filled_slot [OF laws id slot run] show ?thesis
  proof (elim disjE conjE)
    assume "replaceable live durable job st"
      and "io_bind (q_remove ops job) (\<lambda>_. enqueueAfterRemoval ops env live i) q = (Inr res, q')"
    with replacement_covers [OF laws valid id slot] slot show ?thesis by fastforce
  qed (auto simp: held_by_def)
qed

section \<open>Sample queue\<close>

definition sample_env :: worker_env where
  "sample_env = \<lparr>SALE_ID = ''flash-2026'', SALE_NAME = ''Flash'', SALE_TOTAL_STOCK = 1,
     SALE_STARTS_AT = ''t0'', SALE_ENDS_AT = ''t1'', RECONCILE_SCAN_COUNT = 2, DLQ_SCAN_COUNT = 2\<rparr>"

definition sample_live :: reservation_entry where
  "sample_live = \<lparr>e_userId = ''alice'', e_reservationId = sample_uuid CHR ''a'', e_reservedAtMs = Some 2000\<rparr>"

definition sample_job :: job where
  "sample_job = \<lparr>j_id = Some ''flash-2026-alice'', j_name = ''persist-order'',
     j_data = payload_value (sample_payload ''alice'' CHR ''a''), j_attempts = Some 5, j_attemptsMade = 5,
     j_failedReason = ''database down'', j_stalledCounter = 0\<rparr>"

definition sample_queue :: "job_state \<Rightarrow> mem_queue" where
  "sample_queue st = \<lparr>mq_jobs = [(''flash-2026-alice'', sample_job, st)], mq_paused = False\<rparr>"

lemma sample_queue_contents:
  "mem_contents (sample_queue st) ''flash-2026-alice'' = Some (sample_job, st)"
  by (simp add: mem_contents_def sample_queue_def sample_job_def)

lemma sample_job_entry: "classifyQueueEntry sample_job = Entry (sample_payload ''alice'' CHR ''a'')"
proof (rule added_job_covers [where i = "''flash-2026-alice''"])
  show "valid_payload (sample_payload ''alice'' CHR ''a'')" by (rule sample_payload_valid)
  show "added_job PERSIST_ORDER_JOB_NAME (payload_value (sample_payload ''alice'' CHR ''a''))
     ''flash-2026-alice'' ORDERS_JOB_ATTEMPTS sample_job"
    by (simp add: added_job_def sample_job_def PERSIST_ORDER_JOB_NAME_def ORDERS_JOB_ATTEMPTS_def)
  show "buildOrdersJobId (p_saleId (sample_payload ''alice'' CHR ''a'')) (p_userId (sample_payload ''alice'' CHR ''a''))
     = Inr ''flash-2026-alice''"
    by code_simp
qed

theorem live_reservation_covered_witness:
  "\<exists>q'. ensureLiveReservationQueued mem_ops sample_env sample_live None None (sample_queue Job_completed)
       = (Inr ENQUEUED, q')
     \<and> covers (mem_contents q' ''flash-2026-alice'') (sample_uuid CHR ''a'')
     \<and> replaceable sample_live None sample_job Job_completed"
proof -
  let ?q = "sample_queue Job_completed" and ?i = "''flash-2026-alice''"
  have valid: "valid_payload (live_payload sample_env sample_live)" by code_simp
  have id: "buildOrdersJobId (SALE_ID sample_env) (e_userId sample_live) = Inr ?i" by code_simp
  have rid: "p_reservationId (sample_payload ''alice'' CHR ''a'') = e_reservationId sample_live"
    "e_reservationId sample_live = sample_uuid CHR ''a''" by (simp_all add: sample_payload_def sample_live_def)
  have jid: "j_id sample_job = Some ?i" by (simp add: sample_job_def)
  obtain q1 where q1: "mem_remove sample_job ?q = (Inr (), q1)" "mem_contents q1 ?i = None"
    by (simp add: mem_remove_def jid sample_queue_contents mem_contents_update)
  have p: "assertOrdersQueueJobPayload (payload_value (live_payload sample_env sample_live))
      = Inr (live_payload sample_env sample_live)" using payload_check_value valid by blast
  have new: "classifyQueueEntry \<lparr>j_id = Some ?i, j_name = PERSIST_ORDER_JOB_NAME,
      j_data = payload_value (live_payload sample_env sample_live), j_attempts = Some ORDERS_JOB_ATTEMPTS,
      j_attemptsMade = 0, j_failedReason = [], j_stalledCounter = 0\<rparr> = Entry (live_payload sample_env sample_live)"
    by (rule added_job_covers [OF valid, where i = ?i]) (simp_all add: added_job_def live_payload_def id)
  obtain res q' where run: "ensureLiveReservationQueued mem_ops sample_env sample_live None None ?q = (Inr res, q')"
    and "res = ENQUEUED"
    by (simp add: new ensureLiveReservationQueued_def id io_bind_def sample_queue_contents mem_ops_def
        mem_get_state_def jid sample_job_entry rid live_states_def q1 enqueueAfterRemoval_def
        enqueueLiveReservation_def p mem_add_def Let_def)
  note cov = live_reservation_covered [OF mem_queue_laws valid id run]
  have "replaceable sample_live None sample_job Job_completed"
    by (simp add: replaceable_def sample_job_entry rid)
  with cov run \<open>res = ENQUEUED\<close> rid show ?thesis by simp
qed

end
