(* ===== verification/Reconciliation.thy ===== *)
theory Reconciliation
  imports Orders_Queue
begin

text \<open>
  The repair pass of apps/worker/src/reconciliation/reconciliation.service.ts: the scans of the
  tables, the queue and the ledger, the restoration of ledger entries, the adjudication of buyers
  without an entry, the sweep of failed jobs, the pass as a whole, the boot pass, and the health
  flags it keeps. Abort checkpoints are left out: they only cut a pass short by an exception.
\<close>

section \<open>State of the service\<close>

record reconciliation_state =
  bootstrapReconciled :: bool
  consumerReady :: bool
  reconciliationHealthy :: bool
  lastReconciledAt :: "int option"
  lastDlqSweepAt :: "int option"
  activeJobs :: nat
  failedJobs :: nat
  retainedQueueEntries :: nat
  reconciliationFailureConfirmed :: bool

definition createReconciliationState :: reconciliation_state where
  "createReconciliationState = \<lparr>bootstrapReconciled = False, consumerReady = False,
     reconciliationHealthy = False, lastReconciledAt = None, lastDlqSweepAt = None, activeJobs = 0,
     failedJobs = 0, retainedQueueEntries = 0, reconciliationFailureConfirmed = False\<rparr>"

text \<open>The worker's own memory: the shared health state and the offset of the failed-job scan.\<close>

record 'q worker =
  wk_world :: "'q world"
  wk_state :: reconciliation_state
  wk_failedScanOffset :: nat

definition in_world :: "('q world, 'a) io \<Rightarrow> ('q worker, 'a) io" where
  "in_world = io_part wk_world (\<lambda>w k. k\<lparr>wk_world := w\<rparr>)"

definition set_state :: "(reconciliation_state \<Rightarrow> reconciliation_state) \<Rightarrow> ('q worker, unit) io" where
  "set_state f k = (Inr (), k\<lparr>wk_state := f (wk_state k)\<rparr>)"

definition set_offset :: "nat \<Rightarrow> ('q worker, unit) io" where
  "set_offset n k = (Inr (), k\<lparr>wk_failedScanOffset := n\<rparr>)"

section \<open>Scans\<close>

text \<open>
  Paged reads. Each loop reads pages until one is short, so a table or list of \<open>n\<close> rows takes
  \<open>n div count + 1\<close> pages; the fuel given is one more than the rows.
\<close>

fun scan_pages :: "nat \<Rightarrow> nat \<Rightarrow> nat \<Rightarrow> (nat \<Rightarrow> ('s, 'a list) io) \<Rightarrow> ('s, 'a list) io" where
  "scan_pages 0 count offset page = io_throw (GenericError ''scan did not end'')"
| "scan_pages (Suc fuel) count offset page =
     io_bind (page offset) (\<lambda>rows.
       if length rows < count then io_return rows
       else io_bind (scan_pages fuel count (offset + count) page) (\<lambda>rest. io_return (rows @ rest)))"

definition scanOrders :: "nat \<Rightarrow> (string \<Rightarrow> nat) \<Rightarrow> worker_env \<Rightarrow> ('q world, order_row list) io" where
  "scanOrders fuel collate env =
     scan_pages fuel (RECONCILE_SCAN_COUNT env) 0
       (\<lambda>offset. listSaleOrders collate env offset (RECONCILE_SCAN_COUNT env))"

record scanned_job =
  sj_job :: job
  sj_state :: job_state
  sj_payload :: orders_payload

fun classify_page ::
  "'q bullmq \<Rightarrow> job_state \<Rightarrow> job option list \<Rightarrow> ('q, scanned_job list \<times> nat) io" where
  "classify_page ops st [] = io_return ([], 0)"
| "classify_page ops st (None # rest) = classify_page ops st rest"
| "classify_page ops st (Some job # rest) =
     (case classifyQueueEntry job of
        Issue _ \<Rightarrow> io_bind (classify_page ops st rest) (\<lambda>(jobs, issues). io_return (jobs, Suc issues))
      | Entry payload \<Rightarrow>
          io_bind (if st = Job_failed then isTerminalFailedJobEligible ops job else io_return True)
            (\<lambda>eligible. io_bind (classify_page ops st rest) (\<lambda>(jobs, issues).
               io_return (if eligible
                 then (\<lparr>sj_job = job, sj_state = st, sj_payload = payload\<rparr> # jobs, issues)
                 else (jobs, Suc issues)))))"

fun scan_state :: "nat \<Rightarrow> 'q bullmq \<Rightarrow> nat \<Rightarrow> job_state \<Rightarrow> nat \<Rightarrow> ('q, scanned_job list \<times> nat) io" where
  "scan_state 0 ops count st start = io_throw (GenericError ''scan did not end'')"
| "scan_state (Suc fuel) ops count st start =
     io_bind (q_getJobs ops st start (start + count - 1)) (\<lambda>page.
     io_bind (classify_page ops st page) (\<lambda>(jobs, issues).
       if length page < count then io_return (jobs, issues)
       else io_bind (scan_state fuel ops count st (start + count)) (\<lambda>(jobs2, issues2).
         io_return (jobs @ jobs2, issues + issues2))))"

fun scan_states ::
  "nat \<Rightarrow> 'q bullmq \<Rightarrow> nat \<Rightarrow> job_state list \<Rightarrow> ('q, scanned_job list \<times> nat) io" where
  "scan_states fuel ops count [] = io_return ([], 0)"
| "scan_states fuel ops count (st # sts) =
     io_bind (scan_state fuel ops count st 0) (\<lambda>(jobs, issues).
     io_bind (scan_states fuel ops count sts) (\<lambda>(jobs2, issues2).
       io_return (jobs @ jobs2, issues + issues2)))"

definition scanJobs :: "nat \<Rightarrow> 'q bullmq \<Rightarrow> worker_env \<Rightarrow> ('q, scanned_job list \<times> nat) io" where
  "scanJobs fuel ops env = scan_states fuel ops (RECONCILE_SCAN_COUNT env) QUEUE_STATES"

fun scanLedger ::
  "nat \<Rightarrow> (string \<times> string) scan \<Rightarrow> worker_env \<Rightarrow> string \<Rightarrow> (redis_server, reservation_entry list) io" where
  "scanLedger 0 hscan env cursor = io_throw (GenericError ''scan did not end'')"
| "scanLedger (Suc fuel) hscan env cursor =
     io_bind (scanReservations hscan (SALE_ID env) cursor) (\<lambda>(cursor1, entries).
       if cursor1 = ''0'' then io_return entries
       else io_bind (scanLedger fuel hscan env cursor1) (\<lambda>rest. io_return (entries @ rest)))"

section \<open>Restoring and adjudicating\<close>

text \<open>
  \<open>byUser\<close> and \<open>ledgerByUser\<close> are maps keyed by user; incidents are counted, since the pass uses
  only whether there are any.
\<close>

type_synonym orders_map = "string \<rightharpoonup> order_row"
type_synonym ledger_map = "string \<rightharpoonup> reservation_entry"

datatype candidate_source = From_persisted | From_queue

definition applyRecoveryCandidate ::
  "'q bullmq \<Rightarrow> worker_env \<Rightarrow> compare_restore_input \<Rightarrow> candidate_source \<Rightarrow> orders_map \<Rightarrow>
   job option option \<Rightarrow> ('q world, nat) io" where
  "applyRecoveryCandidate ops env candidate source byUser targetedJob =
     io_bind (on_redis (compareAndRestoreReservation (SALE_ID env) (compare_restore_value candidate)))
       (\<lambda>(outcome, current).
         if outcome \<noteq> CONFLICT then io_return 0
         else if source = From_queue then
           (let durable = byUser (cr_userId candidate)
            in if (case durable of None \<Rightarrow> False | Some r \<Rightarrow>
                     or_status r = Compensated \<and> or_id r = cr_reservationId candidate)
               then io_return 0 else io_return 1)
         else if e_reservedAtMs current \<noteq> None then
           io_bind (on_queue (ensureLiveReservationQueued ops env current (byUser (cr_userId candidate)) targetedJob))
             (\<lambda>coverage. io_return (if coverage = RETAINED_COLLISION then 2 else 1))
         else io_return 1)"

definition resolveBuyerInspection ::
  "'q bullmq \<Rightarrow> worker_env \<Rightarrow> string \<Rightarrow> membership_inspection \<Rightarrow> ledger_map \<Rightarrow> order_row option \<Rightarrow>
   job option option \<Rightarrow> ('q world, ledger_map \<times> nat) io" where
  "resolveBuyerInspection ops env userId inspection ledgerByUser durable targetedJob =
     (case mi_outcome inspection of
        NEITHER \<Rightarrow> io_return (ledgerByUser, 0)
      | BUYER_ONLY \<Rightarrow> io_throw (GenericError ''unrecoverable buyer-only identity'')
      | _ \<Rightarrow>
          (case mi_reservation inspection of
             None \<Rightarrow> io_throw (GenericError ''reservation-bearing inspection omitted identity'')
           | Some entry \<Rightarrow>
               io_bind (on_queue (ensureLiveReservationQueued ops env entry durable targetedJob)) (\<lambda>coverage.
                 if coverage = RETAINED_COLLISION \<and> targetedJob \<noteq> None
                 then io_throw (GenericError ''unrecoverable buyer-only identity'')
                 else
                   let incidents = (if coverage = RETAINED_COLLISION then 1 else 0)
                   in if mi_outcome inspection = RESERVATION_ONLY
                      then io_bind (on_redis (reconcileBuyerMembership (SALE_ID env) userId)) (\<lambda>membership.
                        if membership \<noteq> PRESENT then io_throw (GenericError ''buyer membership repair failed'')
                        else io_return (ledgerByUser(userId \<mapsto> entry), incidents))
                      else io_return (ledgerByUser(userId \<mapsto> entry), incidents))))"

definition unrecoverable :: js_error where
  "unrecoverable = GenericError ''unrecoverable buyer-only identity''"

text \<open>The identity that decides a buyer without a ledger entry, from the row and the job in the slot.\<close>

datatype buyer_verdict =
    Restore_from compare_restore_input candidate_source
  | Drop_membership
  | No_identity

definition buyer_only_verdict ::
  "worker_env \<Rightarrow> string \<Rightarrow> order_row option \<Rightarrow> (orders_payload \<times> job_state) option \<Rightarrow> buyer_verdict" where
  "buyer_only_verdict env userId row classified =
     (let liveQueue = (case classified of Some (p, st) \<Rightarrow> if st \<in> set live_states then Some p else None
                       | None \<Rightarrow> None);
          persisted = (case row of Some r \<Rightarrow>
             if or_sale_id r = SALE_ID env \<and> or_status r = Persisted then Some r else None | None \<Rightarrow> None);
          queueCandidate = (case liveQueue of Some p \<Rightarrow>
             if p_saleId p = SALE_ID env \<and> p_userId p = userId then Some p else None | None \<Rightarrow> None)
      in case (persisted, queueCandidate) of
           (Some r, Some p) \<Rightarrow> if p_reservationId p \<noteq> or_id r then No_identity
             else Restore_from \<lparr>cr_userId = userId, cr_reservationId = or_id r,
                    cr_reservedAtMs = or_created_at_ms r\<rparr> From_persisted
         | (Some r, None) \<Rightarrow> Restore_from \<lparr>cr_userId = userId, cr_reservationId = or_id r,
                    cr_reservedAtMs = or_created_at_ms r\<rparr> From_persisted
         | (None, Some p) \<Rightarrow> Restore_from \<lparr>cr_userId = userId, cr_reservationId = p_reservationId p,
                    cr_reservedAtMs = p_reservedAtMs p\<rparr> From_queue
         | (None, None) \<Rightarrow>
             (case row of Some r \<Rightarrow>
                if or_sale_id r = SALE_ID env \<and> or_status r = Compensated then Drop_membership else No_identity
              | None \<Rightarrow> No_identity))"

definition adjudicateBuyerOnly ::
  "'q bullmq \<Rightarrow> worker_env \<Rightarrow> string \<Rightarrow> ledger_map \<Rightarrow> orders_map \<Rightarrow>
   ('q world, ledger_map \<times> orders_map \<times> nat) io" where
  "adjudicateBuyerOnly ops env userId ledgerByUser byUser =
     io_bind (getByUser userId) (\<lambda>row.
     io_bind (io_lift (buildOrdersJobId (SALE_ID env) userId)) (\<lambda>jobId.
     io_bind (on_queue (q_getJob ops jobId)) (\<lambda>targeted.
     io_bind (case targeted of
         None \<Rightarrow> io_return None
       | Some job \<Rightarrow> io_bind (on_queue (q_getState ops job)) (\<lambda>st.
           case classifyQueueEntry job of
             Issue _ \<Rightarrow> io_throw unrecoverable
           | Entry p \<Rightarrow> io_return (Some (p, st)))) (\<lambda>classified.
       let byUser1 = (case row of Some r \<Rightarrow> if or_sale_id r = SALE_ID env then byUser(userId \<mapsto> r) else byUser
                      | None \<Rightarrow> byUser)
       in io_bind
            (case buyer_only_verdict env userId row classified of
               Restore_from c From_persisted \<Rightarrow>
                 applyRecoveryCandidate ops env c From_persisted byUser1 (Some targeted)
             | Restore_from c From_queue \<Rightarrow> applyRecoveryCandidate ops env c From_queue byUser1 None
             | Drop_membership \<Rightarrow>
                 io_bind (on_redis (reconcileBuyerMembership (SALE_ID env) userId)) (\<lambda>membership.
                   if membership \<noteq> ABSENT then io_throw unrecoverable else io_return 0)
             | No_identity \<Rightarrow> io_throw unrecoverable) (\<lambda>incidents.
          io_bind (on_redis (inspectReservationMembership (SALE_ID env) userId)) (\<lambda>finalInspection.
          io_bind (resolveBuyerInspection ops env userId finalInspection ledgerByUser (byUser1 userId)
              (Some targeted)) (\<lambda>(ledger1, more).
            io_return (ledger1, byUser1, incidents + more))))))))"

section \<open>The sweep of failed jobs\<close>

record sweep_tally =
  tl_retained :: nat
  tl_removed :: nat
  tl_errors :: nat

definition sweep_eligible :: "job \<Rightarrow> job_state \<Rightarrow> bool" where
  "sweep_eligible job actualState \<longleftrightarrow>
     \<not> (actualState \<noteq> Job_failed \<or> j_attempts job \<noteq> Some ORDERS_JOB_ATTEMPTS
        \<or> (\<not> retry_exhausted job \<and> \<not> max_stalled job))"

text \<open>The body of the loop: an unexpected entry is retained, an error is collected, never rethrown.\<close>

definition sweep_job :: "'q bullmq \<Rightarrow> job \<Rightarrow> sweep_tally \<Rightarrow> ('q world, sweep_tally) io" where
  "sweep_job ops job tally =
     (case classifyQueueEntry job of
        Issue _ \<Rightarrow> io_return (tally\<lparr>tl_retained := Suc (tl_retained tally)\<rparr>)
      | Entry payload \<Rightarrow>
          io_catch
            (io_bind (on_queue (q_getState ops job)) (\<lambda>actualState.
               if \<not> sweep_eligible job actualState
               then io_return (tally\<lparr>tl_retained := Suc (tl_retained tally)\<rparr>)
               else io_bind (resolveFailed payload (compensate_payload payload)) (\<lambda>_.
                    io_bind (on_queue (q_remove ops job)) (\<lambda>_.
                      io_return (tally\<lparr>tl_removed := Suc (tl_removed tally)\<rparr>)))))
            (\<lambda>_. io_return (tally\<lparr>tl_errors := Suc (tl_errors tally)\<rparr>)))"

fun sweep_jobs :: "'q bullmq \<Rightarrow> job option list \<Rightarrow> sweep_tally \<Rightarrow> ('q world, sweep_tally) io" where
  "sweep_jobs ops [] tally = io_return tally"
| "sweep_jobs ops (None # rest) tally = io_throw (TypeError ''job is null'')"
| "sweep_jobs ops (Some job # rest) tally =
     io_bind (sweep_job ops job tally) (\<lambda>tally1. sweep_jobs ops rest tally1)"

definition next_scan_offset :: "nat \<Rightarrow> nat \<Rightarrow> nat \<Rightarrow> nat \<Rightarrow> nat" where
  "next_scan_offset start scanned removed totalAfter =
     (if totalAfter = 0 then 0
      else if 0 < removed then min start (totalAfter - 1)
      else (start + scanned) mod totalAfter)"

definition sweepFailed :: "'q bullmq \<Rightarrow> worker_env \<Rightarrow> int \<Rightarrow> ('q worker, nat \<times> nat) io" where
  "sweepFailed ops env now k =
     io_bind (in_world (on_queue (q_getFailedCount ops))) (\<lambda>totalBefore.
       if totalBefore = 0 then
         io_bind (set_offset 0) (\<lambda>_.
         io_bind (set_state (\<lambda>s. s\<lparr>failedJobs := 0, lastDlqSweepAt := Some now\<rparr>)) (\<lambda>_. io_return (0, 0)))
       else
         (let start0 = wk_failedScanOffset k mod totalBefore
          in io_bind (in_world (on_queue (q_getJobs ops Job_failed start0 (start0 + DLQ_SCAN_COUNT env - 1)))) (\<lambda>page.
             io_bind (if page = [] then
                 io_bind (in_world (on_queue (q_getJobs ops Job_failed 0 (DLQ_SCAN_COUNT env - 1))))
                   (\<lambda>failed. io_return (0, failed))
               else io_return (start0, page)) (\<lambda>(start, failed).
             io_bind (in_world (sweep_jobs ops failed \<lparr>tl_retained = 0, tl_removed = 0, tl_errors = 0\<rparr>)) (\<lambda>tally.
             io_bind (set_state (\<lambda>s. s\<lparr>lastDlqSweepAt := Some now\<rparr>)) (\<lambda>_.
             io_bind (in_world (on_queue (q_getFailedCount ops))) (\<lambda>totalAfter.
             io_bind (set_state (\<lambda>s. s\<lparr>failedJobs := totalAfter\<rparr>)) (\<lambda>_.
             io_bind (set_offset (next_scan_offset start (length failed) (tl_removed tally) totalAfter)) (\<lambda>_.
               if 0 < tl_errors tally
               then io_throw (AggregateError ''one or more terminal jobs failed resolution'')
               else io_return (tl_retained tally, tl_removed tally)))))))))) k"

section \<open>The pass\<close>

definition by_user :: "order_row list \<Rightarrow> orders_map" where
  "by_user orders = map_of (rev (map (\<lambda>r. (or_user_id r, r)) orders))"

definition ledger_by_user :: "reservation_entry list \<Rightarrow> ledger_map" where
  "ledger_by_user entries = map_of (rev (map (\<lambda>e. (e_userId e, e)) entries))"

fun restore_orders :: "'q bullmq \<Rightarrow> worker_env \<Rightarrow> orders_map \<Rightarrow> order_row list \<Rightarrow> ('q world, nat) io" where
  "restore_orders ops env byUser [] = io_return 0"
| "restore_orders ops env byUser (r # rs) =
     (if or_status r \<noteq> Persisted then restore_orders ops env byUser rs
      else io_bind (applyRecoveryCandidate ops env
             \<lparr>cr_userId = or_user_id r, cr_reservationId = or_id r, cr_reservedAtMs = or_created_at_ms r\<rparr>
             From_persisted byUser None) (\<lambda>n.
           io_bind (restore_orders ops env byUser rs) (\<lambda>n'. io_return (n + n'))))"

fun restore_jobs :: "'q bullmq \<Rightarrow> worker_env \<Rightarrow> orders_map \<Rightarrow> scanned_job list \<Rightarrow> ('q world, nat) io" where
  "restore_jobs ops env byUser [] = io_return 0"
| "restore_jobs ops env byUser (item # items) =
     (if sj_state item \<notin> set live_states
         \<or> (case byUser (p_userId (sj_payload item)) of None \<Rightarrow> False | Some row \<Rightarrow>
              or_status row = Compensated \<and> or_id row = p_reservationId (sj_payload item))
      then restore_jobs ops env byUser items
      else io_bind (applyRecoveryCandidate ops env
             \<lparr>cr_userId = p_userId (sj_payload item), cr_reservationId = p_reservationId (sj_payload item),
              cr_reservedAtMs = p_reservedAtMs (sj_payload item)\<rparr> From_queue byUser None) (\<lambda>n.
           io_bind (restore_jobs ops env byUser items) (\<lambda>n'. io_return (n + n'))))"

fun cover_ledger ::
  "'q bullmq \<Rightarrow> worker_env \<Rightarrow> orders_map \<Rightarrow> reservation_entry list \<Rightarrow> ('q world, nat) io" where
  "cover_ledger ops env byUser [] = io_return 0"
| "cover_ledger ops env byUser (entry # entries) =
     io_bind
       (if (case byUser (e_userId entry) of None \<Rightarrow> False | Some row \<Rightarrow>
              or_status row = Persisted \<and> or_id row = e_reservationId entry)
        then io_return 0
        else io_bind (on_queue (ensureLiveReservationQueued ops env entry (byUser (e_userId entry)) None))
               (\<lambda>coverage. io_return (if coverage = RETAINED_COLLISION then 1 else 0))) (\<lambda>n.
     io_bind (on_redis (reconcileBuyerMembership (SALE_ID env) (e_userId entry))) (\<lambda>_.
     io_bind (cover_ledger ops env byUser entries) (\<lambda>n'. io_return (n + n'))))"

fun check_buyers ::
  "'q bullmq \<Rightarrow> worker_env \<Rightarrow> string list \<Rightarrow> ledger_map \<Rightarrow> orders_map \<Rightarrow>
   ('q world, ledger_map \<times> orders_map \<times> nat) io" where
  "check_buyers ops env [] ledgerByUser byUser = io_return (ledgerByUser, byUser, 0)"
| "check_buyers ops env (userId # users) ledgerByUser byUser =
     (if ledgerByUser userId \<noteq> None then check_buyers ops env users ledgerByUser byUser
      else io_bind (on_redis (inspectReservationMembership (SALE_ID env) userId)) (\<lambda>inspection.
           io_bind
             (if mi_outcome inspection \<noteq> BUYER_ONLY
              then io_bind (resolveBuyerInspection ops env userId inspection ledgerByUser (byUser userId) None)
                     (\<lambda>(l, n). io_return (l, byUser, n))
              else adjudicateBuyerOnly ops env userId ledgerByUser byUser) (\<lambda>(l, b, n).
           io_bind (check_buyers ops env users l b) (\<lambda>(l', b', n'). io_return (l', b', n + n')))))"

fun scan_buyer_pages ::
  "nat \<Rightarrow> 'q bullmq \<Rightarrow> string scan \<Rightarrow> worker_env \<Rightarrow> string \<Rightarrow> ledger_map \<Rightarrow> orders_map \<Rightarrow> ('q world, nat) io" where
  "scan_buyer_pages 0 ops sscan env cursor ledgerByUser byUser = io_throw (GenericError ''scan did not end'')"
| "scan_buyer_pages (Suc fuel) ops sscan env cursor ledgerByUser byUser =
     io_bind (on_redis (scanBuyers sscan (SALE_ID env) cursor)) (\<lambda>(cursor1, users).
     io_bind (check_buyers ops env users ledgerByUser byUser) (\<lambda>(l, b, n).
       if cursor1 = ''0'' then io_return n
       else io_bind (scan_buyer_pages fuel ops sscan env cursor1 l b) (\<lambda>n'. io_return (n + n'))))"

record pass_result =
  ps_degraded :: bool
  ps_queueIssueCount :: nat

text \<open>What the pass needs of its surroundings: the queue, the scan cursors, the collation, fuel.\<close>

record 'q pass_env =
  pe_ops :: "'q bullmq"
  pe_env :: worker_env
  pe_sscan :: "string scan"
  pe_hscan :: "(string \<times> string) scan"
  pe_collate :: "string \<Rightarrow> nat"
  pe_fuel :: nat

definition runDiff :: "'q pass_env \<Rightarrow> int \<Rightarrow> ('q worker, pass_result) io" where
  "runDiff pe now =
     (let ops = pe_ops pe; env = pe_env pe
      in io_bind (in_world (scanOrders (pe_fuel pe) (pe_collate pe) env)) (\<lambda>orders.
         let byUser = by_user orders
         in io_bind (in_world (on_queue (scanJobs (pe_fuel pe) ops env))) (\<lambda>(jobs, issues).
            io_bind (in_world (restore_orders ops env byUser orders)) (\<lambda>i1.
            io_bind (in_world (restore_jobs ops env byUser jobs)) (\<lambda>i2.
            io_bind (in_world (on_redis (scanLedger (pe_fuel pe) (pe_hscan pe) env ''0''))) (\<lambda>ledger.
            io_bind (in_world (cover_ledger ops env byUser ledger)) (\<lambda>i3.
            io_bind (in_world (scan_buyer_pages (pe_fuel pe) ops (pe_sscan pe) env ''0''
                (ledger_by_user ledger) byUser)) (\<lambda>i4.
            io_bind (in_world (on_redis (reconcileStockFromReservations (SALE_ID env)))) (\<lambda>stock.
              if rr_outcome stock \<noteq> STATE_RECONCILED
              then io_throw (GenericError ''stock reconciliation failed'')
              else
            io_bind (sweepFailed ops env now) (\<lambda>(retainedUnsafe, removed).
            io_bind (in_world (on_queue (q_getJobCounts ops))) (\<lambda>(active, failed).
            io_bind (set_state (\<lambda>s. s\<lparr>activeJobs := active, failedJobs := failed,
                lastReconciledAt := Some now\<rparr>)) (\<lambda>_.
              io_return \<lparr>ps_degraded = (0 < issues + retainedUnsafe \<or> 0 < i1 + i2 + i3 + i4),
                ps_queueIssueCount = issues + retainedUnsafe\<rparr>))))))))))))"

text \<open>
  The parts of \<open>bootPass\<close> before and after the preparation of the consumer: pause the queue; wait
  for the active jobs, check the configuration, seed if needed, run the pass. The wait polls every 100 ms: \<open>clock 0\<close> is the reading of \<open>Date.now\<close> that sets the deadline,
  \<open>clock i\<close> the one at the \<open>i\<close>-th poll and
  \<open>others i\<close> what the rest of the system does to the queue during the delay after it.
\<close>

fun drain_active ::
  "nat \<Rightarrow> 'q bullmq \<Rightarrow> (nat \<Rightarrow> int) \<Rightarrow> (nat \<Rightarrow> 'q \<Rightarrow> 'q) \<Rightarrow> int \<Rightarrow> nat \<Rightarrow> ('q, unit) io" where
  "drain_active 0 ops clock others deadline i = io_throw (GenericError ''drain did not end'')"
| "drain_active (Suc fuel) ops clock others deadline i =
     io_bind (q_getActiveCount ops) (\<lambda>active.
       if active = 0 then io_return ()
       else if clock i \<ge> deadline then io_throw (GenericError ''active jobs did not drain within 30 seconds'')
       else (\<lambda>q. drain_active fuel ops clock others deadline (Suc i) (others i q)))"

definition boot_pause :: "'q pass_env \<Rightarrow> ('q worker, unit) io" where
  "boot_pause pe =
     io_bind (in_world (on_queue (q_pause (pe_ops pe)))) (\<lambda>_.
     io_bind (in_world (on_queue (q_isPaused (pe_ops pe)))) (\<lambda>paused.
       if \<not> paused then io_throw (GenericError ''orders queue did not enter paused state'') else io_return ()))"

definition boot_diff ::
  "'q pass_env \<Rightarrow> (string \<Rightarrow> js_num) \<Rightarrow> redis_time \<Rightarrow> (nat \<Rightarrow> int) \<Rightarrow> (nat \<Rightarrow> 'q \<Rightarrow> 'q) \<Rightarrow> int \<Rightarrow>
   ('q worker, pass_result) io" where
  "boot_diff pe date_parse time clock others now =
     (let ops = pe_ops pe; env = pe_env pe
      in io_bind (in_world (on_queue (drain_active (pe_fuel pe) ops clock others (clock 0 + 30000) 1))) (\<lambda>_.
         io_bind (in_world (on_pg (ensureSale date_parse env))) (\<lambda>_.
         io_bind (in_world (on_redis (status time (SALE_ID env)))) (\<lambda>snapshot.
         io_bind
           (if \<not> ss_initialized snapshot then
              io_bind (in_world (on_redis (seed date_parse
                \<lparr>c_saleId = SALE_ID env, c_name = SALE_NAME env, c_startsAt = SALE_STARTS_AT env,
                 c_endsAt = SALE_ENDS_AT env, c_totalStock = SALE_TOTAL_STOCK env, c_stockRemaining = None\<rparr>)))
                (\<lambda>seeded. if sr_outcome seeded = CONFIG_DRIFT
                          then io_throw (GenericError ''redis sale configuration drift'') else io_return ())
            else if ss_name snapshot \<noteq> Some (SALE_NAME env)
                 \<or> ss_totalStock snapshot \<noteq> SALE_TOTAL_STOCK env
                 \<or> Fin (ss_startsAtMs snapshot) \<noteq> date_parse (SALE_STARTS_AT env)
                 \<or> Fin (ss_endsAtMs snapshot) \<noteq> date_parse (SALE_ENDS_AT env)
            then io_throw (GenericError ''redis sale configuration drift'')
            else io_return ()) (\<lambda>_.
           runDiff pe now)))))"

section \<open>Health transitions\<close>

definition fail_state :: "reconciliation_state \<Rightarrow> reconciliation_state" where
  "fail_state s = s\<lparr>reconciliationHealthy := False, reconciliationFailureConfirmed := True\<rparr>"

text \<open>After \<open>runContinuousPass\<close>: the flags from the result of the pass, or from its failure.\<close>

definition after_pass :: "bool \<Rightarrow> pass_result \<Rightarrow> int \<Rightarrow> reconciliation_state \<Rightarrow> reconciliation_state" where
  "after_pass wasHealthy result now s =
     (let s1 = s\<lparr>retainedQueueEntries := ps_queueIssueCount result,
                 reconciliationHealthy := \<not> ps_degraded result\<rparr>;
          s2 = (if reconciliationHealthy s1 \<or> wasHealthy
                then s1\<lparr>reconciliationFailureConfirmed := False\<rparr> else s1)
      in s2\<lparr>lastReconciledAt := Some now\<rparr>)"

definition runContinuousPass :: "'q pass_env \<Rightarrow> int \<Rightarrow> ('q worker, unit) io" where
  "runContinuousPass pe now k =
     io_catch
       (io_bind (runDiff pe now) (\<lambda>result.
          set_state (after_pass (reconciliationHealthy (wk_state k)) result now)))
       (\<lambda>e. io_bind (set_state fail_state) (\<lambda>_. io_throw e)) k"

text \<open>The state update of \<open>triggerDlqSweep\<close> after a sweep that returned.\<close>

definition after_sweep :: "nat \<Rightarrow> reconciliation_state \<Rightarrow> reconciliation_state" where
  "after_sweep retainedUnsafe s =
     (if 0 < retainedUnsafe
      then s\<lparr>retainedQueueEntries := max (retainedQueueEntries s) retainedUnsafe,
             reconciliationHealthy := False, reconciliationFailureConfirmed := True\<rparr>
      else s)"

definition triggerDlqSweep :: "'q bullmq \<Rightarrow> worker_env \<Rightarrow> int \<Rightarrow> ('q worker, unit) io" where
  "triggerDlqSweep ops env now =
     io_bind (sweepFailed ops env now) (\<lambda>(retainedUnsafe, removed). set_state (after_sweep retainedUnsafe))"

text \<open>The publication of readiness at the end of the boot transition, and its withdrawal.\<close>

definition publish_boot :: "pass_result \<Rightarrow> reconciliation_state \<Rightarrow> reconciliation_state" where
  "publish_boot result s = s\<lparr>retainedQueueEntries := ps_queueIssueCount result, bootstrapReconciled := True,
     consumerReady := True, reconciliationHealthy := \<not> ps_degraded result,
     reconciliationFailureConfirmed := ps_degraded result\<rparr>"

definition withdraw :: "reconciliation_state \<Rightarrow> reconciliation_state" where
  "withdraw s = s\<lparr>bootstrapReconciled := False, consumerReady := False, reconciliationHealthy := False,
     reconciliationFailureConfirmed := True\<rparr>"

definition handleUnexpectedConsumerTermination :: "reconciliation_state \<Rightarrow> reconciliation_state" where
  "handleUnexpectedConsumerTermination s = s\<lparr>consumerReady := False, reconciliationHealthy := False,
     reconciliationFailureConfirmed := True\<rparr>"

section \<open>The scan of the orders\<close>

lemma scan_pages_complete:
  assumes page: "\<And>off s. fetch off s = (Inr (take count (drop off rows)), s)" and pos: "0 < count"
  shows "length rows - off < fuel \<Longrightarrow> scan_pages fuel count off fetch s = (Inr (drop off rows), s)"
proof (induction fuel arbitrary: off)
  case (Suc fuel)
  show ?case
  proof (cases "length rows - off < count")
    case True
    then show ?thesis by (simp add: io_bind_def page)
  next
    case False
    then have "length rows - (off + count) < fuel" using Suc.prems pos by simp
    from Suc.IH [OF this] have "scan_pages fuel count (off + count) fetch s = (Inr (drop (off + count) rows), s)" .
    moreover have "take count (drop off rows) @ drop (off + count) rows = drop off rows"
      by (metis add.commute append_take_drop_id drop_drop)
    moreover have "length (take count (drop off rows)) = count" using False by simp
    ultimately show ?thesis using page [of off s] by (simp add: io_bind_def del: length_take)
  qed
qed simp

text \<open>
  The order scan ends and misses nothing. With more fuel than the sale has orders the paged
  scan returns all of the sale's orders, each once, in the collation's order of users, and reads
  only.
\<close>

lemma scanOrders_complete:
  assumes "0 < RECONCILE_SCAN_COUNT env" and "length (pg_orders (w_pg w)) < fuel"
  shows "scanOrders fuel collate env w = (Inr (sort_key (\<lambda>r. collate (or_user_id r))
     (filter (\<lambda>r. or_sale_id r = SALE_ID env) (pg_orders (w_pg w)))), w)"
proof -
  let ?rows = "sort_key (\<lambda>r. collate (or_user_id r))
     (filter (\<lambda>r. or_sale_id r = SALE_ID env) (pg_orders (w_pg w)))"
  define fetch where "fetch off s = (Inr (take (RECONCILE_SCAN_COUNT env) (drop off ?rows)) :: order_row list result,
     s :: 'a world)" for off s
  have same: "scan_pages f c off (\<lambda>off. listSaleOrders collate env off (RECONCILE_SCAN_COUNT env)) w
      = scan_pages f c off fetch w" for f c off
    by (induction f arbitrary: off) (simp_all add: io_bind_def listSaleOrders_def on_pg_def fetch_def)
  have "length ?rows < fuel" using assms(2) by (simp add: le_less_trans [OF length_filter_le])
  then have "scan_pages fuel (RECONCILE_SCAN_COUNT env) 0 fetch w = (Inr (drop 0 ?rows), w)"
    by (intro scan_pages_complete) (simp_all add: fetch_def assms(1))
  then show ?thesis by (simp add: scanOrders_def same)
qed

section \<open>The sweep\<close>



text \<open>Where the next sweep starts when this one removed nothing from \<open>n\<close> failed jobs.\<close>

definition idle_advance :: "nat \<Rightarrow> nat \<Rightarrow> nat \<Rightarrow> nat" where
  "idle_advance n count start = next_scan_offset start (min count (n - start)) 0 n"

lemma idle_advance_alt:
  "start < n \<Longrightarrow> idle_advance n count start = (if start + count < n then start + count else 0)"
proof (cases "start + count < n")
  case False
  assume "start < n"
  with False have "start + min count (n - start) = n" by simp
  with \<open>start < n\<close> False show ?thesis by (simp add: idle_advance_def next_scan_offset_def)
qed (simp add: idle_advance_def next_scan_offset_def)

lemma idle_advance_reaches_zero:
  assumes "0 < count" and "start < n"
  shows "\<exists>k. (idle_advance n count ^^ k) start = 0"
  using assms(2)
proof (induction "n - start" arbitrary: start rule: less_induct)
  case less
  show ?case
  proof (cases "start + count < n")
    case True
    then obtain k where "(idle_advance n count ^^ k) (start + count) = 0"
      using less assms(1) by (metis add_diff_cancel_left' diff_less_mono2 less_add_same_cancel1 zero_less_diff)
    then have "(idle_advance n count ^^ Suc k) start = 0"
      using True less.prems by (simp add: funpow_swap1 idle_advance_alt)
    then show ?thesis by blast
  next
    case False
    then show ?thesis using less.prems by (intro exI [of _ 1]) (simp add: idle_advance_alt)
  qed
qed

lemma idle_advance_from_zero:
  "0 < count \<Longrightarrow> k * count < n \<Longrightarrow> (idle_advance n count ^^ k) 0 = k * count"
  by (induction k) (auto simp: idle_advance_alt add.commute)

text \<open>
  The sweep starves no failed job. The offset it keeps is always inside the list of failed
  jobs, and while sweeps remove nothing, every position of the list falls into the window of some
  later sweep.
\<close>

lemma sweep_offset_fair:
  assumes "0 < count"
  shows "(0 < tot \<longrightarrow> next_scan_offset start scanned removed tot < tot)
     \<and> (\<forall>i. i < n \<and> start < n \<longrightarrow>
          (\<exists>k. (idle_advance n count ^^ k) start \<le> i \<and> i < (idle_advance n count ^^ k) start + count))"
proof (intro conjI impI allI)
  assume "0 < tot"
  then show "next_scan_offset start scanned removed tot < tot" by (auto simp: next_scan_offset_def)
next
  fix i assume i: "i < n \<and> start < n"
  obtain k where k: "(idle_advance n count ^^ k) start = 0"
    using idle_advance_reaches_zero [OF assms] i by blast
  let ?m = "i div count"
  have "?m * count \<le> i" by simp
  then have "(idle_advance n count ^^ ?m) 0 = ?m * count"
    using idle_advance_from_zero [OF assms] i by (meson le_less_trans)
  with k have "(idle_advance n count ^^ (?m + k)) start = ?m * count" by (simp add: funpow_add)
  moreover have "i < ?m * count + count" using assms by (metis div_mult_mod_eq mod_less_divisor nat_add_left_cancel_less)
  ultimately show "\<exists>k. (idle_advance n count ^^ k) start \<le> i \<and> i < (idle_advance n count ^^ k) start + count"
    using \<open>?m * count \<le> i\<close> by metis
qed

section \<open>The pass and the tables\<close>

context table_relation
begin

lemma keeps_on_queue: "keeps (on_queue m)"
  by (simp add: keeps_def on_queue_def io_part_def case_prod_unfold same)

lemma keeps_catch: "keeps m \<Longrightarrow> (\<And>e. keeps (h e)) \<Longrightarrow> keeps (io_catch m h)"
  unfolding keeps_def io_catch_def
  by (auto split: prod.splits sum.splits) (metis compose snd_conv)+

lemma keeps_let: "(\<And>x. keeps (f x)) \<Longrightarrow> keeps (Let a f)"
  by (simp add: Let_def)

lemma keeps_cases:
  "(\<And>i. keeps (f i)) \<Longrightarrow> (\<And>p. keeps (g p)) \<Longrightarrow> keeps (case c of Issue i \<Rightarrow> f i | Entry p \<Rightarrow> g p)"
  "keeps a \<Longrightarrow> keeps b \<Longrightarrow> keeps d \<Longrightarrow> keeps e \<Longrightarrow>
   keeps (case v of BOTH \<Rightarrow> a | NEITHER \<Rightarrow> b | BUYER_ONLY \<Rightarrow> d | RESERVATION_ONLY \<Rightarrow> e)"
  "(\<And>x y. keeps (k x y)) \<Longrightarrow> keeps b \<Longrightarrow> keeps d \<Longrightarrow>
   keeps (case u of Restore_from x y \<Rightarrow> k x y | Drop_membership \<Rightarrow> b | No_identity \<Rightarrow> d)"
  "keeps a \<Longrightarrow> keeps b \<Longrightarrow> keeps (case s of From_persisted \<Rightarrow> a | From_queue \<Rightarrow> b)"
  by (simp_all split: classified.split reservation_membership_outcome.split buyer_verdict.split
      candidate_source.split)

lemma keeps_getByUser: "keeps (getByUser u)"
  unfolding getByUser_def by (rule keeps_on_pg) (simp add: same)

lemma keeps_listSaleOrders: "keeps (listSaleOrders c env off lim)"
  unfolding listSaleOrders_def by (rule keeps_on_pg) (simp add: same)

lemmas keeps_pass_intros = keeps_pure keeps_branch keeps_bind keeps_on_queue keeps_catch keeps_let
  keeps_cases keeps_getByUser keeps_listSaleOrders

lemma keeps_scanOrders: "keeps (scanOrders fuel c env)"
proof -
  have "keeps (scan_pages fuel n off (\<lambda>off. listSaleOrders c env off m))" for n off m
    by (induction fuel arbitrary: off) (simp_all, (intro keeps_pass_intros | assumption | simp)+)
  then show ?thesis by (simp add: scanOrders_def)
qed

lemma keeps_applyRecoveryCandidate: "keeps (applyRecoveryCandidate ops env c src b t)"
  unfolding applyRecoveryCandidate_def by (intro keeps_pass_intros)

lemma keeps_resolveBuyerInspection: "keeps (resolveBuyerInspection ops env u i l d t)"
  unfolding resolveBuyerInspection_def by (intro keeps_pass_intros)

lemma keeps_adjudicateBuyerOnly: "keeps (adjudicateBuyerOnly ops env u l b)"
  unfolding adjudicateBuyerOnly_def
  by (intro keeps_pass_intros keeps_applyRecoveryCandidate keeps_resolveBuyerInspection)

lemma keeps_loops:
  "keeps (restore_orders ops env b orders)" "keeps (restore_jobs ops env b jobs)"
  "keeps (cover_ledger ops env b entries)" "keeps (check_buyers ops env users l b)"
proof -
  show "keeps (restore_orders ops env b orders)"
    by (induction orders) (auto simp del: io_simps intro!: keeps_pass_intros keeps_applyRecoveryCandidate)
  show "keeps (restore_jobs ops env b jobs)"
    by (induction jobs) (auto simp del: io_simps intro!: keeps_pass_intros keeps_applyRecoveryCandidate)
  show "keeps (cover_ledger ops env b entries)"
    by (induction entries) (auto simp del: io_simps intro!: keeps_pass_intros)
  show "keeps (check_buyers ops env users l b)"
    by (induction users arbitrary: l b)
      (auto simp del: io_simps intro!: keeps_pass_intros keeps_resolveBuyerInspection keeps_adjudicateBuyerOnly)
qed

lemma keeps_scan_buyer_pages: "keeps (scan_buyer_pages fuel ops sscan env cursor l b)"
  by (induction fuel arbitrary: cursor l b) (auto simp del: io_simps intro!: keeps_pass_intros keeps_loops)

lemma keeps_sweep_jobs:
  fixes ops :: "'q bullmq"
  assumes "\<And>p. keeps (resolveFailed p (compensate_payload p) :: ('q world, resolve_failed_result) io)"
  shows "keeps (sweep_jobs ops jobs tally)"
proof -
  have one: "keeps (sweep_job ops job t)" for job t
    unfolding sweep_job_def by (intro keeps_pass_intros assms)
  show ?thesis
  proof (induction jobs arbitrary: tally)
    case (Cons j jobs)
    then show ?case by (cases j) (auto simp del: io_simps intro!: keeps_pass_intros one)
  qed (auto simp del: io_simps intro: keeps_pass_intros)
qed

end

text \<open>The same for the worker, whose own memory is beside the world.\<close>

definition pg_evolves :: "'q worker \<Rightarrow> 'q worker \<Rightarrow> bool" where
  "pg_evolves k k' \<longleftrightarrow> evolves (w_pg (wk_world k)) (w_pg (wk_world k'))"

interpretation wk: io_relation pg_evolves
  by unfold_locales (auto simp: pg_evolves_def intro: evo.same evo.compose)

lemma wk_basic:
  "wk.within (set_state f)" "wk.within (set_offset n)" "evo.keeps m \<Longrightarrow> wk.within (in_world m)"
  by (simp_all add: wk.within_def pg_evolves_def evo.same set_state_def set_offset_def in_world_def io_part_def
      case_prod_unfold evo.keeps_def)

lemma evo_resolveFailed:
  "evo.keeps (resolveFailed p (compensate_payload p) :: ('q world, resolve_failed_result) io)"
  by (rule evo.keeps_resolveFailed [OF evo.keeps_compensate_payload])
    (auto intro: insert_order_evolves update_compensated_evolves)

lemma wk_sweepFailed: "wk.within (sweepFailed ops env now)"
proof -
  note intros = wk.within_intros wk_basic evo.keeps_on_queue evo.keeps_sweep_jobs evo_resolveFailed
  show ?thesis
    unfolding wk.within_def sweepFailed_def
    by (rule allI, rule wk.within_eta) (intro intros)
qed

lemma wk_runDiff: "wk.within (runDiff pe now)"
  unfolding runDiff_def
  by (intro wk.within_intros wk_basic wk_sweepFailed evo.keeps_on_queue evo.keeps_scanOrders evo.keeps_loops
      evo.keeps_scan_buyer_pages evo.keeps_pure)

text \<open>
  C15: reconciliation never touches a persisted order. A whole continuous pass, with its
  restorations, adjudications and sweep, under any faults of Redis, Postgres and the queue,
  leaves every persisted row as it was and keeps the constraints of the schema.
\<close>

theorem pass_keeps_persisted_orders:
  assumes inv: "pg_inv (w_pg (wk_world k))"
    and row: "find_user u (pg_orders (w_pg (wk_world k))) = Some r" "or_status r = Persisted"
    and run: "runContinuousPass pe now k = (res, k')"
  shows "find_user u (pg_orders (w_pg (wk_world k'))) = Some r \<and> pg_inv (w_pg (wk_world k'))"
proof -
  have "wk.within (io_catch (io_bind (runDiff pe now) (\<lambda>result. set_state (after_pass b result now)))
      (\<lambda>e. io_bind (set_state fail_state) (\<lambda>_. io_throw e)))" for b
    by (intro wk.within_intros wk_basic wk_runDiff)
  then have e: "evolves (w_pg (wk_world k)) (w_pg (wk_world k'))"
    using run unfolding runContinuousPass_def wk.within_def pg_evolves_def by (metis snd_conv)
  then have inv': "pg_inv (w_pg (wk_world k'))" and in': "r \<in> set (pg_orders (w_pg (wk_world k')))"
    using inv row find_user_Some_in [OF row(1)] by (auto simp: evolves_def)
  from inv' have "distinct (map or_user_id (pg_orders (w_pg (wk_world k'))))" by (simp add: pg_inv_def)
  from find_user_unique [OF this in'] find_user_Some_in [OF row(1)] inv' show ?thesis by simp
qed

definition sample_pass :: "mem_queue pass_env" where
  "sample_pass = \<lparr>pe_ops = mem_ops, pe_env = sample_env, pe_sscan = (\<lambda>xs _. (''0'', xs)),
     pe_hscan = (\<lambda>xs _. (''0'', xs)), pe_collate = length, pe_fuel = 9\<rparr>"

definition sample_worker :: "mem_queue worker" where
  "sample_worker = \<lparr>wk_world = \<lparr>w_redis = sample_server, w_pg = sample_pg [] [sample_order],
     w_queue = sample_queue Job_failed\<rparr>, wk_state = createReconciliationState, wk_failedScanOffset = 0\<rparr>"

theorem pass_keeps_persisted_orders_witness:
  "find_user ''alice'' (pg_orders (w_pg (wk_world (snd (runContinuousPass sample_pass 8000 sample_worker)))))
     = Some sample_order"
proof -
  have inv: "pg_inv (w_pg (wk_world sample_worker))"
    using payload_checks(1) [OF sample_payload_valid(1), of 7000]
    by (simp add: pg_inv_def sample_worker_def sample_pg_def sample_order_def)
      (simp add: sample_payload_def persisted_row_def)
  have row: "find_user ''alice'' (pg_orders (w_pg (wk_world sample_worker))) = Some sample_order"
    using sample_order_found by (simp add: sample_worker_def sample_pg_def)
  have st: "or_status sample_order = Persisted" by (simp add: sample_order_def)
  show ?thesis
    using pass_keeps_persisted_orders [OF inv row st prod.collapse [symmetric], of sample_pass 8000] by simp
qed

section \<open>Waiting for the active jobs\<close>

lemma drain_step:
  assumes polls: "\<And>i. clock 0 + 100 * int i \<le> clock (Suc i)" and i: "i \<le> 300" "301 \<le> fuel + i"
  shows "case drain_active fuel ops clock others (clock 0 + 30000) (Suc i) q of
      (Inr _, q') \<Rightarrow> (\<exists>q0. q_getActiveCount ops q0 = (Inr 0, q'))
    | (Inl e, q') \<Rightarrow> (\<exists>q0 r. q_getActiveCount ops q0 = (r, q')
         \<and> (r = Inl e \<or> (\<exists>n. r = Inr n \<and> 0 < n) \<and> e = GenericError ''active jobs did not drain within 30 seconds''))"
  using i
proof (induction fuel arbitrary: i q)
  case (Suc fuel)
  obtain r q1 where ask: "q_getActiveCount ops q = (r, q1)" by (cases "q_getActiveCount ops q")
  have stop: "clock (Suc 300) \<ge> clock 0 + 30000" using polls [of 300] by simp
  show ?case
  proof (cases r)
    case (Inr n)
    consider "n = 0" | "0 < n" "clock (Suc i) \<ge> clock 0 + 30000" | "0 < n" "clock (Suc i) < clock 0 + 30000"
      by linarith
    then show ?thesis
    proof cases
      case 3
      then have "i \<noteq> 300" using stop by auto
      then have "Suc i \<le> 300" "301 \<le> fuel + Suc i" using Suc.prems by simp_all
      from Suc.IH [OF this, of "others (Suc i) q1"] show ?thesis using 3 ask Inr by simp
    qed (use ask Inr in \<open>auto intro!: exI [of _ q]\<close>)
  qed (use ask in \<open>auto intro!: exI [of _ q]\<close>)
qed simp

text \<open>
  The wait for the active jobs ends. When the polls are at least 100 ms apart, 301 of them are
  enough whatever the rest of the system does to the queue: the wait returns only after it has read
  a count of zero, and throws only the error of a failed count or, with jobs still active, the
  announced time-out.
\<close>

lemma drain_active_ends:
  assumes "\<And>i. clock 0 + 100 * int i \<le> clock (Suc i)" and "301 \<le> fuel"
  shows "case drain_active fuel ops clock others (clock 0 + 30000) 1 q of
      (Inr _, q') \<Rightarrow> (\<exists>q0. q_getActiveCount ops q0 = (Inr 0, q'))
    | (Inl e, q') \<Rightarrow> (\<exists>q0 r. q_getActiveCount ops q0 = (r, q')
         \<and> (r = Inl e \<or> (\<exists>n. r = Inr n \<and> 0 < n) \<and> e = GenericError ''active jobs did not drain within 30 seconds''))"
  using drain_step [of clock 0 fuel ops others q] assms by simp

section \<open>Adjudication\<close>



end
