(* ===== verification/Worker_Lifecycle.thy ===== *)
theory Worker_Lifecycle
  imports Reconciliation
begin

text \<open>
  The worker between its passes: the readiness of apps/worker/src/health/health.service.ts, the
  health flags of apps/worker/src/reconciliation/reconciliation.service.ts under every interleaving
  of passes and sweeps, and the triggers that start, coalesce and serialise them.
\<close>

section \<open>HealthService\<close>

definition RECONCILIATION_STALL_GRACE_CYCLES :: int where "RECONCILIATION_STALL_GRACE_CYCLES = 5"

text \<open>\<open>isReconciliationHealthy\<close> with the service's own stamp of the first unhealthy reading.\<close>

definition isReconciliationHealthy ::
  "int \<Rightarrow> reconciliation_state \<Rightarrow> int \<Rightarrow> int option \<Rightarrow> bool \<times> int option" where
  "isReconciliationHealthy interval s now unhealthySinceMs =
     (if reconciliationHealthy s then (True, None)
      else if reconciliationFailureConfirmed s then (False, None)
      else (let since = (case unhealthySinceMs of None \<Rightarrow> now | Some t \<Rightarrow> t)
            in (now - since \<le> interval * RECONCILIATION_STALL_GRACE_CYCLES, Some since)))"

text \<open>\<open>readiness\<close> and \<open>getReady\<close>: the HTTP status, the flags shown, and the stamp kept.\<close>

definition readiness ::
  "int \<Rightarrow> reconciliation_state \<Rightarrow> int \<Rightarrow> int option \<Rightarrow> (int \<times> reconciliation_state) \<times> int option" where
  "readiness interval s now unhealthySinceMs =
     (case isReconciliationHealthy interval s now unhealthySinceMs of (gated, since) \<Rightarrow>
        ((if bootstrapReconciled s \<and> consumerReady s \<and> gated then 200 else 503,
          s\<lparr>reconciliationHealthy := gated\<rparr>), since))"

text \<open>Successive readings of an unchanged state.\<close>

fun readings :: "int \<Rightarrow> reconciliation_state \<Rightarrow> int list \<Rightarrow> int option \<Rightarrow> int list" where
  "readings interval s [] since = []"
| "readings interval s (now # rest) since =
     (case readiness interval s now since of ((code, _), since1) \<Rightarrow> code # readings interval s rest since1)"

section \<open>Flags under interleaving\<close>

text \<open>
  A continuous pass reads the health flag when it is triggered and writes the flags when it ends;
  sweeps, failures and the transitions of boot and shutdown may come in between. \<open>pending\<close> is the
  flag read by the pass under way, if any.
\<close>

record flags =
  fl_state :: reconciliation_state
  fl_pending :: "bool option"

inductive flags_step :: "flags \<Rightarrow> flags \<Rightarrow> bool" where
  pass_begins: "fl_pending f = None \<Longrightarrow>
    flags_step f (f\<lparr>fl_pending := Some (reconciliationHealthy (fl_state f))\<rparr>)"
| pass_ends: "fl_pending f = Some was \<Longrightarrow>
    flags_step f \<lparr>fl_state = after_pass was result now (fl_state f), fl_pending = None\<rparr>"
| pass_fails: "fl_pending f = Some was \<Longrightarrow> flags_step f \<lparr>fl_state = fail_state (fl_state f), fl_pending = None\<rparr>"
| sweep_ends: "flags_step f (f\<lparr>fl_state := after_sweep n (fl_state f)\<rparr>)"
| sweep_fails: "flags_step f (f\<lparr>fl_state := fail_state (fl_state f)\<rparr>)"
| boot_ends: "flags_step f (f\<lparr>fl_state := publish_boot result (fl_state f)\<rparr>)"
| stops: "flags_step f (f\<lparr>fl_state := withdraw (fl_state f)\<rparr>)"
| consumer_dies: "flags_step f (f\<lparr>fl_state := handleUnexpectedConsumerTermination (fl_state f)\<rparr>)"

inductive_cases flags_stepE: "flags_step f f'"

lemmas flag_defs = after_pass_def fail_state_def after_sweep_def publish_boot_def withdraw_def
  handleUnexpectedConsumerTermination_def

lemma flags_step_consistent:
  "flags_step f f' \<Longrightarrow> \<not> (reconciliationHealthy (fl_state f) \<and> reconciliationFailureConfirmed (fl_state f)) \<Longrightarrow>
   \<not> (reconciliationHealthy (fl_state f') \<and> reconciliationFailureConfirmed (fl_state f'))"
  by (cases rule: flags_step.cases) (auto simp: flag_defs Let_def split: if_splits)

text \<open>
  C31: the flags never contradict each other, and only a flap is given grace. In every reachable
  state health and a confirmed failure exclude each other; a confirmed failure is answered with
  503 at once; an unconfirmed one is tolerated for five intervals from the first reading and not a
  millisecond longer; and a worker that has not booted or has no consumer is never ready.
\<close>

theorem readiness_grace:
  assumes reach: "flags_step\<^sup>*\<^sup>* \<lparr>fl_state = createReconciliationState, fl_pending = None\<rparr> f"
    and s: "s = fl_state f"
  shows "\<not> (reconciliationHealthy s \<and> reconciliationFailureConfirmed s)
     \<and> (reconciliationFailureConfirmed s \<longrightarrow> fst (fst (readiness interval s now since)) = 503)
     \<and> (\<not> (bootstrapReconciled s \<and> consumerReady s) \<longrightarrow> fst (fst (readiness interval s now since)) = 503)
     \<and> (bootstrapReconciled s \<and> consumerReady s \<and> \<not> reconciliationHealthy s \<and> \<not> reconciliationFailureConfirmed s \<longrightarrow>
          readings interval s (t # ts) None = map (\<lambda>x. if x - t \<le> 5 * interval then 200 else 503) (t # ts))"
proof -
  have "\<not> (reconciliationHealthy (fl_state f) \<and> reconciliationFailureConfirmed (fl_state f))"
    using reach by (induction rule: rtranclp_induct) (auto dest: flags_step_consistent simp: createReconciliationState_def)
  moreover have "readings interval s ts (Some t) = map (\<lambda>x. if x - t \<le> 5 * interval then 200 else 503) ts"
    if "bootstrapReconciled s \<and> consumerReady s \<and> \<not> reconciliationHealthy s \<and> \<not> reconciliationFailureConfirmed s"
    using that by (induction ts) (auto simp: readiness_def isReconciliationHealthy_def RECONCILIATION_STALL_GRACE_CYCLES_def
        mult.commute)
  ultimately show ?thesis using s
    by (auto simp: readiness_def isReconciliationHealthy_def RECONCILIATION_STALL_GRACE_CYCLES_def Let_def mult.commute)
qed

definition sample_degraded :: flags where
  "sample_degraded = \<lparr>fl_state = after_pass True \<lparr>ps_degraded = True, ps_queueIssueCount = 1\<rparr> 0
     (publish_boot \<lparr>ps_degraded = False, ps_queueIssueCount = 0\<rparr> createReconciliationState), fl_pending = None\<rparr>"

lemma sample_degraded_reachable:
  "flags_step\<^sup>*\<^sup>* \<lparr>fl_state = createReconciliationState, fl_pending = None\<rparr> sample_degraded"
proof -
  let ?b = "publish_boot \<lparr>ps_degraded = False, ps_queueIssueCount = 0\<rparr> createReconciliationState"
  have 1: "flags_step \<lparr>fl_state = createReconciliationState, fl_pending = None\<rparr> \<lparr>fl_state = ?b, fl_pending = None\<rparr>"
    using flags_step.boot_ends [of "\<lparr>fl_state = createReconciliationState, fl_pending = None\<rparr>"] by simp
  have 2: "flags_step \<lparr>fl_state = ?b, fl_pending = None\<rparr> \<lparr>fl_state = ?b, fl_pending = Some True\<rparr>"
    using flags_step.pass_begins [of "\<lparr>fl_state = ?b, fl_pending = None\<rparr>"] by (simp add: publish_boot_def)
  have 3: "flags_step \<lparr>fl_state = ?b, fl_pending = Some True\<rparr> sample_degraded"
    using flags_step.pass_ends [of "\<lparr>fl_state = ?b, fl_pending = Some True\<rparr>" True] by (simp add: sample_degraded_def)
  from 1 2 3 show ?thesis by (meson rtranclp.rtrancl_into_rtrancl rtranclp.rtrancl_refl)
qed

theorem readiness_grace_witness:
  "readings 1000 (fl_state sample_degraded) [0, 5000, 5001] None = [200, 200, 503]"
  using readiness_grace [OF sample_degraded_reachable refl, of 1000 0 None 0 "[5000, 5001]"]
  by (simp add: sample_degraded_def flag_defs createReconciliationState_def Let_def)



section \<open>Triggers\<close>

text \<open>
  \<open>passPromise\<close>, \<open>passCoalesced\<close> and \<open>dlqPromise\<close> of the service, and the chain behind
  \<open>maintenanceTail\<close>: the head is the task that runs, the others wait for it to settle.
\<close>

datatype maintenance = Pass_task | Sweep_task

record triggers =
  tg_pass :: bool
  tg_coalesced :: bool
  tg_sweep :: bool
  tg_chain :: "maintenance list"
  tg_closing :: bool

definition no_triggers :: triggers where
  "no_triggers = \<lparr>tg_pass = False, tg_coalesced = False, tg_sweep = False, tg_chain = [], tg_closing = False\<rparr>"

definition scheduleMaintenance :: "maintenance \<Rightarrow> triggers \<Rightarrow> triggers" where
  "scheduleMaintenance work t = t\<lparr>tg_chain := tg_chain t @ [work]\<rparr>"

definition triggerPass :: "triggers \<Rightarrow> triggers" where
  "triggerPass t =
     (if tg_closing t then t
      else if tg_pass t then t\<lparr>tg_coalesced := True\<rparr>
      else scheduleMaintenance Pass_task (t\<lparr>tg_pass := True\<rparr>))"

definition trigger_sweep :: "triggers \<Rightarrow> triggers" where
  "trigger_sweep t =
     (if tg_closing t \<or> tg_sweep t then t else scheduleMaintenance Sweep_task (t\<lparr>tg_sweep := True\<rparr>))"

text \<open>The running task settles and its \<open>finally\<close> handler runs.\<close>

definition task_settles :: "triggers \<Rightarrow> triggers" where
  "task_settles t =
     (case tg_chain t of
        [] \<Rightarrow> t
      | Sweep_task # rest \<Rightarrow> t\<lparr>tg_sweep := False, tg_chain := rest\<rparr>
      | Pass_task # rest \<Rightarrow>
          (let t1 = t\<lparr>tg_pass := False, tg_chain := rest\<rparr>
           in if tg_coalesced t \<and> \<not> tg_closing t then triggerPass (t1\<lparr>tg_coalesced := False\<rparr>) else t1))"

inductive trigger_step :: "triggers \<Rightarrow> triggers \<Rightarrow> bool" where
  "trigger_step t (triggerPass t)"
| "trigger_step t (trigger_sweep t)"
| "trigger_step t (task_settles t)"
| "trigger_step t (t\<lparr>tg_closing := True\<rparr>)"

inductive_cases trigger_stepE: "trigger_step t t'"

lemmas trigger_defs = triggerPass_def trigger_sweep_def task_settles_def scheduleMaintenance_def

definition triggers_inv :: "triggers \<Rightarrow> bool" where
  "triggers_inv t \<longleftrightarrow>
     tg_chain t \<in> {[], [Pass_task], [Sweep_task], [Pass_task, Sweep_task], [Sweep_task, Pass_task]}
     \<and> (tg_pass t \<longleftrightarrow> Pass_task \<in> set (tg_chain t)) \<and> (tg_sweep t \<longleftrightarrow> Sweep_task \<in> set (tg_chain t))
     \<and> (tg_coalesced t \<and> \<not> tg_closing t \<longrightarrow> tg_pass t)"

lemma trigger_step_inv: "trigger_step t t' \<Longrightarrow> triggers_inv t \<Longrightarrow> triggers_inv t'"
  by (erule trigger_stepE) (auto simp: triggers_inv_def trigger_defs Let_def split: if_splits)

text \<open>
  At most one pass and one sweep are scheduled at any time, one after the other, and a trigger
  that comes while a pass is under way is not lost: when that pass settles the next is scheduled.
\<close>

lemma triggers_serialised:
  assumes "trigger_step\<^sup>*\<^sup>* no_triggers t"
  shows "distinct (tg_chain t) \<and> length (tg_chain t) \<le> 2
     \<and> (tg_pass t \<and> hd (tg_chain t) = Pass_task \<and> \<not> tg_closing t \<longrightarrow>
          Pass_task \<in> set (tg_chain (task_settles (triggerPass t))))"
proof -
  have "triggers_inv t" using assms
    by (induction rule: rtranclp_induct) (auto dest: trigger_step_inv simp: triggers_inv_def no_triggers_def)
  then show ?thesis by (auto simp: triggers_inv_def trigger_defs)
qed

end
