(* ===== verification/Orders_Consumer.thy ===== *)
theory Orders_Consumer
  imports Orders_Queue "HOL-Library.Multiset"
begin

text \<open>
  The consumer of apps/worker/src/orders/orders.consumer.ts: the two Redis connections, the BullMQ
  worker and the event stream it owns, their preparation, the run loop and the shutdown. The
  methods are split at their awaits into the segments that run without interruption; the step
  relation composes the segments in every order the event loop allows. How a constructor, a
  connection, the run loop or a closing call ends is an argument of its segment.
\<close>

section \<open>State\<close>

record resources =
  rs_redis :: bool
  rs_eventsRedis :: bool
  rs_worker :: bool
  rs_events :: bool

datatype resource = Redis_connection | Events_connection | Bull_worker | Queue_events

definition no_resources :: resources where
  "no_resources = \<lparr>rs_redis = False, rs_eventsRedis = False, rs_worker = False, rs_events = False\<rparr>"

definition held :: "resources \<Rightarrow> resource list" where
  "held rs = (if rs_worker rs then [Bull_worker] else []) @ (if rs_events rs then [Queue_events] else [])
     @ (if rs_redis rs then [Redis_connection] else []) @ (if rs_eventsRedis rs then [Events_connection] else [])"

text \<open>
  The promises the class keeps, by how far their methods have come: \<open>preparationPromise\<close>, with the
  resources its clean-up has taken; \<open>startPromise\<close>; \<open>runPromise\<close>; and \<open>closePromise\<close>, with the
  resources it has taken and whether the run loop had been started, then its errors.
\<close>

datatype preparation = Not_prepared | Connecting | Starting_timer | Prep_failed | Cleaning_up resources | Prepared

datatype starting = Not_started | Start_pending | Start_settled

datatype run_loop = No_run | Running | Run_over

datatype shutdown = Open | Closing resources bool | Settling "js_error list" | Closed "js_error list"

record consumer =
  cn_resources :: resources
  cn_preparation :: preparation
  cn_start :: starting
  cn_run :: run_loop
  cn_shutdown :: shutdown
  cn_ready :: bool
  cn_closing :: bool
  cn_listeners :: "nat list"

definition new_consumer :: consumer where
  "new_consumer = \<lparr>cn_resources = no_resources, cn_preparation = Not_prepared, cn_start = Not_started, cn_run = No_run,
     cn_shutdown = Open, cn_ready = False, cn_closing = False, cn_listeners = []\<rparr>"

section \<open>Closing what is owned\<close>

datatype close_call =
    Pause_worker | Close_worker | Unlisten_worker | Close_events | Unlisten_events
  | Quit resource | Disconnect resource

text \<open>How the calls end: the error of each, if any, and whether a \<open>quit\<close> outlasts its two seconds.\<close>

record close_fate =
  cf_error :: "close_call \<Rightarrow> js_error option"
  cf_slow :: "resource \<Rightarrow> bool"

definition quit_redis :: "close_fate \<Rightarrow> resource \<Rightarrow> close_call list" where
  "quit_redis f r = [Quit r] @ (if cf_slow f r then [Disconnect r] else [])
     @ (if cf_error f (Quit r) \<noteq> None then [Disconnect r] else [])"

definition bull_calls :: "resources \<Rightarrow> bool \<Rightarrow> close_call list" where
  "bull_calls rs processing =
     (if rs_worker rs then (if processing then [Pause_worker] else []) @ [Close_worker, Unlisten_worker] else [])
     @ (if rs_events rs then [Close_events, Unlisten_events] else [])"

definition redis_clients :: "resources \<Rightarrow> resource list" where
  "redis_clients rs = (if rs_redis rs then [Redis_connection] else []) @ (if rs_eventsRedis rs then [Events_connection] else [])"

text \<open>
  \<open>closeOwnedResources\<close>: the calls made and the errors returned. No error keeps a later call from
  being made; the two connections are closed side by side, their errors in this order.
\<close>

definition closeOwnedResources :: "close_fate \<Rightarrow> resources \<Rightarrow> bool \<Rightarrow> close_call list \<times> js_error list" where
  "closeOwnedResources f rs processing =
     (bull_calls rs processing @ concat (map (quit_redis f) (redis_clients rs)),
      List.map_filter (cf_error f) (bull_calls rs processing @ map Quit (redis_clients rs)))"

definition takeResources :: "consumer \<Rightarrow> resources \<times> consumer" where
  "takeResources c = (cn_resources c, c\<lparr>cn_resources := no_resources\<rparr>)"

section \<open>Preparation\<close>

text \<open>The resources after the first \<open>n\<close> of the four constructors of \<open>prepareResources\<close>.\<close>

definition construct :: "nat \<Rightarrow> resources" where
  "construct n = \<lparr>rs_redis = 0 < n, rs_eventsRedis = 1 < n, rs_worker = 2 < n, rs_events = 3 < n\<rparr>"

text \<open>
  \<open>prepareForBootstrapRecovery\<close> up to its first await: a promise that exists is returned, a closing
  consumer refuses, else the resources are constructed, \<open>n\<close> of them before one throws if \<open>n < 4\<close>.
\<close>

definition prepareForBootstrapRecovery :: "nat \<Rightarrow> consumer \<Rightarrow> consumer" where
  "prepareForBootstrapRecovery n c =
     (if cn_preparation c \<noteq> Not_prepared \<or> cn_closing c then c
      else c\<lparr>cn_resources := construct n, cn_preparation := (if n < 4 then Prep_failed else Connecting)\<rparr>)"

text \<open>The segments after the two awaits of \<open>prepareResources\<close>, and its \<open>catch\<close> handler.\<close>

definition connected :: "bool \<Rightarrow> consumer \<Rightarrow> consumer" where
  "connected ok c = c\<lparr>cn_preparation := (if ok \<and> \<not> cn_closing c then Starting_timer else Prep_failed)\<rparr>"

definition timer_started :: "bool \<Rightarrow> consumer \<Rightarrow> consumer" where
  "timer_started ok c = c\<lparr>cn_preparation := (if ok \<and> \<not> cn_closing c then Prepared else Prep_failed)\<rparr>"

definition prepare_catch :: "consumer \<Rightarrow> consumer" where
  "prepare_catch c = (case takeResources c of (rs, c1) \<Rightarrow> c1\<lparr>cn_preparation := Cleaning_up rs\<rparr>)"

section \<open>The run loop\<close>

text \<open>\<open>startProcessing\<close> after the preparation; \<open>running\<close> is what \<open>isRunning\<close> answers.\<close>

definition startProcessing :: "bool \<Rightarrow> consumer \<Rightarrow> unit result \<times> consumer" where
  "startProcessing running c =
     (if cn_closing c then (Inl (GenericError ''orders consumer is closing''), c)
      else if \<not> rs_worker (cn_resources c)
      then (Inl (GenericError ''orders consumer preparation completed without a Worker''), c)
      else let c1 = c\<lparr>cn_run := Running\<rparr>
           in if \<not> running then (Inl (GenericError ''orders consumer run loop did not start''), c1)
              else (Inr (), c1\<lparr>cn_ready := True\<rparr>))"

definition handleRunTermination :: "consumer \<Rightarrow> consumer" where
  "handleRunTermination c =
     (let c1 = c\<lparr>cn_run := Run_over\<rparr> in if cn_closing c then c1 else c1\<lparr>cn_ready := False\<rparr>)"

text \<open>The listeners are called one by one; an error of one is logged and the next is called.\<close>

fun notify :: "(nat \<Rightarrow> ('s, unit) io) \<Rightarrow> nat list \<Rightarrow> 's \<Rightarrow> 's" where
  "notify listener [] s = s"
| "notify listener (l # ls) s = notify listener ls (snd (listener l s))"

definition onUnexpectedRunTermination :: "nat \<Rightarrow> consumer \<Rightarrow> consumer" where
  "onUnexpectedRunTermination l c = c\<lparr>cn_listeners := List.insert l (cn_listeners c)\<rparr>"

definition unsubscribe :: "nat \<Rightarrow> consumer \<Rightarrow> consumer" where
  "unsubscribe l c = c\<lparr>cn_listeners := removeAll l (cn_listeners c)\<rparr>"

section \<open>Shutdown\<close>

text \<open>\<open>close\<close> up to its first await, and the end of \<open>closeResources\<close>.\<close>

definition close_begin :: "consumer \<Rightarrow> consumer" where
  "close_begin c =
     (if cn_shutdown c \<noteq> Open then c
      else case takeResources (c\<lparr>cn_closing := True, cn_ready := False\<rparr>) of
             (rs, c1) \<Rightarrow> c1\<lparr>cn_shutdown := Closing rs (cn_run c \<noteq> No_run)\<rparr>)"

definition close_end :: "js_error list \<Rightarrow> consumer \<Rightarrow> consumer" where
  "close_end errors c = c\<lparr>cn_preparation := Not_prepared, cn_start := Not_started, cn_run := No_run,
     cn_listeners := [], cn_shutdown := Closed errors\<rparr>"

section \<open>Interleavings\<close>

text \<open>
  The second component is what is open outside: every object constructed and not yet closed. The
  end of the shutdown waits until the preparation and the run loop it found have settled.
\<close>

definition settled :: "consumer \<Rightarrow> bool" where
  "settled c \<longleftrightarrow> (cn_preparation c = Not_prepared \<or> cn_preparation c = Prepared) \<and> cn_run c \<noteq> Running"

inductive consumer_step :: "consumer \<times> resource multiset \<Rightarrow> consumer \<times> resource multiset \<Rightarrow> bool" where
  prepares: "cn_preparation c = Not_prepared \<Longrightarrow> \<not> cn_closing c \<Longrightarrow>
    consumer_step (c, live) (prepareForBootstrapRecovery n c, live + mset (held (construct n)))"
| connects: "cn_preparation c = Connecting \<Longrightarrow> consumer_step (c, live) (connected ok c, live)"
| starts_timer: "cn_preparation c = Starting_timer \<Longrightarrow> consumer_step (c, live) (timer_started ok c, live)"
| catches: "cn_preparation c = Prep_failed \<Longrightarrow> consumer_step (c, live) (prepare_catch c, live)"
| cleaned: "cn_preparation c = Cleaning_up rs \<Longrightarrow>
    consumer_step (c, live) (c\<lparr>cn_preparation := Not_prepared\<rparr>, live - mset (held rs))"
| start_called: "cn_start c = Not_started \<Longrightarrow> consumer_step (c, live) (c\<lparr>cn_start := Start_pending\<rparr>, live)"
| start_resumes: "cn_start c = Start_pending \<Longrightarrow> cn_preparation c = Prepared \<Longrightarrow>
    consumer_step (c, live) ((snd (startProcessing running c))\<lparr>cn_start := Start_settled\<rparr>, live)"
| start_fails: "cn_start c = Start_pending \<Longrightarrow> cn_preparation c = Not_prepared \<Longrightarrow>
    consumer_step (c, live) (c\<lparr>cn_start := Start_settled\<rparr>, live)"
| run_ends: "cn_run c = Running \<Longrightarrow> consumer_step (c, live) (handleRunTermination c, live)"
| subscribes: "consumer_step (c, live) (onUnexpectedRunTermination l c, live)"
| unsubscribes: "consumer_step (c, live) (unsubscribe l c, live)"
| close_called: "cn_shutdown c = Open \<Longrightarrow> consumer_step (c, live) (close_begin c, live)"
| close_releases: "cn_shutdown c = Closing rs processing \<Longrightarrow>
    consumer_step (c, live) (c\<lparr>cn_shutdown := Settling (snd (closeOwnedResources f rs processing))\<rparr>, live - mset (held rs))"
| close_settles: "cn_shutdown c = Settling errors \<Longrightarrow> settled c \<Longrightarrow> consumer_step (c, live) (close_end errors c, live)"

inductive_cases consumer_stepE: "consumer_step (c, live) (c', live')"

lemmas consumer_defs = prepareForBootstrapRecovery_def connected_def timer_started_def prepare_catch_def takeResources_def
  startProcessing_def handleRunTermination_def onUnexpectedRunTermination_def unsubscribe_def close_begin_def close_end_def

definition prep_owned :: "preparation \<Rightarrow> resource list" where
  "prep_owned p = (case p of Cleaning_up rs \<Rightarrow> held rs | _ \<Rightarrow> [])"

definition close_owned :: "shutdown \<Rightarrow> resource list" where
  "close_owned s = (case s of Closing rs processing \<Rightarrow> held rs | _ \<Rightarrow> [])"

text \<open>Who owns what: the fields of the object, the clean-up of a failed preparation, or the shutdown.\<close>

definition owners :: "consumer \<Rightarrow> resource list" where
  "owners c = held (cn_resources c) @ prep_owned (cn_preparation c) @ close_owned (cn_shutdown c)"

definition consumer_inv :: "consumer \<Rightarrow> bool" where
  "consumer_inv c \<longleftrightarrow>
     (cn_closing c \<longleftrightarrow> cn_shutdown c \<noteq> Open)
     \<and> (cn_closing c \<longrightarrow> cn_resources c = no_resources \<and> \<not> cn_ready c)
     \<and> (cn_preparation c = Not_prepared \<or> (\<exists>rs. cn_preparation c = Cleaning_up rs) \<longrightarrow> cn_resources c = no_resources)
     \<and> (prep_owned (cn_preparation c) \<noteq> [] \<longrightarrow> close_owned (cn_shutdown c) = [])
     \<and> (cn_preparation c = Prepared \<and> \<not> cn_closing c \<longrightarrow> rs_worker (cn_resources c))
     \<and> ((cn_preparation c = Connecting \<or> cn_preparation c = Starting_timer) \<and> \<not> cn_closing c \<longrightarrow> cn_resources c = construct 4)
     \<and> (cn_run c = Running \<longrightarrow> cn_preparation c = Prepared)
     \<and> (cn_ready c \<longrightarrow> cn_run c = Running)
     \<and> ((\<exists>errors. cn_shutdown c = Closed errors) \<longrightarrow> cn_preparation c = Not_prepared)"

lemma held_simps [simp]: "held no_resources = []" "held (construct 4) = [Bull_worker, Queue_events, Redis_connection, Events_connection]"
  by (simp_all add: held_def no_resources_def construct_def)

lemma no_worker [simp]: "\<not> rs_worker no_resources" "rs_worker (construct 4)"
  by (simp_all add: no_resources_def construct_def)

lemma owned_simps [simp]:
  "prep_owned Not_prepared = []" "prep_owned Connecting = []" "prep_owned Starting_timer = []" "prep_owned Prep_failed = []"
  "prep_owned Prepared = []" "prep_owned (Cleaning_up rs) = held rs" "close_owned Open = []"
  "close_owned (Closing rs p) = held rs" "close_owned (Settling es) = []" "close_owned (Closed es) = []"
  by (simp_all add: prep_owned_def close_owned_def)

lemma construct_all: "\<not> n < 4 \<Longrightarrow> construct n = construct 4"
  by (simp add: construct_def)

lemma prep_ownedD: "prep_owned p \<noteq> [] \<Longrightarrow> \<exists>rs. p = Cleaning_up rs"
  by (cases p) simp_all

text \<open>Every segment keeps the invariant, and what is open outside is what somebody owns.\<close>

lemma consumer_step_inv:
  "consumer_step (c, live) (c', live') \<Longrightarrow> consumer_inv c \<Longrightarrow> consumer_inv c'"
  by (erule consumer_stepE) (auto simp: consumer_inv_def consumer_defs Let_def settled_def intro: construct_all dest: prep_ownedD split: if_splits)

lemma consumer_step_live:
  "consumer_step (c, live) (c', live') \<Longrightarrow> consumer_inv c \<Longrightarrow> live = mset (owners c) \<Longrightarrow> live' = mset (owners c')"
  by (erule consumer_stepE)
    (auto simp: consumer_inv_def consumer_defs owners_def Let_def settled_def split: if_splits)

lemma consumer_reachable:
  assumes "consumer_step\<^sup>*\<^sup>* (new_consumer, {#}) (c, live)"
  shows "consumer_inv c \<and> live = mset (owners c)"
  using assms
proof (induction rule: rtranclp_induct2)
  case refl
  then show ?case by (simp add: consumer_inv_def new_consumer_def owners_def)
next
  case (step c live c' live')
  then show ?case using consumer_step_inv consumer_step_live by blast
qed

text \<open>What is left to do for a shutdown under way.\<close>

definition work_left :: "consumer \<Rightarrow> nat" where
  "work_left c = (case cn_shutdown c of Open \<Rightarrow> 3 | Closing _ _ \<Rightarrow> 2 | Settling _ \<Rightarrow> 1 | Closed _ \<Rightarrow> 0)
     + (case cn_preparation c of Connecting \<Rightarrow> 3 | Starting_timer \<Rightarrow> 3 | Prep_failed \<Rightarrow> 2 | Cleaning_up _ \<Rightarrow> 1 | _ \<Rightarrow> 0)
     + (if cn_run c = Running then 1 else 0)"

lemma progressI:
  "consumer_step (c, live) (c', live') \<Longrightarrow> cn_closing c' \<Longrightarrow> work_left c' < work_left c \<Longrightarrow>
   \<exists>c' live'. consumer_step (c, live) (c', live') \<and> cn_closing c' \<and> work_left c' < work_left c"
  by blast

lemma shutdown_progress:
  assumes closing: "cn_closing c" and inv: "consumer_inv c" and more: "\<nexists>errors. cn_shutdown c = Closed errors"
  shows "\<exists>c' live'. consumer_step (c, live) (c', live') \<and> cn_closing c' \<and> work_left c' < work_left c"
proof (cases "settled c")
  case True
  show ?thesis
  proof (cases "cn_shutdown c")
    case Open
    then show ?thesis using closing inv by (simp add: consumer_inv_def)
  next
    case (Closing rs processing)
    then show ?thesis using closing
      by (intro progressI [OF close_releases [OF Closing]]) (simp_all add: work_left_def)
  next
    case (Settling errors)
    then show ?thesis using closing
      by (intro progressI [OF close_settles [OF Settling True]]) (simp_all add: work_left_def close_end_def)
  next
    case (Closed errors)
    then show ?thesis using more by blast
  qed
next
  case False
  then consider "cn_run c = Running" | "cn_preparation c = Connecting" | "cn_preparation c = Starting_timer"
    | "cn_preparation c = Prep_failed" | rs where "cn_preparation c = Cleaning_up rs"
    by (cases "cn_preparation c") (auto simp: settled_def)
  then show ?thesis
  proof cases
    case 1
    then show ?thesis using closing
      by (intro progressI [OF run_ends [OF 1]]) (simp_all add: work_left_def handleRunTermination_def)
  next
    case 2
    then show ?thesis using closing
      by (intro progressI [OF connects [OF 2]]) (simp_all add: work_left_def connected_def)
  next
    case 3
    then show ?thesis using closing
      by (intro progressI [OF starts_timer [OF 3]]) (simp_all add: work_left_def timer_started_def)
  next
    case 4
    then show ?thesis using closing
      by (intro progressI [OF catches [OF 4]]) (simp_all add: work_left_def prepare_catch_def takeResources_def)
  next
    case 5
    then show ?thesis using closing
      by (intro progressI [OF cleaned [OF 5]]) (simp_all add: work_left_def)
  qed
qed

lemma shutdown_ends:
  assumes "cn_closing c" and "consumer_inv c" and "live = mset (owners c)"
  shows "\<exists>c' errors. consumer_step\<^sup>*\<^sup>* (c, live) (c', {#}) \<and> cn_shutdown c' = Closed errors"
  using assms
proof (induction "work_left c" arbitrary: c live rule: less_induct)
  case less
  show ?case
  proof (cases "\<exists>errors. cn_shutdown c = Closed errors")
    case True
    with less.prems have "live = {#}" by (auto simp: consumer_inv_def owners_def)
    with True show ?thesis by blast
  next
    case False
    from shutdown_progress [OF less.prems(1,2) False, of live] obtain c1 live1 where
      s: "consumer_step (c, live) (c1, live1)" and c1: "cn_closing c1" "work_left c1 < work_left c" by blast
    have "consumer_inv c1" "live1 = mset (owners c1)"
      using consumer_step_inv consumer_step_live s less.prems(2,3) by blast+
    from less.hyps [OF c1(2,1) this] s show ?thesis by (meson converse_rtranclp_into_rtranclp)
  qed
qed

lemma distinct_held: "distinct (held rs)"
  by (simp add: held_def)

lemma owners_distinct: "consumer_inv c \<Longrightarrow> distinct (owners c)"
  by (cases "cn_preparation c"; cases "cn_shutdown c") (auto simp: consumer_inv_def owners_def distinct_held)


text \<open>A consumer closed while it is still connecting: the shutdown takes the four resources.\<close>

definition sample_closing :: consumer where
  "sample_closing = close_begin (prepareForBootstrapRecovery 4 new_consumer)"

lemma sample_closing_reachable:
  "consumer_step\<^sup>*\<^sup>* (new_consumer, {#}) (sample_closing, mset (held (construct 4)))"
proof -
  have 1: "consumer_step (new_consumer, {#}) (prepareForBootstrapRecovery 4 new_consumer, {#} + mset (held (construct 4)))"
    by (rule prepares) (simp_all add: new_consumer_def)
  have 2: "consumer_step (prepareForBootstrapRecovery 4 new_consumer, {#} + mset (held (construct 4)))
      (sample_closing, {#} + mset (held (construct 4)))"
    unfolding sample_closing_def by (rule close_called) (simp add: prepareForBootstrapRecovery_def new_consumer_def)
  from 1 2 have "consumer_step\<^sup>*\<^sup>* (new_consumer, {#}) (sample_closing, {#} + mset (held (construct 4)))"
    by (meson r_into_rtranclp rtranclp_trans)
  then show ?thesis by simp
qed


text \<open>Whatever fails, every resource taken gets its closing call, and every failure is reported.\<close>

lemma closing_call_made:
  "r \<in> set (held rs) \<Longrightarrow>
     (case r of Bull_worker \<Rightarrow> Close_worker | Queue_events \<Rightarrow> Close_events | _ \<Rightarrow> Quit r) \<in> set (fst (closeOwnedResources f rs p))"
  by (auto simp: held_def closeOwnedResources_def bull_calls_def redis_clients_def quit_redis_def split: if_splits)

lemma set_map_filter_Some: "set (List.map_filter g xs) = {y. \<exists>x \<in> set xs. g x = Some y}"
  by (force simp: List.map_filter_def image_iff)

lemma closing_error_reported:
  "c \<in> set (fst (closeOwnedResources f rs p)) \<Longrightarrow> cf_error f c = Some e \<Longrightarrow> (\<forall>x. c \<noteq> Disconnect x) \<Longrightarrow>
     e \<in> set (snd (closeOwnedResources f rs p))"
  by (auto simp: closeOwnedResources_def quit_redis_def set_map_filter_Some split: if_splits)

end
