(* ===== verification/Worker_Boot.thy ===== *)
theory Worker_Boot
  imports Worker_Lifecycle Orders_Consumer
begin

text \<open>
  The life of the reconciliation service (apps/worker/src/reconciliation/reconciliation.service.ts,
  \<open>start\<close> to \<open>stop\<close>) around its passes: the boot attempts with their back-off under the session lock
  of order.repository.ts, the transition from a reconciled, paused queue to a running consumer, its
  undoing, and the shutdown. Between two awaits the code runs alone; at each await a batch of
  events may come in: a request to stop, or the end of the consumer's run loop. The batches are part
  of the state, so that a statement about every state is one about every interleaving.
\<close>

section \<open>State and events\<close>

datatype life_event = Stop_requested | Run_terminates js_error

record 'q life =
  lf_worker :: "'q worker"
  lf_consumer :: consumer
  lf_closing :: bool
  lf_installed :: bool
  lf_subscribed :: bool
  lf_fatal :: "js_error option"
  lf_processingStarted :: bool
  lf_transitionCleaned :: bool
  lf_delays :: "int list"
  lf_events :: "life_event list list"

definition in_worker :: "('q worker, 'a) io \<Rightarrow> ('q life, 'a) io" where
  "in_worker = io_part lf_worker (\<lambda>k l. l\<lparr>lf_worker := k\<rparr>)"

definition set_flags :: "(reconciliation_state \<Rightarrow> reconciliation_state) \<Rightarrow> 'q life \<Rightarrow> 'q life" where
  "set_flags f l = l\<lparr>lf_worker := (lf_worker l)\<lparr>wk_state := f (wk_state (lf_worker l))\<rparr>\<rparr>"

definition put_consumer :: "(consumer \<Rightarrow> consumer) \<Rightarrow> 'q life \<Rightarrow> 'q life" where
  "put_consumer f l = l\<lparr>lf_consumer := f (lf_consumer l)\<rparr>"

definition io_do :: "('s \<Rightarrow> 's) \<Rightarrow> ('s, unit) io" where
  "io_do f s = (Inr (), f s)"

text \<open>The service's own listener has the number 0.\<close>

definition disposeContinuousLifecycle :: "'q life \<Rightarrow> 'q life" where
  "disposeContinuousLifecycle l = l\<lparr>lf_installed := False\<rparr>"

definition disposeTerminationSubscription :: "'q life \<Rightarrow> 'q life" where
  "disposeTerminationSubscription l =
     (if lf_subscribed l then put_consumer (unsubscribe 0) (l\<lparr>lf_subscribed := False\<rparr>) else l)"

text \<open>\<open>handleUnexpectedConsumerTermination\<close> with its effects outside the flags.\<close>

definition consumer_terminated :: "js_error \<Rightarrow> 'q life \<Rightarrow> 'q life" where
  "consumer_terminated e l =
     (let l1 = disposeContinuousLifecycle (set_flags handleUnexpectedConsumerTermination l)
      in if lf_fatal l1 \<noteq> None then l1 else l1\<lparr>lf_fatal := Some e\<rparr>)"

text \<open>\<open>stopLifecycle\<close> up to its first await; a second call finds the promise of the first.\<close>

definition stop_begin :: "'q life \<Rightarrow> 'q life" where
  "stop_begin l =
     (if lf_closing l then l
      else put_consumer close_begin (disposeTerminationSubscription (disposeContinuousLifecycle
             (set_flags withdraw (l\<lparr>lf_closing := True\<rparr>)))))"

fun handle_event :: "life_event \<Rightarrow> 'q life \<Rightarrow> 'q life" where
  "handle_event Stop_requested l = stop_begin l"
| "handle_event (Run_terminates e) l =
     (if cn_run (lf_consumer l) \<noteq> Running then l
      else let l1 = put_consumer handleRunTermination l
           in if cn_closing (lf_consumer l) then l1
              else notify (\<lambda>_. io_do (consumer_terminated e)) (cn_listeners (lf_consumer l)) l1)"

definition await :: "'q life \<Rightarrow> 'q life" where
  "await l = (case lf_events l of [] \<Rightarrow> l | es # rest \<Rightarrow> fold handle_event es (l\<lparr>lf_events := rest\<rparr>))"

text \<open>A call that is awaited: its effect, then what comes in before its caller continues.\<close>

definition awaited :: "('q life, 'a) io \<Rightarrow> ('q life, 'a) io" where
  "awaited m l = (case m l of (r, l1) \<Rightarrow> (r, await l1))"

definition checkpoint :: "('q life, unit) io" where
  "checkpoint l = (if lf_closing l then Inl WorkerLifecycleAbortError else Inr (), l)"

definition throwIfConsumerTerminated :: "('q life, unit) io" where
  "throwIfConsumerTerminated l = (case lf_fatal l of None \<Rightarrow> Inr () | Some e \<Rightarrow> Inl e, l)"

definition isPurePlannedCancellation :: "js_error \<Rightarrow> 'q life \<Rightarrow> bool" where
  "isPurePlannedCancellation e l \<longleftrightarrow> lf_closing l \<and> e = WorkerLifecycleAbortError"

section \<open>The session lock\<close>

text \<open>
  How the calls of \<open>withSessionReconciliationLock\<close> end: the connection, the number of polls that find
  the lock taken, the last poll, the unlocking and the release of the client.
\<close>

record lock_fate =
  lk_connect :: "unit result"
  lk_polls :: nat
  lk_answer :: "unit result"
  lk_unlock :: "bool result"
  lk_release :: "unit result"

definition abortableDelay :: "('q life, unit) io" where
  "abortableDelay = io_bind (awaited checkpoint) (\<lambda>_. checkpoint)"

fun acquire :: "nat \<Rightarrow> unit result \<Rightarrow> ('q life, unit) io" where
  "acquire 0 answer = io_bind checkpoint (\<lambda>_. awaited (io_lift answer))"
| "acquire (Suc polls) answer =
     io_bind checkpoint (\<lambda>_. io_bind (awaited (io_return ())) (\<lambda>_. io_bind abortableDelay (\<lambda>_. acquire polls answer)))"

definition lock_cleanup :: "lock_fate \<Rightarrow> bool \<Rightarrow> js_error list" where
  "lock_cleanup lk acquired =
     (if acquired
      then (case lk_unlock lk of
              Inl e \<Rightarrow> [e]
            | Inr unlocked \<Rightarrow> if unlocked then [] else [GenericError ''Postgres reconciliation advisory lock was not released''])
      else [])
     @ (case lk_release lk of Inl e \<Rightarrow> [e] | Inr _ \<Rightarrow> [])"

definition lock_result :: "'a result \<Rightarrow> js_error list \<Rightarrow> 'a result" where
  "lock_result r errors =
     (if errors = [] then r
      else case r of
             Inl e \<Rightarrow> Inl (AggregateError ''reconciliation work and session-lock cleanup failed'')
           | Inr _ \<Rightarrow> Inl (AggregateError ''reconciliation session-lock cleanup failed''))"

definition withSessionReconciliationLock :: "lock_fate \<Rightarrow> ('q life, 'a) io \<Rightarrow> ('q life, 'a) io" where
  "withSessionReconciliationLock lk work =
     io_bind (awaited (io_lift (lk_connect lk))) (\<lambda>_ l.
       case acquire (lk_polls lk) (lk_answer lk) l of
         (Inl e, l1) \<Rightarrow> (lock_result (Inl e) (lock_cleanup lk False), l1)
       | (Inr _, l1) \<Rightarrow>
           (case io_bind checkpoint (\<lambda>_. work) l1 of
              (r, l2) \<Rightarrow> (lock_result r (lock_cleanup lk True), await l2)))"

section \<open>One attempt to boot\<close>

text \<open>
  What one attempt meets: the session lock; the constructors and connections of the consumer; the
  clock and the other users of the queue during the drain; whether the run loop starts; and the
  closing calls, should the attempt be undone.
\<close>

record 'q boot_run =
  br_lock :: lock_fate
  br_built :: nat
  br_connects :: bool
  br_timer :: bool
  br_prepare_error :: js_error
  br_time :: redis_time
  br_clock :: "nat \<Rightarrow> int"
  br_others :: "nat \<Rightarrow> 'q \<Rightarrow> 'q"
  br_now :: int
  br_running :: bool
  br_close :: close_fate

text \<open>
  \<open>prepareConsumerForBootstrap\<close>: the preparation raced against the abort. A preparation that
  succeeded in an earlier attempt is reused.
\<close>

definition when_prep :: "preparation \<Rightarrow> (consumer \<Rightarrow> consumer) \<Rightarrow> consumer \<Rightarrow> consumer" where
  "when_prep p f c = (if cn_preparation c = p then f c else c)"

definition prepare_undo :: "js_error \<Rightarrow> ('q life, unit) io" where
  "prepare_undo e =
     io_bind (awaited (io_do (put_consumer prepare_catch))) (\<lambda>_.
     io_bind (io_do (put_consumer (\<lambda>c. c\<lparr>cn_preparation := Not_prepared\<rparr>))) (\<lambda>_.
     io_bind checkpoint (\<lambda>_. io_throw e)))"

definition prepare_ends :: "js_error \<Rightarrow> ('q life, unit) io" where
  "prepare_ends e l =
     (case cn_preparation (lf_consumer l) of
        Prepared \<Rightarrow> (Inr (), l)
      | Not_prepared \<Rightarrow> (Inl (GenericError ''orders consumer is closing''), l)
      | _ \<Rightarrow> prepare_undo e l)"

definition prepareConsumerForBootstrap :: "'q boot_run \<Rightarrow> ('q life, unit) io" where
  "prepareConsumerForBootstrap br =
     io_bind checkpoint (\<lambda>_.
     io_bind (awaited (io_do (put_consumer (prepareForBootstrapRecovery (br_built br))))) (\<lambda>_.
     io_bind checkpoint (\<lambda>_.
     io_bind (awaited (io_do (put_consumer (when_prep Connecting (connected (br_connects br)))))) (\<lambda>_.
     io_bind checkpoint (\<lambda>_.
     io_bind (awaited (io_do (put_consumer (when_prep Starting_timer (timer_started (br_timer br)))))) (\<lambda>_.
     io_bind checkpoint (\<lambda>_. prepare_ends (br_prepare_error br))))))))"

definition bootPass :: "'q pass_env \<Rightarrow> (string \<Rightarrow> js_num) \<Rightarrow> 'q boot_run \<Rightarrow> ('q life, pass_result) io" where
  "bootPass pe date_parse br =
     io_bind checkpoint (\<lambda>_.
     io_bind (awaited (in_worker (boot_pause pe))) (\<lambda>_.
     io_bind checkpoint (\<lambda>_.
     io_bind (prepareConsumerForBootstrap br) (\<lambda>_.
     io_bind checkpoint (\<lambda>_.
     io_bind (awaited (in_worker (boot_diff pe date_parse (br_time br) (br_clock br) (br_others br) (br_now br)))) (\<lambda>result.
     io_bind checkpoint (\<lambda>_. io_return result)))))))"

text \<open>The flags at the two ends of the transition.\<close>

definition before_transition :: "pass_result \<Rightarrow> reconciliation_state \<Rightarrow> reconciliation_state" where
  "before_transition result s = s\<lparr>retainedQueueEntries := ps_queueIssueCount result, bootstrapReconciled := False,
     consumerReady := False, reconciliationHealthy := False\<rparr>"

definition after_transition :: "pass_result \<Rightarrow> reconciliation_state \<Rightarrow> reconciliation_state" where
  "after_transition result s = s\<lparr>bootstrapReconciled := True, consumerReady := True,
     reconciliationHealthy := \<not> ps_degraded result, reconciliationFailureConfirmed := ps_degraded result\<rparr>"

lemma publish_boot_transition: "publish_boot result s = after_transition result (before_transition result s)"
  by (simp add: publish_boot_def after_transition_def before_transition_def)

definition start_consumer :: "bool \<Rightarrow> ('q life, unit) io" where
  "start_consumer running l =
     (case startProcessing running (lf_consumer l) of
        (r, c) \<Rightarrow> (r, l\<lparr>lf_consumer := c\<lparr>cn_start := Start_settled\<rparr>\<rparr>))"

definition require_ready :: "('q life, unit) io" where
  "require_ready l = (if cn_ready (lf_consumer l) then Inr ()
     else Inl (GenericError ''orders consumer did not become ready''), l)"

definition installContinuousLifecycle :: "'q life \<Rightarrow> 'q life" where
  "installContinuousLifecycle l = l\<lparr>lf_installed := True\<rparr>"

definition resume_queue :: "'q bullmq \<Rightarrow> ('q life, unit) io" where
  "resume_queue ops =
     io_bind (awaited (in_worker (in_world (on_queue (q_resume ops))))) (\<lambda>_.
     io_bind checkpoint (\<lambda>_.
     io_bind (awaited (in_worker (in_world (on_queue (q_isPaused ops))))) (\<lambda>paused.
       if paused then io_throw (GenericError ''orders queue remained paused after resume'') else io_return ())))"

definition go_live :: "'q pass_env \<Rightarrow> 'q boot_run \<Rightarrow> pass_result \<Rightarrow> ('q life, unit) io" where
  "go_live pe br result =
     io_bind (awaited (io_return ())) (\<lambda>_.
     io_bind checkpoint (\<lambda>_.
     io_bind (io_do (\<lambda>l. l\<lparr>lf_processingStarted := True\<rparr>)) (\<lambda>_.
     io_bind (awaited (start_consumer (br_running br))) (\<lambda>_.
     io_bind checkpoint (\<lambda>_.
     io_bind throwIfConsumerTerminated (\<lambda>_.
     io_bind require_ready (\<lambda>_.
     io_bind (io_do installContinuousLifecycle) (\<lambda>_.
     io_bind checkpoint (\<lambda>_.
     io_bind throwIfConsumerTerminated (\<lambda>_.
     io_bind (resume_queue (pe_ops pe)) (\<lambda>_.
     io_bind checkpoint (\<lambda>_.
     io_bind throwIfConsumerTerminated (\<lambda>_.
     io_bind (awaited (io_return ())) (\<lambda>_.
     io_bind checkpoint (\<lambda>_.
     io_bind throwIfConsumerTerminated (\<lambda>_.
       io_do (set_flags (after_transition result))))))))))))))))))"

section \<open>Undoing a transition\<close>

text \<open>
  \<open>close\<close> of the consumer as the service awaits it: the closing calls are made when the batch of
  events after its first segment has been handled; a shutdown already completed is reported again.
\<close>

definition close_outcome :: "js_error list \<Rightarrow> unit result" where
  "close_outcome errors = (if errors = [] then Inr () else Inl (AggregateError ''orders consumer shutdown failed''))"

definition close_finish :: "close_fate \<Rightarrow> ('q life, unit) io" where
  "close_finish f l =
     (case cn_shutdown (lf_consumer l) of
        Closing rs processing \<Rightarrow>
          (let errors = snd (closeOwnedResources f rs processing)
           in (close_outcome errors, put_consumer (close_end errors) l))
      | Closed errors \<Rightarrow> (close_outcome errors, l)
      | _ \<Rightarrow> (Inr (), l))"

definition close_consumer :: "close_fate \<Rightarrow> ('q life, unit) io" where
  "close_consumer f = io_bind (awaited (io_do (put_consumer close_begin))) (\<lambda>_. close_finish f)"

definition pause_again :: "'q bullmq \<Rightarrow> ('q life, unit) io" where
  "pause_again ops =
     io_bind (awaited (in_worker (in_world (on_queue (q_pause ops))))) (\<lambda>_.
     io_bind (awaited (in_worker (in_world (on_queue (q_isPaused ops))))) (\<lambda>paused.
       if paused then io_return ()
       else io_throw (GenericError ''orders queue did not enter paused state during transition cleanup'')))"

definition cleanupHalfTransition :: "'q bullmq \<Rightarrow> close_fate \<Rightarrow> js_error \<Rightarrow> 'q life \<Rightarrow> js_error \<times> 'q life" where
  "cleanupHalfTransition ops f originalError l =
     (let l1 = disposeTerminationSubscription (disposeContinuousLifecycle (set_flags withdraw l))
      in case pause_again ops l1 of (r1, l2) \<Rightarrow>
         (case close_consumer f l2 of (r2, l3) \<Rightarrow>
            (if r1 = Inr () \<and> r2 = Inr () then originalError
             else AggregateError ''worker transition and cleanup failed'', l3)))"

definition transition_failed :: "'q pass_env \<Rightarrow> 'q boot_run \<Rightarrow> js_error \<Rightarrow> ('q life, unit) io" where
  "transition_failed pe br e l =
     (if \<not> lf_processingStarted l then (Inl e, disposeTerminationSubscription l)
      else (case cleanupHalfTransition (pe_ops pe) (br_close br) e (l\<lparr>lf_transitionCleaned := True\<rparr>) of
              (f, l1) \<Rightarrow> (Inl f, l1)))"

definition transition_phase :: "'q pass_env \<Rightarrow> 'q boot_run \<Rightarrow> pass_result \<Rightarrow> ('q life, unit) io" where
  "transition_phase pe br result =
     io_bind (io_do (\<lambda>l. put_consumer (onUnexpectedRunTermination 0) (set_flags (before_transition result) l\<lparr>lf_subscribed := True\<rparr>))) (\<lambda>_.
     io_catch (go_live pe br result) (transition_failed pe br))"

definition boot_attempt :: "'q pass_env \<Rightarrow> (string \<Rightarrow> js_num) \<Rightarrow> 'q boot_run \<Rightarrow> ('q life, unit) io" where
  "boot_attempt pe date_parse br =
     withSessionReconciliationLock (br_lock br)
       (io_bind (bootPass pe date_parse br) (\<lambda>result.
        io_bind checkpoint (\<lambda>_. transition_phase pe br result)))"

section \<open>The life cycle\<close>

text \<open>
  \<open>startLifecycle\<close> over the attempts it gets to make: \<open>None\<close> means that it is still retrying when they
  are used up. The delays it asks for are recorded.
\<close>

definition next_delay :: "int \<Rightarrow> int" where
  "next_delay d = min (d * 2) 5000"

fun startLifecycle ::
  "'q pass_env \<Rightarrow> (string \<Rightarrow> js_num) \<Rightarrow> 'q boot_run list \<Rightarrow> int \<Rightarrow> 'q life \<Rightarrow> unit result option \<times> 'q life" where
  "startLifecycle pe date_parse [] delayMs l = (if lf_closing l then Some (Inl WorkerLifecycleAbortError) else None, l)"
| "startLifecycle pe date_parse (br # brs) delayMs l =
     (if lf_closing l then (Some (Inl WorkerLifecycleAbortError), l)
      else case boot_attempt pe date_parse br (l\<lparr>lf_processingStarted := False, lf_transitionCleaned := False\<rparr>) of
             (Inr _, l1) \<Rightarrow> (Some (Inr ()), l1)
           | (Inl e, l1) \<Rightarrow>
               if isPurePlannedCancellation e l1 then (Some (Inl e), l1)
               else if lf_processingStarted l1 then
                 (case (if lf_transitionCleaned l1 then (e, l1) else cleanupHalfTransition (pe_ops pe) (br_close br) e l1) of
                    (failure, l2) \<Rightarrow>
                      (Some (Inl failure),
                       if \<not> isPurePlannedCancellation failure l2 \<and> lf_closing l2 then set_flags fail_state l2 else l2))
               else if lf_closing l1 then (Some (Inl e), set_flags fail_state l1)
               else let l2 = await ((set_flags fail_state l1)\<lparr>lf_delays := lf_delays l1 @ [delayMs]\<rparr>)
                    in if lf_closing l2 then (Some (Inl WorkerLifecycleAbortError), l2)
                       else startLifecycle pe date_parse brs (next_delay delayMs) l2)"

text \<open>\<open>stopLifecycle\<close> after its waits: the errors of the parts, planned cancellations left out.\<close>

definition stop_errors :: "unit result list \<Rightarrow> js_error list" where
  "stop_errors results =
     filter (\<lambda>e. e \<noteq> WorkerLifecycleAbortError) (List.map_filter (\<lambda>r. case r of Inl e \<Rightarrow> Some e | Inr _ \<Rightarrow> None) results)"

definition stop_result :: "unit result list \<Rightarrow> unit result" where
  "stop_result results = (if stop_errors results = [] then Inr () else Inl (AggregateError ''reconciliation shutdown failed''))"

section \<open>Assertions about effectful code\<close>

text \<open>From a state with \<open>P\<close> the code returns with \<open>Q\<close> or throws with \<open>E\<close>.\<close>

definition triple :: "('s \<Rightarrow> bool) \<Rightarrow> ('s, 'a) io \<Rightarrow> ('a \<Rightarrow> 's \<Rightarrow> bool) \<Rightarrow> ('s \<Rightarrow> bool) \<Rightarrow> bool" where
  "triple P m Q E \<longleftrightarrow> (\<forall>s. P s \<longrightarrow> (case m s of (Inr x, t) \<Rightarrow> Q x t | (Inl e, t) \<Rightarrow> E t))"

lemma tripleD: "triple P m Q E \<Longrightarrow> P s \<Longrightarrow> (case m s of (Inr x, t) \<Rightarrow> Q x t | (Inl e, t) \<Rightarrow> E t)"
  by (simp add: triple_def)

lemma triple_bind:
  "triple P m R E \<Longrightarrow> (\<And>x. triple (R x) (f x) Q E) \<Longrightarrow> triple P (io_bind m f) Q E"
  unfolding triple_def io_bind_def by (fastforce split: prod.splits sum.splits)

lemma triple_weaken:
  "triple P m Q E \<Longrightarrow> (\<And>s. P' s \<Longrightarrow> P s) \<Longrightarrow> (\<And>x s. Q x s \<Longrightarrow> Q' x s) \<Longrightarrow> (\<And>s. E s \<Longrightarrow> E' s) \<Longrightarrow> triple P' m Q' E'"
  unfolding triple_def by (fastforce split: prod.splits sum.splits)

lemma triple_error: "triple P m Q E \<Longrightarrow> (\<And>s. E s \<Longrightarrow> E' s) \<Longrightarrow> triple P m Q E'"
  by (rule triple_weaken)

lemma triple_do: "(\<And>s. P s \<Longrightarrow> Q () (f s)) \<Longrightarrow> triple P (io_do f) Q E"
  by (simp add: triple_def io_do_def)

lemma triple_pure:
  "(\<And>s. P s \<Longrightarrow> Q x s) \<Longrightarrow> triple P (io_return x) Q E"
  "(\<And>s. P s \<Longrightarrow> E s) \<Longrightarrow> triple P (io_throw e) Q E"
  "(\<And>x s. P s \<Longrightarrow> Q x s) \<Longrightarrow> (\<And>s. P s \<Longrightarrow> E s) \<Longrightarrow> triple P (io_lift r) Q E"
  by (simp_all add: triple_def split: sum.split)

abbreviation holds :: "('s \<Rightarrow> bool) \<Rightarrow> ('s, 'a) io \<Rightarrow> bool" where
  "holds P m \<equiv> triple P m (\<lambda>_. P) P"

lemma holds_basic: "holds P (io_return x)" "holds P (io_throw e)" "holds P (io_lift r)"
  by (rule triple_pure; simp)+

lemma holds_branch: "holds P m \<Longrightarrow> holds P n \<Longrightarrow> holds P (if b then m else n)"
  by simp

section \<open>What the events keep\<close>

abbreviation flags_of :: "'q life \<Rightarrow> reconciliation_state" where
  "flags_of l \<equiv> wk_state (lf_worker l)"

definition life_view :: "'q life \<Rightarrow> (bool \<times> bool) \<times> consumer \<times> (bool \<times> bool \<times> bool \<times> bool) \<times> js_error option" where
  "life_view l = ((bootstrapReconciled (flags_of l), consumerReady (flags_of l)), lf_consumer l,
     (lf_closing l, lf_installed l, lf_processingStarted l, lf_transitionCleaned l), lf_fatal l)"

definition stable :: "('q life \<Rightarrow> bool) \<Rightarrow> bool" where
  "stable P \<longleftrightarrow> (\<forall>l l'. life_view l = life_view l' \<longrightarrow> P l \<longrightarrow> P l') \<and> (\<forall>e l. P l \<longrightarrow> P (handle_event e l))"

lemma stable_view: "stable P \<Longrightarrow> P l \<Longrightarrow> life_view l' = life_view l \<Longrightarrow> P l'"
  unfolding stable_def by metis

lemma stable_event: "stable P \<Longrightarrow> P l \<Longrightarrow> P (handle_event e l)"
  unfolding stable_def by blast

lemma stable_await:
  assumes "stable P" and "P l"
  shows "P (await l)"
proof -
  have "P (fold handle_event es l')" if "P l'" for es and l' :: "'a life"
    using that by (induction es arbitrary: l') (simp_all add: stable_event [OF assms(1)])
  moreover have "P (l\<lparr>lf_events := es\<rparr>)" for es
    by (rule stable_view [OF assms]) (simp add: life_view_def)
  ultimately show ?thesis using assms(2) by (simp add: await_def split: list.split)
qed

lemma triple_awaited:
  assumes "triple P m Q E" and "\<And>x. stable (Q x)" and "stable E"
  shows "triple P (awaited m) Q E"
  unfolding triple_def
proof (intro allI impI)
  fix s
  assume "P s"
  then have "case m s of (Inr x, t) \<Rightarrow> Q x t | (Inl e, t) \<Rightarrow> E t" using assms(1) by (simp add: triple_def)
  then show "case awaited m s of (Inr x, t) \<Rightarrow> Q x t | (Inl e, t) \<Rightarrow> E t"
    by (auto simp: awaited_def intro: stable_await [OF assms(2)] stable_await [OF assms(3)] split: prod.splits sum.splits)
qed

lemma triple_checkpoint: "triple P checkpoint (\<lambda>_ l. P l \<and> \<not> lf_closing l) P"
  by (simp add: triple_def checkpoint_def)

lemma triple_terminated: "triple P throwIfConsumerTerminated (\<lambda>_ l. P l \<and> lf_fatal l = None) P"
  by (simp add: triple_def throwIfConsumerTerminated_def split: option.split)

lemma holds_checks: "holds P checkpoint" "holds P throwIfConsumerTerminated"
  by (simp_all add: triple_def checkpoint_def throwIfConsumerTerminated_def split: option.split)

definition flags_kept :: "'q worker \<Rightarrow> 'q worker \<Rightarrow> bool" where
  "flags_kept k k' \<longleftrightarrow> bootstrapReconciled (wk_state k') = bootstrapReconciled (wk_state k)
     \<and> consumerReady (wk_state k') = consumerReady (wk_state k)"

interpretation fl: io_relation flags_kept
  by unfold_locales (simp_all add: flags_kept_def)

lemma fl_basic:
  "fl.within (in_world m)" "fl.within (set_offset n)"
  "(\<And>s. bootstrapReconciled (f s) = bootstrapReconciled s \<and> consumerReady (f s) = consumerReady s) \<Longrightarrow> fl.within (set_state f)"
  by (simp_all add: fl.within_def flags_kept_def in_world_def io_part_def set_offset_def set_state_def case_prod_unfold)

lemma fl_sweepFailed: "fl.within (sweepFailed ops env now)"
  unfolding fl.within_def sweepFailed_def
  by (rule allI, rule fl.within_eta) (intro fl.within_intros fl_basic; simp)

lemma fl_boot: "fl.within (boot_pause pe)" "fl.within (boot_diff pe date_parse time clock others now)"
  unfolding boot_pause_def boot_diff_def runDiff_def
  by (intro fl.within_intros fl_basic fl_sweepFailed; simp)+

lemma holds_in_worker:
  assumes "stable P" and "fl.within m"
  shows "holds P (in_worker m)"
proof -
  have "P (l\<lparr>lf_worker := k\<rparr>)" if "P l" "m (lf_worker l) = (r, k)" for l k r
    using fl.within_eta [OF assms(2), of "lf_worker l"] that
    by (intro stable_view [OF assms(1) that(1)]) (simp add: flags_kept_def life_view_def)
  then show ?thesis by (auto simp: triple_def in_worker_def io_part_def split: prod.splits sum.splits)
qed

section \<open>The assertions of the boot\<close>

text \<open>
  \<open>life_inv\<close>: the timers run only beside a ready consumer that is watched, and the flags promise a
  consumer only beside the timers. The others say how far the boot has come, as long as neither a
  stop nor a dead run loop has come in.
\<close>

definition life_inv :: "'q life \<Rightarrow> bool" where
  "life_inv l \<longleftrightarrow> consumer_inv (lf_consumer l)
     \<and> (lf_closing l \<longrightarrow> cn_closing (lf_consumer l) \<and> \<not> lf_installed l \<and> \<not> bootstrapReconciled (flags_of l))
     \<and> (lf_installed l \<longrightarrow> cn_ready (lf_consumer l) \<and> cn_listeners (lf_consumer l) \<noteq> [] \<and> lf_fatal l = None)
     \<and> (consumerReady (flags_of l) \<longrightarrow> bootstrapReconciled (flags_of l) \<and> lf_installed l)"

abbreviation undisturbed :: "'q life \<Rightarrow> bool" where
  "undisturbed l \<equiv> \<not> lf_closing l \<and> lf_fatal l = None"

definition withdrawn :: "'q life \<Rightarrow> bool" where
  "withdrawn l \<longleftrightarrow> life_inv l \<and> \<not> bootstrapReconciled (flags_of l) \<and> \<not> consumerReady (flags_of l) \<and> \<not> lf_installed l"

definition undone :: "'q life \<Rightarrow> bool" where
  "undone l \<longleftrightarrow> withdrawn l \<and> cn_closing (lf_consumer l)"

definition quiet :: "'q life \<Rightarrow> bool" where
  "quiet l \<longleftrightarrow> life_inv l \<and> \<not> bootstrapReconciled (flags_of l) \<and> \<not> consumerReady (flags_of l) \<and> \<not> lf_transitionCleaned l"

definition idle :: "'q life \<Rightarrow> bool" where
  "idle l \<longleftrightarrow> quiet l \<and> \<not> lf_installed l"

definition cleaning :: "'q life \<Rightarrow> bool" where
  "cleaning l \<longleftrightarrow> idle l \<and> (\<exists>rs. cn_preparation (lf_consumer l) = Cleaning_up rs)"

definition prepared :: "'q life \<Rightarrow> bool" where
  "prepared l \<longleftrightarrow> idle l \<and> cn_preparation (lf_consumer l) = Prepared"

definition watched :: "'q life \<Rightarrow> bool" where
  "watched l \<longleftrightarrow> prepared l \<and> (undisturbed l \<longrightarrow> cn_listeners (lf_consumer l) \<noteq> [])"

definition watched_run :: "'q life \<Rightarrow> bool" where
  "watched_run l \<longleftrightarrow> idle l \<and> lf_processingStarted l \<and> (undisturbed l \<longrightarrow> cn_listeners (lf_consumer l) \<noteq> [])"

definition armed :: "'q life \<Rightarrow> bool" where
  "armed l \<longleftrightarrow> quiet l \<and> lf_processingStarted l \<and> (undisturbed l \<longrightarrow> lf_installed l)"

definition live_now :: "'q life \<Rightarrow> bool" where
  "live_now l \<longleftrightarrow> life_inv l \<and> lf_processingStarted l \<and> \<not> lf_transitionCleaned l
     \<and> (undisturbed l \<longrightarrow> bootstrapReconciled (flags_of l) \<and> consumerReady (flags_of l))"

definition broken :: "'q life \<Rightarrow> bool" where
  "broken l \<longleftrightarrow> quiet l \<and> (lf_processingStarted l \<or> \<not> lf_installed l)"

definition failed_attempt :: "'q life \<Rightarrow> bool" where
  "failed_attempt l \<longleftrightarrow> life_inv l \<and> (lf_transitionCleaned l \<longrightarrow> undone l)
     \<and> (\<not> lf_transitionCleaned l \<and> \<not> lf_processingStarted l \<longrightarrow> idle l)"

lemmas assertion_defs = withdrawn_def undone_def quiet_def idle_def cleaning_def prepared_def watched_def watched_run_def
  armed_def live_now_def broken_def failed_attempt_def

lemma consumer_segments:
  "consumer_inv c \<Longrightarrow> consumer_inv (close_begin c)"
  "consumer_inv c \<Longrightarrow> consumer_inv (handleRunTermination c)"
  "consumer_inv (unsubscribe k c) \<longleftrightarrow> consumer_inv c"
  "consumer_inv (onUnexpectedRunTermination k c) \<longleftrightarrow> consumer_inv c"
  by (auto simp: consumer_inv_def consumer_defs Let_def dest: prep_ownedD)

lemma consumer_fields:
  "cn_closing (close_begin c) \<longleftrightarrow> cn_closing c \<or> cn_shutdown c = Open" "cn_preparation (close_begin c) = cn_preparation c"
  "cn_closing (handleRunTermination c) = cn_closing c" "cn_preparation (handleRunTermination c) = cn_preparation c"
  "cn_listeners (handleRunTermination c) = cn_listeners c"
  "cn_closing (unsubscribe k c) = cn_closing c" "cn_preparation (unsubscribe k c) = cn_preparation c"
  "cn_ready (unsubscribe k c) = cn_ready c"
  by (simp_all add: consumer_defs Let_def)

lemma subscribe_fields:
  "cn_closing (onUnexpectedRunTermination k c) = cn_closing c" "cn_preparation (onUnexpectedRunTermination k c) = cn_preparation c"
  "cn_ready (onUnexpectedRunTermination k c) = cn_ready c" "cn_listeners (onUnexpectedRunTermination k c) \<noteq> []"
  by (auto simp: onUnexpectedRunTermination_def List.insert_def)

text \<open>The events, as they change what the assertions look at.\<close>

lemma stop_begin_view:
  "lf_closing (stop_begin l)" "lf_fatal (stop_begin l) = lf_fatal l"
  "lf_processingStarted (stop_begin l) = lf_processingStarted l"
  "cn_preparation (lf_consumer (stop_begin l)) = cn_preparation (lf_consumer l)"
  "lf_transitionCleaned (stop_begin l) = lf_transitionCleaned l"
  "\<not> lf_closing l \<Longrightarrow> \<not> lf_installed (stop_begin l) \<and> \<not> bootstrapReconciled (flags_of (stop_begin l))
     \<and> \<not> consumerReady (flags_of (stop_begin l))"
  "lf_closing l \<Longrightarrow> stop_begin l = l"
  by (simp_all add: stop_begin_def put_consumer_def set_flags_def disposeTerminationSubscription_def
      disposeContinuousLifecycle_def withdraw_def consumer_fields)

lemma stop_begin_consumer:
  "\<not> lf_closing l \<Longrightarrow> lf_consumer (stop_begin l)
     = close_begin (if lf_subscribed l then unsubscribe 0 (lf_consumer l) else lf_consumer l)"
  by (simp add: stop_begin_def put_consumer_def set_flags_def disposeTerminationSubscription_def disposeContinuousLifecycle_def)

lemma close_begin_closes: "consumer_inv c \<Longrightarrow> cn_closing (close_begin c)"
  by (auto simp: consumer_fields consumer_inv_def)

lemma stop_begin_inv:
  assumes "life_inv l"
  shows "life_inv (stop_begin l)"
proof (cases "lf_closing l")
  case False
  have "consumer_inv (if lf_subscribed l then unsubscribe 0 (lf_consumer l) else lf_consumer l)"
    using assms by (simp add: life_inv_def consumer_segments)
  then have "consumer_inv (lf_consumer (stop_begin l))" "cn_closing (lf_consumer (stop_begin l))"
    unfolding stop_begin_consumer [OF False] by (rule consumer_segments(1), rule close_begin_closes)
  with False show ?thesis by (simp add: life_inv_def stop_begin_view)
qed (simp add: stop_begin_view(7) assms)

lemma consumer_terminated_again: "consumer_terminated e (consumer_terminated e l) = consumer_terminated e l"
  by (simp add: consumer_terminated_def Let_def disposeContinuousLifecycle_def set_flags_def
      handleUnexpectedConsumerTermination_def)

lemma notify_terminated:
  "ls \<noteq> [] \<Longrightarrow> notify (\<lambda>_. io_do (consumer_terminated e)) ls l = consumer_terminated e l"
proof (induction ls arbitrary: l)
  case (Cons x ls)
  then show ?case by (cases "ls = []") (simp_all add: io_do_def consumer_terminated_again)
qed simp

lemma run_terminates_cases:
  obtains "handle_event (Run_terminates e) l = l"
  | "cn_run (lf_consumer l) = Running" "cn_closing (lf_consumer l) \<or> cn_listeners (lf_consumer l) = []"
    "handle_event (Run_terminates e) l = put_consumer handleRunTermination l"
  | "cn_run (lf_consumer l) = Running" "\<not> cn_closing (lf_consumer l)" "cn_listeners (lf_consumer l) \<noteq> []"
    "handle_event (Run_terminates e) l = consumer_terminated e (put_consumer handleRunTermination l)"
  by (cases "cn_run (lf_consumer l) = Running"; cases "cn_closing (lf_consumer l)"; cases "cn_listeners (lf_consumer l) = []")
    (auto simp: Let_def notify_terminated)

lemma consumer_terminated_view:
  "lf_closing (consumer_terminated e l) = lf_closing l" "lf_fatal (consumer_terminated e l) \<noteq> None"
  "lf_processingStarted (consumer_terminated e l) = lf_processingStarted l"
  "lf_consumer (consumer_terminated e l) = lf_consumer l" "\<not> lf_installed (consumer_terminated e l)"
  "bootstrapReconciled (flags_of (consumer_terminated e l)) = bootstrapReconciled (flags_of l)"
  "\<not> consumerReady (flags_of (consumer_terminated e l))" "lf_transitionCleaned (consumer_terminated e l) = lf_transitionCleaned l"
  by (simp_all add: consumer_terminated_def Let_def disposeContinuousLifecycle_def set_flags_def
      handleUnexpectedConsumerTermination_def)

lemma put_consumer_view:
  "lf_closing (put_consumer f l) = lf_closing l" "lf_fatal (put_consumer f l) = lf_fatal l"
  "lf_processingStarted (put_consumer f l) = lf_processingStarted l" "lf_consumer (put_consumer f l) = f (lf_consumer l)"
  "lf_installed (put_consumer f l) = lf_installed l" "lf_worker (put_consumer f l) = lf_worker l"
  "lf_transitionCleaned (put_consumer f l) = lf_transitionCleaned l"
  by (simp_all add: put_consumer_def)

lemma event_inv: "life_inv l \<Longrightarrow> life_inv (handle_event e l)"
proof (cases e)
  case (Run_terminates x)
  assume inv: "life_inv l"
  have "life_inv (handle_event (Run_terminates x) l)"
  proof (cases rule: run_terminates_cases [of x l])
    case 2
    with inv have "\<not> lf_installed l" by (auto simp: life_inv_def consumer_inv_def)
    with 2 inv show ?thesis by (simp add: life_inv_def put_consumer_view consumer_segments consumer_fields)
  next
    case 3
    with inv show ?thesis by (auto simp: life_inv_def put_consumer_view consumer_terminated_view consumer_segments consumer_fields)
  qed (simp add: inv)
  with Run_terminates show ?thesis by simp
qed (simp add: stop_begin_inv)

text \<open>How an event moves an assertion: nothing is promised that was not, and a disturbance shows.\<close>

lemma event_moves:
  "lf_processingStarted (handle_event e l) = lf_processingStarted l
   \<and> lf_transitionCleaned (handle_event e l) = lf_transitionCleaned l
   \<and> cn_preparation (lf_consumer (handle_event e l)) = cn_preparation (lf_consumer l)
   \<and> (cn_closing (lf_consumer l) \<longrightarrow> cn_closing (lf_consumer (handle_event e l)))
   \<and> (bootstrapReconciled (flags_of (handle_event e l)) \<longrightarrow> bootstrapReconciled (flags_of l))
   \<and> (consumerReady (flags_of (handle_event e l)) \<longrightarrow> consumerReady (flags_of l))
   \<and> (lf_installed (handle_event e l) \<longrightarrow> lf_installed l)
   \<and> (undisturbed (handle_event e l) \<longrightarrow> undisturbed l)
   \<and> (undisturbed (handle_event e l) \<and> cn_listeners (lf_consumer l) \<noteq> [] \<longrightarrow>
        cn_listeners (lf_consumer (handle_event e l)) \<noteq> [] \<and> lf_installed (handle_event e l) = lf_installed l
        \<and> flags_of (handle_event e l) = flags_of l)"
proof (cases e)
  case Stop_requested
  have "cn_closing (lf_consumer l) \<longrightarrow> cn_closing (lf_consumer (stop_begin l))"
    by (cases "lf_closing l") (simp_all add: stop_begin_view stop_begin_consumer consumer_fields)
  then show ?thesis using Stop_requested by (cases "lf_closing l") (simp_all add: stop_begin_view)
next
  case (Run_terminates x)
  show ?thesis
    by (cases rule: run_terminates_cases [of x l])
      (use Run_terminates in \<open>auto simp: consumer_terminated_view put_consumer_view consumer_fields\<close>)
qed

lemma stableI:
  assumes "\<And>l l'. life_view l = life_view l' \<Longrightarrow> P l = P l'" and "\<And>e l. P l \<Longrightarrow> P (handle_event e l)"
  shows "stable P"
  unfolding stable_def using assms by blast

lemma assertions_view:
  assumes "life_view l = life_view l'"
  shows "life_inv l = life_inv l'" "withdrawn l = withdrawn l'" "undone l = undone l'" "quiet l = quiet l'" "idle l = idle l'"
    "cleaning l = cleaning l'" "prepared l = prepared l'" "watched l = watched l'" "watched_run l = watched_run l'"
    "armed l = armed l'" "live_now l = live_now l'" "broken l = broken l'" "failed_attempt l = failed_attempt l'"
  using assms by (simp_all add: assertion_defs life_inv_def life_view_def)

lemma watched_if_installed: "life_inv l \<Longrightarrow> lf_installed l \<Longrightarrow> cn_listeners (lf_consumer l) \<noteq> []"
  by (simp add: life_inv_def)

lemma installed_if_ready: "life_inv l \<Longrightarrow> consumerReady (flags_of l) \<Longrightarrow> lf_installed l"
  by (simp add: life_inv_def)

lemma assertion_inv: "quiet l \<Longrightarrow> life_inv l" "idle l \<Longrightarrow> life_inv l"
  by (simp_all add: quiet_def idle_def)

text \<open>An event keeps every assertion.\<close>

lemma event_withdrawn: "withdrawn l \<Longrightarrow> withdrawn (handle_event e l)"
  using event_inv [of l e] event_moves [of e l] unfolding withdrawn_def by argo

lemma event_undone: "undone l \<Longrightarrow> undone (handle_event e l)"
  using event_inv [of l e] event_moves [of e l] event_withdrawn [of l e] unfolding undone_def by argo

lemma event_quiet: "quiet l \<Longrightarrow> quiet (handle_event e l)"
  using event_inv [of l e] event_moves [of e l] unfolding quiet_def by argo

lemma event_idle: "idle l \<Longrightarrow> idle (handle_event e l)"
  using event_inv [of l e] event_moves [of e l] event_quiet [of l e] unfolding idle_def by argo

lemma event_cleaning: "cleaning l \<Longrightarrow> cleaning (handle_event e l)"
  using event_inv [of l e] event_moves [of e l] event_idle [of l e] unfolding cleaning_def by metis

lemma event_prepared: "prepared l \<Longrightarrow> prepared (handle_event e l)"
  using event_inv [of l e] event_moves [of e l] event_idle [of l e] unfolding prepared_def by argo

lemma event_watched: "watched l \<Longrightarrow> watched (handle_event e l)"
  using event_inv [of l e] event_moves [of e l] event_prepared [of l e] unfolding watched_def by argo

lemma event_watched_run: "watched_run l \<Longrightarrow> watched_run (handle_event e l)"
  using event_inv [of l e] event_moves [of e l] event_idle [of l e] unfolding watched_run_def by argo

lemma event_armed: "armed l \<Longrightarrow> armed (handle_event e l)"
  using event_inv [of l e] event_moves [of e l] watched_if_installed [of l] assertion_inv(1) [of l] event_quiet [of l e] unfolding armed_def by argo

lemma event_live_now: "live_now l \<Longrightarrow> live_now (handle_event e l)"
  using event_inv [of l e] event_moves [of e l] watched_if_installed [of l] installed_if_ready [of l] unfolding live_now_def by argo

lemma event_broken: "broken l \<Longrightarrow> broken (handle_event e l)"
  using event_inv [of l e] event_moves [of e l] event_quiet [of l e] unfolding broken_def by argo

lemma event_failed_attempt: "failed_attempt l \<Longrightarrow> failed_attempt (handle_event e l)"
  using event_inv [of l e] event_moves [of e l] event_idle [of l e] event_undone [of l e] unfolding failed_attempt_def by argo

lemmas event_assertions = event_inv event_withdrawn event_undone event_quiet event_idle event_cleaning event_prepared
  event_watched event_watched_run event_armed event_live_now event_broken event_failed_attempt

lemma stable_assertions:
  "stable life_inv" "stable withdrawn" "stable undone" "stable quiet" "stable idle" "stable cleaning" "stable prepared"
  "stable watched" "stable watched_run" "stable armed" "stable live_now" "stable broken" "stable failed_attempt"
  by (rule stableI; (erule assertions_view | erule event_assertions))+

section \<open>The phases of the boot\<close>

lemma holds_awaited: "holds P m \<Longrightarrow> stable P \<Longrightarrow> holds P (awaited m)"
  by (rule triple_awaited)

lemma holds_bind: "holds P m \<Longrightarrow> (\<And>x. holds P (f x)) \<Longrightarrow> holds P (io_bind m f)"
  by (rule triple_bind)

lemma triple_after: "triple P m (\<lambda>_. P) E \<Longrightarrow> triple P n Q E \<Longrightarrow> triple P (io_bind m (\<lambda>_. n)) Q E"
  by (rule triple_bind)

lemmas holds_intros = holds_basic holds_branch holds_checks holds_bind holds_awaited holds_in_worker

lemma holds_acquire:
  assumes "stable P"
  shows "holds P (acquire polls answer)"
  by (induction polls)
    (auto simp: abortableDelay_def simp del: io_simps intro!: holds_intros assms)

text \<open>A change of the consumer alone, while nothing is installed.\<close>

lemma idle_put_consumer:
  assumes "idle l" and "consumer_inv (f (lf_consumer l))" and "cn_closing (f (lf_consumer l)) = cn_closing (lf_consumer l)"
  shows "idle (put_consumer f l)"
  using assms by (simp add: idle_def quiet_def life_inv_def put_consumer_view)

lemma preparation_segments:
  assumes "consumer_inv c"
  shows "consumer_inv (prepareForBootstrapRecovery n c)" "consumer_inv (when_prep Connecting (connected ok) c)"
    "consumer_inv (when_prep Starting_timer (timer_started ok) c)"
proof -
  show "consumer_inv (prepareForBootstrapRecovery n c)"
  proof (cases "cn_preparation c = Not_prepared \<and> \<not> cn_closing c")
    case True
    then show ?thesis using consumer_step_inv [OF prepares] assms by blast
  qed (use assms in \<open>auto simp: prepareForBootstrapRecovery_def\<close>)
  show "consumer_inv (when_prep Connecting (connected ok) c)"
    using consumer_step_inv [OF connects] assms by (auto simp: when_prep_def)
  show "consumer_inv (when_prep Starting_timer (timer_started ok) c)"
    using consumer_step_inv [OF starts_timer] assms by (auto simp: when_prep_def)
qed

lemma preparation_closing:
  "cn_closing (prepareForBootstrapRecovery n c) = cn_closing c" "cn_closing (when_prep Connecting (connected ok) c) = cn_closing c"
  "cn_closing (when_prep Starting_timer (timer_started ok) c) = cn_closing c"
  by (simp_all add: when_prep_def connected_def timer_started_def prepareForBootstrapRecovery_def)

lemma catch_cleaning:
  assumes "idle l" and "cn_preparation (lf_consumer l) \<notin> {Prepared, Not_prepared}"
  shows "cleaning (put_consumer prepare_catch l)"
proof -
  have c: "consumer_inv (lf_consumer l)" using assms(1) by (simp add: idle_def quiet_def life_inv_def)
  have "consumer_inv (prepare_catch (lf_consumer l))"
    using c assms(2) by (auto simp: consumer_inv_def prepare_catch_def takeResources_def dest: prep_ownedD)
  then show ?thesis using assms(1)
    by (simp add: cleaning_def idle_put_consumer put_consumer_view prepare_catch_def takeResources_def)
qed

lemma cleaned_idle:
  assumes "cleaning l"
  shows "idle (put_consumer (\<lambda>c. c\<lparr>cn_preparation := Not_prepared\<rparr>) l)"
proof -
  have c: "consumer_inv (lf_consumer l)" using assms by (simp add: cleaning_def idle_def quiet_def life_inv_def)
  have "consumer_inv ((lf_consumer l)\<lparr>cn_preparation := Not_prepared\<rparr>)"
    using c assms by (auto simp: consumer_inv_def cleaning_def)
  then show ?thesis using assms by (intro idle_put_consumer) (simp_all add: cleaning_def)
qed

lemma prepare_undo_ok:
  "triple (\<lambda>l. idle l \<and> cn_preparation (lf_consumer l) \<notin> {Prepared, Not_prepared}) (prepare_undo e) (\<lambda>_. prepared) idle"
  unfolding prepare_undo_def
proof (rule triple_bind [where R = "\<lambda>_. cleaning"])
  show "triple (\<lambda>l. idle l \<and> cn_preparation (lf_consumer l) \<notin> {Prepared, Not_prepared})
      (awaited (io_do (put_consumer prepare_catch))) (\<lambda>_. cleaning) idle"
    by (intro triple_awaited triple_do stable_assertions) (simp add: catch_cleaning)
  show "triple cleaning (io_bind (io_do (put_consumer (\<lambda>c. c\<lparr>cn_preparation := Not_prepared\<rparr>)))
      (\<lambda>_. io_bind checkpoint (\<lambda>_. io_throw e))) (\<lambda>_. prepared) idle"
    by (intro triple_bind [where R = "\<lambda>_. idle"] triple_do holds_checks triple_pure cleaned_idle)
qed

lemma prepare_ends_ok: "triple idle (prepare_ends e) (\<lambda>_. prepared) idle"
  unfolding triple_def
proof (intro allI impI)
  fix l :: "'a life"
  assume "idle l"
  then show "case prepare_ends e l of (Inr x, t) \<Rightarrow> prepared t | (Inl e, t) \<Rightarrow> idle t"
    using tripleD [OF prepare_undo_ok, of l e]
    by (cases "cn_preparation (lf_consumer l)") (simp_all add: prepare_ends_def prepared_def)
qed

lemma idle_put_preparation:
  assumes "idle l"
  shows "idle (put_consumer (prepareForBootstrapRecovery n) l)" "idle (put_consumer (when_prep Connecting (connected ok)) l)"
    "idle (put_consumer (when_prep Starting_timer (timer_started ok)) l)"
proof -
  have "consumer_inv (lf_consumer l)" using assms by (simp add: idle_def quiet_def life_inv_def)
  note seg = preparation_segments [OF this]
  show "idle (put_consumer (prepareForBootstrapRecovery n) l)" "idle (put_consumer (when_prep Connecting (connected ok)) l)"
    "idle (put_consumer (when_prep Starting_timer (timer_started ok)) l)"
    using assms seg by (auto intro: idle_put_consumer simp: preparation_closing)
qed

lemma prepareConsumer_ok: "triple idle (prepareConsumerForBootstrap br) (\<lambda>_. prepared) idle"
  unfolding prepareConsumerForBootstrap_def
  by (intro triple_bind [where R = "\<lambda>_. idle"] holds_checks triple_awaited triple_do prepare_ends_ok
      stable_assertions idle_put_preparation)

lemma prepared_or_idle: "holds prepared m \<Longrightarrow> triple prepared m (\<lambda>_. prepared) idle"
  by (erule triple_weaken) (simp_all add: prepared_def)

lemma bootPass_ok: "triple idle (bootPass pe date_parse br) (\<lambda>_. prepared) idle"
proof -
  let ?diff = "io_bind checkpoint (\<lambda>_.
      io_bind (awaited (in_worker (boot_diff pe date_parse (br_time br) (br_clock br) (br_others br) (br_now br))))
        (\<lambda>result. io_bind checkpoint (\<lambda>_. io_return result)))"
  have "triple prepared ?diff (\<lambda>_. prepared) idle"
    by (intro prepared_or_idle holds_intros stable_assertions fl_boot)
  then have "triple idle (io_bind (prepareConsumerForBootstrap br) (\<lambda>_. ?diff)) (\<lambda>_. prepared) idle"
    by (rule triple_bind [OF prepareConsumer_ok])
  note rest = triple_after [OF holds_checks(1) this]
  show ?thesis
    unfolding bootPass_def
    by (rule triple_after [OF holds_checks(1) triple_after [OF _ rest]]) (intro holds_intros stable_assertions fl_boot)
qed

section \<open>The transition\<close>

lemma broken_if: "idle l \<Longrightarrow> broken l" "watched l \<Longrightarrow> broken l" "watched_run l \<Longrightarrow> broken l" "armed l \<Longrightarrow> broken l"
  by (simp_all add: assertion_defs)

lemma start_consumer_ok:
  "triple (\<lambda>l. watched l \<and> lf_processingStarted l) (start_consumer running) (\<lambda>_. watched_run) broken"
  unfolding triple_def
proof (intro allI impI)
  fix l :: "'a life"
  assume l: "watched l \<and> lf_processingStarted l"
  let ?c = "snd (startProcessing running (lf_consumer l))\<lparr>cn_start := Start_settled\<rparr>"
  have c: "consumer_inv (lf_consumer l)" "cn_preparation (lf_consumer l) = Prepared"
    using l by (simp_all add: assertion_defs life_inv_def)
  then have "consumer_inv ?c" "cn_closing ?c = cn_closing (lf_consumer l)" "cn_listeners ?c = cn_listeners (lf_consumer l)"
    by (auto simp: consumer_inv_def startProcessing_def Let_def)
  then have "watched_run (l\<lparr>lf_consumer := ?c\<rparr>)" using l by (auto simp: assertion_defs life_inv_def)
  then show "case start_consumer running l of (Inr x, t) \<Rightarrow> watched_run t | (Inl e, t) \<Rightarrow> broken t"
    using broken_if(3) by (auto simp: start_consumer_def case_prod_unfold split: sum.split)
qed

lemma ready_ok: "triple P require_ready (\<lambda>_ l. P l \<and> cn_ready (lf_consumer l)) P"
  by (simp add: triple_def require_ready_def)

lemma install_armed:
  "((watched_run l \<and> \<not> lf_closing l) \<and> lf_fatal l = None) \<and> cn_ready (lf_consumer l) \<Longrightarrow> armed (installContinuousLifecycle l)"
  by (simp add: assertion_defs life_inv_def installContinuousLifecycle_def)

lemma publish_live:
  "(armed l \<and> \<not> lf_closing l) \<and> lf_fatal l = None \<Longrightarrow> live_now (set_flags (after_transition result) l)"
  by (simp add: assertion_defs life_inv_def set_flags_def after_transition_def)

lemma fl_queue: "fl.within (in_world (on_queue m))"
  by (rule fl_basic)

lemma to_broken:
  "triple P m Q P \<Longrightarrow> (\<And>l. P l \<Longrightarrow> broken l) \<Longrightarrow> triple P m Q broken"
  by (erule triple_weaken)

lemma armed_steps: "triple armed (resume_queue ops) (\<lambda>_. armed) broken"
  unfolding resume_queue_def by (intro to_broken [OF _ broken_if(4)] holds_intros stable_assertions fl_queue)

text \<open>The two checks after an await, and the states they leave.\<close>

lemma checks_ok:
  assumes "\<And>l. P l \<Longrightarrow> broken l" and "triple (\<lambda>l. (P l \<and> \<not> lf_closing l) \<and> lf_fatal l = None) n Q broken"
  shows "triple P (io_bind checkpoint (\<lambda>_. io_bind throwIfConsumerTerminated (\<lambda>_. n))) Q broken"
proof (rule triple_bind [OF to_broken [OF triple_checkpoint assms(1)]])
  show "triple (\<lambda>l. P l \<and> \<not> lf_closing l) (io_bind throwIfConsumerTerminated (\<lambda>_. n)) Q broken"
    by (rule triple_bind [OF to_broken [OF triple_terminated] assms(2)]) (simp add: assms(1))
qed

lemma go_live_armed:
  "triple armed
     (io_bind checkpoint (\<lambda>_. io_bind throwIfConsumerTerminated (\<lambda>_. io_bind (resume_queue (pe_ops pe)) (\<lambda>_.
      io_bind checkpoint (\<lambda>_. io_bind throwIfConsumerTerminated (\<lambda>_. io_bind (awaited (io_return ())) (\<lambda>_.
      io_bind checkpoint (\<lambda>_. io_bind throwIfConsumerTerminated (\<lambda>_. io_do (set_flags (after_transition result))))))))))) 
     (\<lambda>_. live_now) broken"
proof -
  have 3: "triple armed (io_bind checkpoint (\<lambda>_. io_bind throwIfConsumerTerminated (\<lambda>_.
      io_do (set_flags (after_transition result))))) (\<lambda>_. live_now) broken"
    by (rule checks_ok [OF broken_if(4)]) (simp_all add: publish_live triple_do)
  have 2: "triple armed (io_bind checkpoint (\<lambda>_. io_bind throwIfConsumerTerminated (\<lambda>_. io_bind (awaited (io_return ())) (\<lambda>_.
      io_bind checkpoint (\<lambda>_. io_bind throwIfConsumerTerminated (\<lambda>_. io_do (set_flags (after_transition result)))))))) 
      (\<lambda>_. live_now) broken"
    by (rule checks_ok [OF broken_if(4)], assumption,
        rule triple_weaken [OF triple_after [OF to_broken [OF holds_awaited [OF holds_basic(1) stable_assertions(10)] broken_if(4)] 3]])
      simp_all
  show ?thesis
    by (rule checks_ok [OF broken_if(4)], assumption, rule triple_weaken [OF triple_after [OF armed_steps 2]]) simp_all
qed

lemma go_live_ok: "triple watched (go_live pe br result) (\<lambda>_. live_now) broken"
  unfolding go_live_def
proof (rule triple_after [OF to_broken [OF holds_awaited [OF holds_basic(1) stable_assertions(8)] broken_if(2)]], assumption,
    rule triple_bind [OF to_broken [OF triple_checkpoint broken_if(2)]], assumption,
    rule triple_bind [where R = "\<lambda>_ l. watched l \<and> lf_processingStarted l"], goal_cases)
  case 1
  show ?case by (rule triple_do) (simp add: assertion_defs life_inv_def)
next
  case 2
  show ?case
  proof (rule triple_bind [OF triple_awaited [OF start_consumer_ok stable_assertions(9,12)]],
      rule checks_ok [OF broken_if(3)], assumption, rule triple_bind [OF to_broken [OF ready_ok]], goal_cases)
    case 2
    show ?case by (rule triple_bind [OF triple_do go_live_armed]) (rule install_armed)
  qed (simp add: broken_if)
qed

section \<open>Undoing\<close>

lemma withdraw_withdrawn:
  assumes "life_inv l"
  shows "withdrawn (disposeTerminationSubscription (disposeContinuousLifecycle (set_flags withdraw l)))"
  using assms by (auto simp: withdrawn_def life_inv_def disposeTerminationSubscription_def disposeContinuousLifecycle_def
      set_flags_def withdraw_def put_consumer_view consumer_segments consumer_fields)

lemma pause_again_ok: "holds withdrawn (pause_again ops)"
  unfolding pause_again_def by (intro holds_intros stable_assertions fl_queue)

lemma close_begin_undone: "withdrawn l \<Longrightarrow> undone (put_consumer close_begin l)"
  by (simp add: undone_def withdrawn_def life_inv_def put_consumer_view consumer_segments(1) close_begin_closes)

lemma close_finish_undone: "holds undone (close_finish f)"
  by (auto simp: triple_def close_finish_def undone_def withdrawn_def life_inv_def put_consumer_view close_outcome_def Let_def
      close_end_def consumer_inv_def split: shutdown.splits sum.splits if_splits)

lemma close_consumer_ok: "triple withdrawn (close_consumer f) (\<lambda>_. undone) undone"
  unfolding close_consumer_def
  by (rule triple_bind [OF triple_awaited [OF triple_do stable_assertions(3,3)] close_finish_undone]) (rule close_begin_undone)

lemma cleanup_undone:
  assumes "life_inv l"
  shows "undone (snd (cleanupHalfTransition ops f e l))"
proof -
  let ?l = "disposeTerminationSubscription (disposeContinuousLifecycle (set_flags withdraw l))"
  obtain r1 l2 where p: "pause_again ops ?l = (r1, l2)" by fastforce
  have l2: "withdrawn l2" using tripleD [OF pause_again_ok withdraw_withdrawn [OF assms], of ops] p by (cases r1) simp_all
  obtain r2 l3 where c: "close_consumer f l2 = (r2, l3)" by fastforce
  have "undone l3" using tripleD [OF close_consumer_ok l2, of f] c by (cases r2) simp_all
  then show ?thesis by (simp add: cleanupHalfTransition_def Let_def p c)
qed

lemma failed_if: "undone l \<Longrightarrow> failed_attempt l" "idle l \<Longrightarrow> failed_attempt l" "live_now l \<Longrightarrow> failed_attempt l"
  by (auto simp: assertion_defs)

lemma transition_ok: "triple prepared (transition_phase pe br result) (\<lambda>_. live_now) failed_attempt"
proof -
  let ?enter = "\<lambda>l. put_consumer (onUnexpectedRunTermination 0) (set_flags (before_transition result) l\<lparr>lf_subscribed := True\<rparr>)"
  have enter: "watched (?enter l)" if "prepared l" for l :: "'a life"
    using that by (auto simp: assertion_defs life_inv_def put_consumer_view set_flags_def before_transition_def
        consumer_segments subscribe_fields)
  have "triple watched (io_catch (go_live pe br result) (transition_failed pe br)) (\<lambda>_. live_now) failed_attempt"
    unfolding triple_def
  proof (intro allI impI)
    fix l :: "'a life"
    assume l: "watched l"
    obtain r t where run: "go_live pe br result l = (r, t)" by fastforce
    note ends = tripleD [OF go_live_ok l, of pe br result, unfolded run]
    show "case io_catch (go_live pe br result) (transition_failed pe br) l of (Inr x, t) \<Rightarrow> live_now t | (Inl e, t) \<Rightarrow> failed_attempt t"
    proof (cases r)
      case (Inl e)
      then have b: "broken t" using ends by simp
      have "life_inv (t\<lparr>lf_transitionCleaned := True\<rparr>)" using b by (simp add: broken_def quiet_def life_inv_def)
      note undone = cleanup_undone [OF this, of "pe_ops pe" "br_close br" e]
      have "idle (disposeTerminationSubscription t)" if "\<not> lf_processingStarted t"
        using b that by (auto simp: assertion_defs life_inv_def disposeTerminationSubscription_def put_consumer_view
            consumer_segments consumer_fields)
      then show ?thesis using run Inl undone failed_if by (auto simp: transition_failed_def case_prod_unfold)
    qed (use run ends in simp)
  qed
  from triple_bind [OF triple_do [where f = ?enter and P = prepared and Q = "\<lambda>_. watched", OF enter] this] show ?thesis unfolding transition_phase_def .
qed

lemma lock_ok:
  assumes "triple idle work (\<lambda>_. live_now) failed_attempt"
  shows "triple idle (withSessionReconciliationLock lk work) (\<lambda>_. live_now) failed_attempt"
  unfolding withSessionReconciliationLock_def
proof (rule triple_after [OF triple_weaken [OF holds_awaited [OF holds_basic(3) stable_assertions(5)]]], goal_cases)
  case 4
  show ?case unfolding triple_def
  proof (intro allI impI)
    fix l :: "'a life"
    assume l: "idle l"
    obtain r1 l1 where a: "acquire (lk_polls lk) (lk_answer lk) l = (r1, l1)" by fastforce
    have l1: "idle l1" using tripleD [OF holds_acquire [OF stable_assertions(5), of "lk_polls lk" "lk_answer lk"] l] a
      by (cases r1) simp_all
    have work: "triple idle (io_bind checkpoint (\<lambda>_. work)) (\<lambda>_. live_now) failed_attempt"
      by (rule triple_after [OF triple_error [OF holds_checks(1) failed_if(2)] assms])
    obtain r2 l2 where w: "io_bind checkpoint (\<lambda>_. work) l1 = (r2, l2)" by fastforce
    have "case r2 of Inr x \<Rightarrow> live_now (await l2) | Inl e \<Rightarrow> failed_attempt (await l2)"
      using tripleD [OF work l1] w stable_await [OF stable_assertions(11)] stable_await [OF stable_assertions(13)]
      by (cases r2) simp_all
    then show "case (case acquire (lk_polls lk) (lk_answer lk) l of
         (Inl e, l1) \<Rightarrow> (lock_result (Inl e) (lock_cleanup lk False), l1)
       | (Inr _, l1) \<Rightarrow>
           (case io_bind checkpoint (\<lambda>_. work) l1 of
              (r, l2) \<Rightarrow> (lock_result r (lock_cleanup lk True), await l2))) of
       (Inr x, t) \<Rightarrow> live_now t | (Inl e, t) \<Rightarrow> failed_attempt t"
      using a w l1 failed_if by (cases r1; cases r2) (auto simp: lock_result_def)
  qed
qed (simp_all add: failed_if)

lemma attempt_ok: "triple idle (boot_attempt pe date_parse br) (\<lambda>_. live_now) failed_attempt"
proof -
  have "triple prepared (io_bind checkpoint (\<lambda>_. transition_phase pe br result)) (\<lambda>_. live_now) failed_attempt" for result
    by (rule triple_after [OF triple_error [OF holds_checks(1)] transition_ok]) (simp add: failed_if prepared_def)
  then show ?thesis unfolding boot_attempt_def
    by (intro lock_ok triple_bind [OF triple_error [OF bootPass_ok failed_if(2)]])
qed

section \<open>The back-off\<close>

text \<open>Nothing but the loop itself asks for a delay.\<close>

interpretation dl: io_relation "\<lambda>l l' :: 'q life. lf_delays l' = lf_delays l"
  by unfold_locales simp_all

lemma delays_pure [simp]:
  "lf_delays (put_consumer f l) = lf_delays l" "lf_delays (set_flags g l) = lf_delays l"
  "lf_delays (disposeContinuousLifecycle l) = lf_delays l" "lf_delays (disposeTerminationSubscription l) = lf_delays l"
  by (simp_all add: put_consumer_def set_flags_def disposeContinuousLifecycle_def disposeTerminationSubscription_def)

lemma delays_event: "lf_delays (handle_event e l) = lf_delays l"
proof (cases e)
  case (Run_terminates x)
  then show ?thesis
    by (cases rule: run_terminates_cases [of x l]) (simp_all add: consumer_terminated_def Let_def)
qed (simp add: stop_begin_def)

lemma delays_await [simp]: "lf_delays (await l) = lf_delays l"
proof -
  have "lf_delays (fold handle_event es l') = lf_delays l'" for es and l' :: "'a life"
    by (induction es arbitrary: l') (simp_all add: delays_event del: handle_event.simps)
  then show ?thesis by (simp add: await_def split: list.split)
qed

lemma dl_basic:
  "dl.within checkpoint" "dl.within throwIfConsumerTerminated" "dl.within require_ready" "dl.within (in_worker m)"
  "dl.within n \<Longrightarrow> dl.within (awaited n)" "(\<And>l. lf_delays (f l) = lf_delays l) \<Longrightarrow> dl.within (io_do f)"
  "dl.within (start_consumer b)" "dl.within (close_finish g)"
  by (simp_all add: dl.within_def checkpoint_def throwIfConsumerTerminated_def require_ready_def in_worker_def io_part_def
      awaited_def io_do_def start_consumer_def close_finish_def Let_def case_prod_unfold split: shutdown.split)

lemma dl_undo: "dl.within (prepare_undo e)"
  unfolding prepare_undo_def by (intro dl.within_intros dl_basic; simp)

lemma dl_prepare: "dl.within (prepareConsumerForBootstrap br)"
proof -
  have "dl.within (prepare_ends e :: ('a life, unit) io)" for e
    by (simp add: dl.within_def prepare_ends_def dl.within_eta [OF dl_undo] split: preparation.split)
  then show ?thesis unfolding prepareConsumerForBootstrap_def by (intro dl.within_intros dl_basic; simp)
qed

lemma dl_pause: "dl.within (pause_again ops)"
  unfolding pause_again_def by (intro dl.within_intros dl_basic; simp)

lemma dl_close: "dl.within (close_consumer f)"
  unfolding close_consumer_def by (intro dl.within_intros dl_basic; simp)

lemma dl_cleanup: "lf_delays (snd (cleanupHalfTransition ops f e l)) = lf_delays l"
  by (simp add: cleanupHalfTransition_def Let_def case_prod_unfold dl.within_eta [OF dl_pause] dl.within_eta [OF dl_close])

lemma dl_transition: "dl.within (transition_phase pe br result)"
proof -
  have live: "dl.within (go_live pe br result)"
    unfolding go_live_def resume_queue_def
    by (intro dl.within_intros dl_basic; simp add: installContinuousLifecycle_def)
  have "dl.within (transition_failed pe br e)" for e
    by (simp add: dl.within_def transition_failed_def case_prod_unfold dl_cleanup)
  then show ?thesis unfolding transition_phase_def by (intro dl.within_intros dl_basic live) simp_all
qed

lemma dl_acquire: "dl.within (acquire n a)"
  by (induction n) (auto simp: abortableDelay_def simp del: io_simps intro!: dl.within_intros dl_basic)

lemma dl_lock:
  assumes "dl.within work"
  shows "dl.within (withSessionReconciliationLock lk work)"
proof -
  have "dl.within (io_bind checkpoint (\<lambda>_. work))" by (intro dl.within_intros dl_basic assms)
  note eta = dl.within_eta [OF this] dl.within_eta [OF dl_acquire]
  have "dl.within (\<lambda>l. case acquire (lk_polls lk) (lk_answer lk) l of
       (Inl e, l1) \<Rightarrow> (lock_result (Inl e) (lock_cleanup lk False), l1)
     | (Inr _, l1) \<Rightarrow>
         (case io_bind checkpoint (\<lambda>_. work) l1 of
            (r, l2) \<Rightarrow> (lock_result r (lock_cleanup lk True), await l2)))"
    by (simp add: dl.within_def case_prod_unfold eta split: sum.split)
  then show ?thesis unfolding withSessionReconciliationLock_def by (intro dl.within_intros dl_basic)
qed

lemma dl_attempt: "dl.within (boot_attempt pe date_parse br)"
  unfolding boot_attempt_def bootPass_def
  by (intro dl_lock dl.within_intros dl_basic dl_prepare dl_transition)

lemma next_delay_power: "(next_delay ^^ k) 100 = min (100 * 2 ^ k) 5000"
  by (induction k) (simp_all add: next_delay_def)

section \<open>The outcome\<close>

definition new_life :: "'q world \<Rightarrow> life_event list list \<Rightarrow> 'q life" where
  "new_life w events = \<lparr>lf_worker = \<lparr>wk_world = w, wk_state = createReconciliationState, wk_failedScanOffset = 0\<rparr>,
     lf_consumer = new_consumer, lf_closing = False, lf_installed = False, lf_subscribed = False, lf_fatal = None,
     lf_processingStarted = False, lf_transitionCleaned = False, lf_delays = [], lf_events = events\<rparr>"

lemma new_life_withdrawn: "withdrawn (new_life w events)"
  by (simp add: withdrawn_def life_inv_def new_life_def new_consumer_def createReconciliationState_def consumer_inv_def)

lemma set_flags_fields: "lf_consumer (set_flags f l) = lf_consumer l" "lf_processingStarted (set_flags f l) = lf_processingStarted l"
  by (simp_all add: set_flags_def)

lemma withdrawn_fields:
  "withdrawn l \<Longrightarrow> withdrawn (set_flags fail_state l)" "withdrawn l \<Longrightarrow> withdrawn (l\<lparr>lf_delays := ds\<rparr>)"
  "withdrawn l \<Longrightarrow> idle (l\<lparr>lf_processingStarted := False, lf_transitionCleaned := False\<rparr>)"
  by (simp_all add: assertion_defs life_inv_def set_flags_def fail_state_def)

lemma failed_withdrawn:
  assumes "failed_attempt l"
  shows "lf_closing l \<Longrightarrow> withdrawn l" "\<not> lf_processingStarted l \<Longrightarrow> withdrawn l"
    "lf_closing l \<Longrightarrow> cn_closing (lf_consumer l)" "lf_transitionCleaned l \<Longrightarrow> undone l" "life_inv l"
  using assms by (auto simp: assertion_defs life_inv_def)

definition boot_ended :: "unit result option \<Rightarrow> 'q life \<Rightarrow> bool" where
  "boot_ended out l \<longleftrightarrow>
     (case out of None \<Rightarrow> withdrawn l
      | Some (Inr _) \<Rightarrow> live_now l
      | Some (Inl e) \<Rightarrow> withdrawn l \<and> (lf_processingStarted l \<longrightarrow> cn_closing (lf_consumer l)))"

lemma startLifecycle_ended:
  "startLifecycle pe date_parse brs d l = (out, l') \<Longrightarrow> withdrawn l \<Longrightarrow> boot_ended out l'"
proof (induction brs arbitrary: d l)
  case Nil
  then show ?case by (auto simp: boot_ended_def withdrawn_def life_inv_def split: if_splits)
next
  case (Cons br brs)
  let ?l = "l\<lparr>lf_processingStarted := False, lf_transitionCleaned := False\<rparr>"
  obtain r l1 where attempt: "boot_attempt pe date_parse br ?l = (r, l1)" by fastforce
  note ends = tripleD [OF attempt_ok withdrawn_fields(3) [OF Cons.prems(2)], of pe date_parse br, unfolded attempt]
  show ?case
  proof (cases "lf_closing l")
    case True
    then show ?thesis using Cons.prems by (auto simp: boot_ended_def withdrawn_def life_inv_def)
  next
    case False
    show ?thesis
    proof (cases r)
      case (Inr x)
      then show ?thesis using Cons.prems False attempt ends by (auto simp: boot_ended_def)
    next
      case (Inl e)
      then have f: "failed_attempt l1" using ends by simp
      note fw = failed_withdrawn [OF f]
      have undone: "undone (snd (if lf_transitionCleaned l1 then (e, l1) else cleanupHalfTransition (pe_ops pe) (br_close br) e l1))"
        using fw(4,5) cleanup_undone [of l1] by simp
      show ?thesis
      proof (cases "isPurePlannedCancellation e l1 \<or> lf_processingStarted l1 \<or> lf_closing l1")
        case True
        then show ?thesis using Cons.prems(1) False attempt Inl fw undone
          by (auto simp: boot_ended_def isPurePlannedCancellation_def undone_def case_prod_unfold set_flags_fields
              withdrawn_fields(1) split: if_splits)
      next
        case again: False
        let ?l2 = "await ((set_flags fail_state l1)\<lparr>lf_delays := lf_delays l1 @ [d]\<rparr>)"
        have "withdrawn ?l2" using again fw(2) by (intro stable_await [OF stable_assertions(2)] withdrawn_fields) blast
        then show ?thesis using Cons.prems(1) False attempt Inl again Cons.IH [of "next_delay d" ?l2]
          by (auto simp: boot_ended_def Let_def isPurePlannedCancellation_def withdrawn_def life_inv_def split: if_splits)
      qed
    qed
  qed
qed

lemma startLifecycle_delays:
  "startLifecycle pe date_parse brs d l = (out, l') \<Longrightarrow> \<exists>n. lf_delays l' = lf_delays l @ map (\<lambda>i. (next_delay ^^ i) d) [0..<n]"
proof (induction brs arbitrary: d l)
  case Nil
  then show ?case by (intro exI [of _ 0]) (auto split: if_splits)
next
  case (Cons br brs)
  let ?l = "l\<lparr>lf_processingStarted := False, lf_transitionCleaned := False\<rparr>"
  obtain r l1 where attempt: "boot_attempt pe date_parse br ?l = (r, l1)" by fastforce
  have l1: "lf_delays l1 = lf_delays l" using dl.within_eta [OF dl_attempt, of pe date_parse br ?l] attempt by simp
  let ?l2 = "await ((set_flags fail_state l1)\<lparr>lf_delays := lf_delays l1 @ [d]\<rparr>)"
  consider "lf_delays l' = lf_delays l" | "l' = ?l2" | "startLifecycle pe date_parse brs (next_delay d) ?l2 = (out, l')"
    using Cons.prems attempt l1 dl_cleanup [of "pe_ops pe" "br_close br" _ l1]
    by (auto simp: Let_def case_prod_unfold split: if_splits sum.splits)
  then show ?case
  proof cases
    case 1
    then show ?thesis by (intro exI [of _ 0]) simp
  next
    case 2
    then show ?thesis using l1 by (intro exI [of _ 1]) simp
  next
    case 3
    from Cons.IH [OF this] obtain n where "lf_delays l' = lf_delays ?l2 @ map (\<lambda>i. (next_delay ^^ i) (next_delay d)) [0..<n]" ..
    then show ?thesis using l1
      by (intro exI [of _ "Suc n"]) (simp add: map_upt_Suc funpow_swap1 del: upt_Suc)
  qed
qed

text \<open>
  C21: what a boot promises is true, and a failed one is undone. Whatever the surroundings answer and
  whenever stop requests and the end of the run loop come in: the flags name a ready consumer only
  when the boot has returned, the run loop runs on a consumer that is not closing, the timers are
  installed, no stop was requested and no run loop has died; a boot that returns undisturbed has set
  them; a boot that throws has withdrawn them and the timers, and once it has tried to start the
  consumer it has begun to close it. The delays between attempts are 100 ms doubled up to 5 s.
\<close>

theorem boot_promises_hold:
  assumes "startLifecycle pe date_parse brs 100 (new_life w events) = (out, l)"
  shows "(consumerReady (flags_of l) \<longrightarrow> out = Some (Inr ()) \<and> bootstrapReconciled (flags_of l) \<and> cn_ready (lf_consumer l)
            \<and> cn_run (lf_consumer l) = Running \<and> \<not> cn_closing (lf_consumer l) \<and> lf_installed l \<and> undisturbed l)
     \<and> (out = Some (Inr ()) \<and> undisturbed l \<longrightarrow> bootstrapReconciled (flags_of l) \<and> consumerReady (flags_of l))
     \<and> (\<forall>e. out = Some (Inl e) \<longrightarrow> \<not> bootstrapReconciled (flags_of l) \<and> \<not> consumerReady (flags_of l) \<and> \<not> lf_installed l
            \<and> (lf_processingStarted l \<longrightarrow> cn_closing (lf_consumer l)))
     \<and> (\<exists>n. lf_delays l = map (\<lambda>i. min (100 * 2 ^ i) 5000) [0..<n])"
proof -
  have e: "boot_ended out l"
    by (rule startLifecycle_ended [OF assms new_life_withdrawn])
  then have inv: "life_inv l" by (auto simp: boot_ended_def withdrawn_def live_now_def split: option.splits sum.splits)
  have "\<exists>n. lf_delays l = map (\<lambda>i. min (100 * 2 ^ i) 5000) [0..<n]"
    using startLifecycle_delays [OF assms] by (simp add: new_life_def next_delay_power)
  moreover have "out = Some (Inr ())" if "consumerReady (flags_of l)"
    using e that by (auto simp: boot_ended_def withdrawn_def split: option.splits sum.splits)
  moreover have "bootstrapReconciled (flags_of l) \<and> cn_ready (lf_consumer l) \<and> cn_run (lf_consumer l) = Running
      \<and> \<not> cn_closing (lf_consumer l) \<and> lf_installed l \<and> undisturbed l" if "consumerReady (flags_of l)"
    using inv that by (auto simp: life_inv_def consumer_inv_def)
  moreover have "bootstrapReconciled (flags_of l) \<and> consumerReady (flags_of l)" if "out = Some (Inr ())" "undisturbed l"
    using e that by (simp add: boot_ended_def live_now_def)
  moreover have "\<not> bootstrapReconciled (flags_of l) \<and> \<not> consumerReady (flags_of l) \<and> \<not> lf_installed l
      \<and> (lf_processingStarted l \<longrightarrow> cn_closing (lf_consumer l))" if "out = Some (Inl x)" for x
    using e that by (simp add: boot_ended_def withdrawn_def)
  ultimately show ?thesis by blast
qed

text \<open>Postgres refuses two connections, and a stop is requested during the second delay.\<close>

definition sample_boot :: "mem_queue boot_run" where
  "sample_boot = \<lparr>br_lock = \<lparr>lk_connect = Inl (DatabaseError ''connection refused''), lk_polls = 0, lk_answer = Inr (),
       lk_unlock = Inr True, lk_release = Inr ()\<rparr>,
     br_built = 4, br_connects = True, br_timer = True, br_prepare_error = GenericError [], br_time = (2, 0),
     br_clock = (\<lambda>i. 100 * int i), br_others = (\<lambda>_ q. q), br_now = 2000, br_running = True,
     br_close = \<lparr>cf_error = (\<lambda>_. None), cf_slow = (\<lambda>_. False)\<rparr>\<rparr>"

theorem boot_promises_hold_witness:
  "\<exists>l. startLifecycle sample_pass (\<lambda>_. Fin 1000) [sample_boot, sample_boot, sample_boot] 100
        (new_life (wk_world sample_worker) [[], [], [], [Stop_requested]]) = (Some (Inl WorkerLifecycleAbortError), l)
     \<and> lf_delays l = [100, 200] \<and> \<not> bootstrapReconciled (flags_of l) \<and> \<not> lf_installed l"
proof -
  let ?l = "new_life (wk_world sample_worker) [[], [], [], [Stop_requested]]"
  obtain out l where run: "startLifecycle sample_pass (\<lambda>_. Fin 1000) [sample_boot, sample_boot, sample_boot] 100 ?l = (out, l)"
    by fastforce
  then have "out = Some (Inl WorkerLifecycleAbortError)" "lf_delays l = [100, 200]"
    by (auto simp: boot_attempt_def withSessionReconciliationLock_def sample_boot_def awaited_def await_def new_life_def
        io_bind_def isPurePlannedCancellation_def set_flags_def fail_state_def next_delay_def stop_begin_def put_consumer_def
        disposeTerminationSubscription_def disposeContinuousLifecycle_def withdraw_def Let_def)
  with boot_promises_hold [OF run] run show ?thesis by blast
qed

end
