(* ===== verification/Api_Clock.thy ===== *)
theory Api_Clock
  imports Sale_Store
begin

text \<open>
  The clock of the API: apps/api/src/infra/clock.service.ts (an offset to Redis's clock, estimated
  by Cristian's algorithm from the fastest of the last five round trips), the snapshot cache of
  apps/api/src/infra/sale-snapshot.cache.ts that the same round trip fills, and the guard of
  apps/api/src/purchase/purchase.service.ts that refuses requests far outside the sale window
  without asking Redis. Readings of \<open>Date.now\<close> are arguments; all stamps are integers, and the
  half of a round trip is rounded as \<open>Math.round\<close> does.
\<close>

section \<open>Configuration\<close>

record api_env =
  API_SALE_ID :: string
  CLOCK_MAX_STALENESS_MS :: int
  CLOCK_GUARD_SKEW_MS :: int
  RATE_LIMIT_USER_MAX :: int
  RATE_LIMIT_USER_WINDOW_MS :: int

section \<open>RedisAnchoredClock\<close>

definition RTT_SAMPLE_WINDOW :: nat where "RTT_SAMPLE_WINDOW = 5"

definition INITIAL_BACKOFF_SCHEDULE_MS :: "int list" where
  "INITIAL_BACKOFF_SCHEDULE_MS = [100, 200, 400, 800]"

definition INITIAL_RETRY_INTERVAL_MS :: int where "INITIAL_RETRY_INTERVAL_MS = 1000"

definition INITIAL_SYNC_BUDGET_MS :: int where "INITIAL_SYNC_BUDGET_MS = 10000"

record clock_sample =
  cs_offsetMs :: int
  cs_rttMs :: int

record anchored_clock =
  clk_samples :: "clock_sample list"
  clk_best :: "clock_sample option"
  clk_lastSyncAtMs :: "int option"

definition new_clock :: anchored_clock where
  "new_clock = \<lparr>clk_samples = [], clk_best = None, clk_lastSyncAtMs = None\<rparr>"

text \<open>\<open>Math.round (s - (t0 + rtt / 2))\<close>, rounding halves up.\<close>

definition cristian_offset :: "int \<Rightarrow> int \<Rightarrow> int \<Rightarrow> int" where
  "cristian_offset serverTimeMs t0 rtt = (2 * (serverTimeMs - t0) - rtt + 1) div 2"

text \<open>The loop that picks the first sample with the lowest round trip.\<close>

fun lowest_rtt :: "clock_sample \<Rightarrow> clock_sample list \<Rightarrow> clock_sample" where
  "lowest_rtt lowest [] = lowest"
| "lowest_rtt lowest (sample # rest) =
     lowest_rtt (if cs_rttMs sample < cs_rttMs lowest then sample else lowest) rest"

text \<open>What one round trip brings: the local clock before and after it, and the server's reading.\<close>

record sync =
  sy_t0 :: int
  sy_t1 :: int
  sy_serverTimeMs :: int

definition record_sync :: "sync \<Rightarrow> anchored_clock \<Rightarrow> anchored_clock" where
  "record_sync y c =
     (let rtt = sy_t1 y - sy_t0 y;
          pushed = clk_samples c @ [\<lparr>cs_offsetMs = cristian_offset (sy_serverTimeMs y) (sy_t0 y) rtt, cs_rttMs = rtt\<rparr>];
          kept = (if RTT_SAMPLE_WINDOW < length pushed then tl pushed else pushed)
      in \<lparr>clk_samples = kept, clk_best = Some (lowest_rtt (hd kept) kept), clk_lastSyncAtMs = Some (sy_t1 y)\<rparr>)"

definition offsetMs :: "anchored_clock \<Rightarrow> int" where
  "offsetMs c = (case clk_best c of None \<Rightarrow> 0 | Some b \<Rightarrow> cs_offsetMs b)"

definition rttMs :: "anchored_clock \<Rightarrow> int" where
  "rttMs c = (case clk_best c of None \<Rightarrow> 0 | Some b \<Rightarrow> cs_rttMs b)"

definition nowMs :: "int \<Rightarrow> anchored_clock \<Rightarrow> int" where
  "nowMs date_now c = date_now + offsetMs c"

definition ageMs :: "int \<Rightarrow> anchored_clock \<Rightarrow> js_num" where
  "ageMs date_now c = (case clk_lastSyncAtMs c of None \<Rightarrow> PosInf | Some t \<Rightarrow> Fin (date_now - t))"

definition isFresh :: "api_env \<Rightarrow> int \<Rightarrow> anchored_clock \<Rightarrow> bool" where
  "isFresh env date_now c \<longleftrightarrow> clk_lastSyncAtMs c \<noteq> None
     \<and> js_le (ageMs date_now c) (Fin (CLOCK_MAX_STALENESS_MS env))"

section \<open>SaleSnapshotCache\<close>

type_synonym snapshot_cache = "(sale_snapshot \<times> int) option"

definition cache_update :: "sale_snapshot \<Rightarrow> int \<Rightarrow> snapshot_cache \<Rightarrow> snapshot_cache" where
  "cache_update snapshot receivedAtMs cache = Some (snapshot, receivedAtMs)"

definition cache_get :: "int \<Rightarrow> snapshot_cache \<Rightarrow> (sale_snapshot \<times> int) option" where
  "cache_get date_now cache = map_option (\<lambda>(snapshot, receivedAtMs). (snapshot, date_now - receivedAtMs)) cache"

section \<open>Synchronisation\<close>

record clock_world =
  cw_redis :: redis_server
  cw_clock :: anchored_clock
  cw_cache :: snapshot_cache

definition attemptSync :: "api_env \<Rightarrow> int \<Rightarrow> redis_time \<Rightarrow> int \<Rightarrow> (clock_world, bool) io" where
  "attemptSync env t0 time t1 =
     io_catch
       (io_bind (io_part cw_redis (\<lambda>s w. w\<lparr>cw_redis := s\<rparr>) (status time (API_SALE_ID env))) (\<lambda>snapshot.
          (\<lambda>w. (Inr True, w\<lparr>cw_clock := record_sync \<lparr>sy_t0 = t0, sy_t1 = t1,
                    sy_serverTimeMs = ss_serverTimeMs snapshot\<rparr> (cw_clock w),
                  cw_cache := cache_update snapshot t1 (cw_cache w)\<rparr>))))
       (\<lambda>_. io_return False)"

definition backoff_ms :: "nat \<Rightarrow> int" where
  "backoff_ms attempt =
     (if attempt < length INITIAL_BACKOFF_SCHEDULE_MS then INITIAL_BACKOFF_SCHEDULE_MS ! attempt
      else INITIAL_RETRY_INTERVAL_MS)"

text \<open>
  The initial synchronisation. \<open>checks i\<close> is the reading of \<open>Date.now\<close> in the loop condition before
  the \<open>i\<close>-th attempt, \<open>trips i\<close> the stamps of that attempt.
\<close>

fun initial_sync ::
  "nat \<Rightarrow> api_env \<Rightarrow> (nat \<Rightarrow> int) \<Rightarrow> (nat \<Rightarrow> int \<times> redis_time \<times> int) \<Rightarrow> int \<Rightarrow> nat \<Rightarrow> (clock_world, bool) io" where
  "initial_sync 0 env checks trips deadline attempt = io_throw (GenericError ''initial sync did not end'')"
| "initial_sync (Suc fuel) env checks trips deadline attempt =
     (if checks attempt < deadline then
        (case trips attempt of (t0, time, t1) \<Rightarrow>
           io_bind (attemptSync env t0 time t1) (\<lambda>synced.
             if synced then io_return True
             else initial_sync fuel env checks trips deadline (Suc attempt)))
      else io_return False)"

text \<open>\<open>onModuleInit\<close> up to the start of the periodic timer: whether the first sync landed.\<close>

definition onModuleInit ::
  "nat \<Rightarrow> api_env \<Rightarrow> int \<Rightarrow> (nat \<Rightarrow> int) \<Rightarrow> (nat \<Rightarrow> int \<times> redis_time \<times> int) \<Rightarrow> (clock_world, bool) io" where
  "onModuleInit fuel env date_now checks trips =
     initial_sync fuel env checks trips (date_now + INITIAL_SYNC_BUDGET_MS) 0"

section \<open>The fast-path guard\<close>

text \<open>
  \<open>evaluateFastPathGuard\<close>; its three readings of the local clock, in \<open>isFresh\<close>, in the age of the
  cache entry and in \<open>nowMs\<close>, are separate arguments.
\<close>

record fast_path_result =
  fp_outcome :: purchase_outcome
  fp_nowMs :: int

definition guard_skew :: "api_env \<Rightarrow> anchored_clock \<Rightarrow> int" where
  "guard_skew env c = max (CLOCK_GUARD_SKEW_MS env) (4 * rttMs c)"

definition evaluateFastPathGuard ::
  "api_env \<Rightarrow> anchored_clock \<Rightarrow> snapshot_cache \<Rightarrow> int \<times> int \<times> int \<Rightarrow> fast_path_result option" where
  "evaluateFastPathGuard env c cache readings =
     (case readings of (fresh_at, cache_at, now_at) \<Rightarrow>
        if \<not> isFresh env fresh_at c then None
        else (case cache_get cache_at cache of
                None \<Rightarrow> None
              | Some (snapshot, age) \<Rightarrow>
                  if \<not> ss_initialized snapshot then None
                  else if age > CLOCK_MAX_STALENESS_MS env then None
                  else
                    (let skew = guard_skew env c; now = nowMs now_at c
                     in if now < ss_startsAtMs snapshot - skew
                        then Some \<lparr>fp_outcome = SALE_NOT_STARTED, fp_nowMs = now\<rparr>
                        else if now \<ge> ss_endsAtMs snapshot + skew
                        then Some \<lparr>fp_outcome = SALE_ENDED, fp_nowMs = now\<rparr>
                        else None)))"

section \<open>Invariants of the clock\<close>

text \<open>
  Something the clock keeps through every synchronisation that is admissible. Used for the shape
  of the sample window, where every round trip is admissible, and for the error of the offset,
  where the server must have read its clock during the round trip.
\<close>

locale clock_invariant =
  fixes keeps :: "anchored_clock \<Rightarrow> bool" and admissible :: "sync \<Rightarrow> bool"
  assumes start: "keeps new_clock"
    and sync: "keeps c \<Longrightarrow> admissible y \<Longrightarrow> keeps (record_sync y c)"
begin

lemma history: "list_all admissible ys \<Longrightarrow> keeps (fold record_sync ys new_clock)"
proof (induction ys rule: rev_induct)
  case (snoc y ys)
  then show ?case by (simp add: sync)
qed (simp add: start)

end

lemma lowest_rtt_in: "lowest_rtt b xs \<in> insert b (set xs)"
  by (induction xs arbitrary: b) auto

lemma lowest_rtt_least: "s \<in> insert b (set xs) \<Longrightarrow> cs_rttMs (lowest_rtt b xs) \<le> cs_rttMs s"
proof (induction xs arbitrary: b s)
  case (Cons x xs)
  let ?b = "if cs_rttMs x < cs_rttMs b then x else b"
  have "cs_rttMs (lowest_rtt ?b xs) \<le> cs_rttMs ?b" using Cons.IH [of ?b ?b] by simp
  moreover have "cs_rttMs (lowest_rtt ?b xs) \<le> cs_rttMs s" if "s \<in> set xs" using Cons.IH [of s ?b] that by simp
  ultimately show ?case using Cons.prems by (auto split: if_splits)
qed simp

definition window_ok :: "anchored_clock \<Rightarrow> bool" where
  "window_ok c \<longleftrightarrow> length (clk_samples c) \<le> 5
     \<and> (clk_samples c = [] \<longleftrightarrow> clk_best c = None) \<and> (clk_best c = None \<longleftrightarrow> clk_lastSyncAtMs c = None)
     \<and> (\<forall>b. clk_best c = Some b \<longrightarrow> b \<in> set (clk_samples c) \<and> (\<forall>s \<in> set (clk_samples c). cs_rttMs b \<le> cs_rttMs s))"

lemma record_sync_samples:
  obtains x xs where "clk_samples (record_sync y c) = x # xs"
    and "set (x # xs) \<subseteq> insert \<lparr>cs_offsetMs = cristian_offset (sy_serverTimeMs y) (sy_t0 y) (sy_t1 y - sy_t0 y),
           cs_rttMs = sy_t1 y - sy_t0 y\<rparr> (set (clk_samples c))"
    and "length (clk_samples c) \<le> 5 \<Longrightarrow> length (x # xs) \<le> 5"
    and "clk_best (record_sync y c) = Some (lowest_rtt x (x # xs))"
proof -
  define new where "new = \<lparr>cs_offsetMs = cristian_offset (sy_serverTimeMs y) (sy_t0 y) (sy_t1 y - sy_t0 y),
     cs_rttMs = sy_t1 y - sy_t0 y\<rparr>"
  define kept where "kept = (if RTT_SAMPLE_WINDOW < length (clk_samples c @ [new]) then tl (clk_samples c @ [new])
     else clk_samples c @ [new])"
  have "set kept \<subseteq> insert new (set (clk_samples c))"
    by (cases "clk_samples c") (auto simp: kept_def)
  moreover have "length (clk_samples c) \<le> 5 \<Longrightarrow> length kept \<le> 5"
    by (auto simp: kept_def RTT_SAMPLE_WINDOW_def)
  moreover have "kept \<noteq> []" by (cases "clk_samples c") (auto simp: kept_def RTT_SAMPLE_WINDOW_def)
  then obtain x xs where "kept = x # xs" by (cases kept) auto
  moreover have "clk_samples (record_sync y c) = kept" "clk_best (record_sync y c) = Some (lowest_rtt (hd kept) kept)"
    by (simp_all add: record_sync_def kept_def new_def Let_def)
  ultimately show thesis using that [of x xs] by (simp add: new_def)
qed

interpretation window: clock_invariant window_ok "\<lambda>_. True"
proof
  fix c y assume c: "window_ok c"
  obtain x xs where xs: "clk_samples (record_sync y c) = x # xs"
    "length (clk_samples c) \<le> 5 \<Longrightarrow> length (x # xs) \<le> 5"
    "clk_best (record_sync y c) = Some (lowest_rtt x (x # xs))"
    using record_sync_samples [of y c] by metis
  have "clk_lastSyncAtMs (record_sync y c) \<noteq> None" by (simp add: record_sync_def Let_def)
  with xs c show "window_ok (record_sync y c)"
    using lowest_rtt_in [of x "x # xs"] lowest_rtt_least [of _ x "x # xs"] by (simp add: window_ok_def)
qed (simp add: window_ok_def new_clock_def)

text \<open>The server read its clock, \<open>d\<close> ahead of the local one, between the two local readings.\<close>

definition honest :: "int \<Rightarrow> sync \<Rightarrow> bool" where
  "honest d y \<longleftrightarrow> sy_t0 y + d \<le> sy_serverTimeMs y \<and> sy_serverTimeMs y \<le> sy_t1 y + d"

definition anchored_to :: "int \<Rightarrow> anchored_clock \<Rightarrow> bool" where
  "anchored_to d c \<longleftrightarrow> (\<forall>s \<in> set (clk_samples c). 2 * \<bar>cs_offsetMs s - d\<bar> \<le> cs_rttMs s + 1)
     \<and> set_option (clk_best c) \<subseteq> set (clk_samples c)"

lemma cristian_error:
  assumes "t0 + d \<le> s" and "s \<le> t1 + d"
  shows "2 * \<bar>cristian_offset s t0 (t1 - t0) - d\<bar> \<le> t1 - t0 + 1"
proof -
  define y where "y = 2 * (s - t0) - (t1 - t0) + 1"
  have "2 * (y div 2) \<le> y \<and> y \<le> 2 * (y div 2) + 1" by presburger
  with assms show ?thesis unfolding cristian_offset_def y_def [symmetric] by (simp add: y_def abs_if)
qed

interpretation cristian: clock_invariant "anchored_to d" "honest d" for d
proof
  fix c y assume c: "anchored_to d c" and y: "honest d y"
  obtain x xs where xs: "clk_samples (record_sync y c) = x # xs"
    "set (x # xs) \<subseteq> insert \<lparr>cs_offsetMs = cristian_offset (sy_serverTimeMs y) (sy_t0 y) (sy_t1 y - sy_t0 y),
       cs_rttMs = sy_t1 y - sy_t0 y\<rparr> (set (clk_samples c))"
    "clk_best (record_sync y c) = Some (lowest_rtt x (x # xs))"
    using record_sync_samples [of y c] by metis
  have "2 * \<bar>cs_offsetMs s - d\<bar> \<le> cs_rttMs s + 1" if "s \<in> set (x # xs)" for s
    using that xs(2) c y cristian_error [of "sy_t0 y" d "sy_serverTimeMs y" "sy_t1 y"]
    by (auto simp: anchored_to_def honest_def)
  with xs show "anchored_to d (record_sync y c)"
    using lowest_rtt_in [of x "x # xs"] by (simp add: anchored_to_def)
qed (simp add: anchored_to_def new_clock_def)

text \<open>
  C19: the clock's offset comes from the fastest recent round trip and its error is bounded by half
  of it. After any history of synchronisations the offset in use belongs to a sample with the
  lowest round trip of a window of at most five; and if Redis's clock is \<open>d\<close> ahead of the local
  one throughout, the offset differs from \<open>d\<close> by at most half that round trip, rounded up.
\<close>

theorem clock_offset_bound:
  assumes "ys \<noteq> []" and "list_all (honest d) ys"
  shows "\<exists>b. clk_best (fold record_sync ys new_clock) = Some b
     \<and> b \<in> set (clk_samples (fold record_sync ys new_clock))
     \<and> length (clk_samples (fold record_sync ys new_clock)) \<le> 5
     \<and> (\<forall>s \<in> set (clk_samples (fold record_sync ys new_clock)). cs_rttMs b \<le> cs_rttMs s)
     \<and> 2 * \<bar>offsetMs (fold record_sync ys new_clock) - d\<bar> \<le> rttMs (fold record_sync ys new_clock) + 1"
proof -
  let ?c = "fold record_sync ys new_clock"
  have w: "window_ok ?c" using window.history [of ys] by (simp add: list_all_iff)
  have a: "anchored_to d ?c" by (rule cristian.history [OF assms(2)])
  obtain y zs where "ys = zs @ [y]" using assms(1) by (metis rev_exhaust)
  then have "clk_best ?c \<noteq> None" by (auto simp: record_sync_def Let_def)
  then obtain b where b: "clk_best ?c = Some b" by blast
  with w a show ?thesis by (auto simp: window_ok_def anchored_to_def offsetMs_def rttMs_def)
qed

definition sample_sync :: sync where
  "sample_sync = \<lparr>sy_t0 = 1000, sy_t1 = 1003, sy_serverTimeMs = 1502\<rparr>"

theorem clock_offset_bound_witness:
  "offsetMs (fold record_sync [sample_sync] new_clock) = 501
   \<and> 2 * \<bar>offsetMs (fold record_sync [sample_sync] new_clock) - 500\<bar> \<le> rttMs (fold record_sync [sample_sync] new_clock) + 1"
proof -
  have "offsetMs (fold record_sync [sample_sync] new_clock) = 501" by code_simp
  moreover have "list_all (honest 500) [sample_sync]" by code_simp
  ultimately show ?thesis using clock_offset_bound [of "[sample_sync]" 500] by auto
qed

section \<open>The guard is safe\<close>

lemma guard_cases:
  assumes "evaluateFastPathGuard env c cache (f, k, n) = Some g"
  obtains snapshot received where "cache = Some (snapshot, received)" and "ss_initialized snapshot"
    and "clk_lastSyncAtMs c \<noteq> None"
    and "fp_outcome g = SALE_NOT_STARTED \<and> nowMs n c < ss_startsAtMs snapshot - guard_skew env c
         \<or> fp_outcome g = SALE_ENDED \<and> nowMs n c \<ge> ss_endsAtMs snapshot + guard_skew env c"
  using assms that
  by (auto simp: evaluateFastPathGuard_def cache_get_def isFresh_def Let_def split: option.splits prod.splits if_splits)

text \<open>
  C18: the guard refuses only what Redis would refuse. Let the clock be built from honest round trips
  with Redis \<open>d\<close> ahead, the cached window be the one Redis holds, and Redis's clock at the moment
  of the decision be within \<open>drift\<close> of the local one shifted by \<open>d\<close>, where the drift and half a round
  trip fit into the margin. Then, whenever the guard answers without asking Redis, the purchase
  script run at that moment gives the same answer and changes nothing.
\<close>

theorem guard_agrees_with_script:
  assumes syncs: "list_all (honest d) ys" and c: "c = fold record_sync ys new_clock"
    and guard: "evaluateFastPathGuard env c (Some (snapshot, received)) (f, k, n) = Some g"
    and window: "tonumber_field (config_key s) ''startsAtMs'' = Some (ss_startsAtMs snapshot)"
      "tonumber_field (config_key s) ''endsAtMs'' = Some (ss_endsAtMs snapshot)"
      "ss_startsAtMs snapshot < ss_endsAtMs snapshot"
    and redis: "\<bar>now_ms time - (n + d)\<bar> \<le> drift" "2 * drift + rttMs c + 1 \<le> 2 * guard_skew env c"
  shows "pur_code (fst (purchase_lua time u r s)) = purchase_outcome_text (fp_outcome g)
     \<and> snd (purchase_lua time u r s) = s"
proof -
  from guard have last: "clk_lastSyncAtMs c \<noteq> None"
    and cases: "fp_outcome g = SALE_NOT_STARTED \<and> nowMs n c < ss_startsAtMs snapshot - guard_skew env c
         \<or> fp_outcome g = SALE_ENDED \<and> nowMs n c \<ge> ss_endsAtMs snapshot + guard_skew env c"
    by (auto elim: guard_cases)
  have "window_ok c" "anchored_to d c"
    using window.history [of ys] cristian.history [OF syncs] by (simp_all add: c list_all_iff)
  with last have "2 * \<bar>offsetMs c - d\<bar> \<le> rttMs c + 1"
    by (auto simp: window_ok_def anchored_to_def offsetMs_def rttMs_def split: option.split)
  then have "2 * (offsetMs c - d) \<le> rttMs c + 1" "2 * (d - offsetMs c) \<le> rttMs c + 1"
    using abs_ge_self [of "offsetMs c - d"] abs_ge_minus_self [of "offsetMs c - d"] by simp_all
  moreover have "now_ms time - (n + d) \<le> drift" "n + d - now_ms time \<le> drift" using redis(1) by simp_all
  ultimately have "now_ms time \<le> nowMs n c + guard_skew env c" "nowMs n c \<le> now_ms time + guard_skew env c"
    using redis(2) by (simp_all add: nowMs_def)
  with cases
  have "fp_outcome g = SALE_NOT_STARTED \<and> now_ms time < ss_startsAtMs snapshot
      \<or> fp_outcome g = SALE_ENDED \<and> now_ms time \<ge> ss_endsAtMs snapshot"
    by linarith
  with window show ?thesis by (auto simp: purchase_lua_def Let_def)
qed

definition sample_api_env :: api_env where
  "sample_api_env = \<lparr>API_SALE_ID = ''flash-2026'', CLOCK_MAX_STALENESS_MS = 15000, CLOCK_GUARD_SKEW_MS = 250,
     RATE_LIMIT_USER_MAX = 5, RATE_LIMIT_USER_WINDOW_MS = 1000\<rparr>"

definition sample_snapshot :: sale_snapshot where
  "sample_snapshot = \<lparr>ss_initialized = True, ss_saleId = ''flash-2026'', ss_name = Some ''Flash'',
     ss_startsAt = Some ''t0'', ss_endsAt = Some ''t1'', ss_startsAtMs = 1000, ss_endsAtMs = 9000,
     ss_totalStock = 1, ss_stockRemaining = 1, ss_serverTimeMs = 1502, ss_state = Active\<rparr>"

lemma sample_guard:
  "evaluateFastPathGuard sample_api_env (fold record_sync [sample_sync] new_clock) (Some (sample_snapshot, 1003))
     (9000, 9000, 9000) = Some \<lparr>fp_outcome = SALE_ENDED, fp_nowMs = 9501\<rparr>"
  by code_simp

theorem guard_agrees_with_script_witness:
  "pur_code (fst (purchase_lua (9, 500000) ''bob'' (sample_uuid CHR ''a'') sample_sale)) = ''SALE_ENDED''"
proof -
  have window: "tonumber_field (config_key sample_sale) ''startsAtMs'' = Some (ss_startsAtMs sample_snapshot)"
    "tonumber_field (config_key sample_sale) ''endsAtMs'' = Some (ss_endsAtMs sample_snapshot)"
    using seeded_fields [OF sale_inv_facts(1) [OF sample_server_facts(4)]] by (simp_all add: sample_snapshot_def)
  have "list_all (honest 500) [sample_sync]" by code_simp
  moreover have "2 * 0 + rttMs (fold record_sync [sample_sync] new_clock) + 1
      \<le> 2 * guard_skew sample_api_env (fold record_sync [sample_sync] new_clock)" by code_simp
  moreover have "\<bar>now_ms (9, 500000) - (9000 + 500)\<bar> \<le> 0" by (simp add: now_ms_def)
  ultimately show ?thesis
    using guard_agrees_with_script [OF _ refl sample_guard window, of 500 "(9, 500000)" 0 "''bob''"]
    by (simp add: sample_snapshot_def)
qed

section \<open>The initial synchronisation is bounded\<close>

lemma backoff_total:
  assumes "\<And>i. checks i + backoff_ms i \<le> checks (Suc i)"
  shows "checks 0 + 10500 \<le> checks 13"
proof -
  note b = assms [unfolded backoff_ms_def INITIAL_BACKOFF_SCHEDULE_MS_def INITIAL_RETRY_INTERVAL_MS_def]
  have "checks 0 + 100 \<le> checks 1" "checks 1 + 200 \<le> checks 2" "checks 2 + 400 \<le> checks 3"
    "checks 3 + 800 \<le> checks 4" "checks 4 + 1000 \<le> checks 5" "checks 5 + 1000 \<le> checks 6"
    "checks 6 + 1000 \<le> checks 7" "checks 7 + 1000 \<le> checks 8" "checks 8 + 1000 \<le> checks 9"
    "checks 9 + 1000 \<le> checks 10" "checks 10 + 1000 \<le> checks 11" "checks 11 + 1000 \<le> checks 12"
    "checks 12 + 1000 \<le> checks 13"
    using b [of 0] b [of 1] b [of 2] b [of 3] b [of 4] b [of 5] b [of 6] b [of 7] b [of 8] b [of 9] b [of 10]
      b [of 11] b [of 12] by (simp_all add: numeral_nat)
  then show ?thesis by linarith
qed

definition sync_ended :: "clock_world \<Rightarrow> bool result \<times> clock_world \<Rightarrow> bool" where
  "sync_ended w out \<longleftrightarrow> (case out of
     (Inr True, w') \<Rightarrow> clk_lastSyncAtMs (cw_clock w') \<noteq> None
   | (Inr False, w') \<Rightarrow> cw_clock w' = cw_clock w \<and> cw_cache w' = cw_cache w
   | (Inl _, _) \<Rightarrow> False)"

lemma sync_ended_redis [simp]: "sync_ended (w\<lparr>cw_redis := srv\<rparr>) = sync_ended w"
  by (auto simp: sync_ended_def fun_eq_iff split: sum.split bool.split)

lemma initial_sync_ends:
  assumes stop: "deadline \<le> checks n" and "i \<le> n" and "n < fuel + i"
  shows "sync_ended w (initial_sync fuel env checks trips deadline i w)"
  using assms(2,3)
proof (induction fuel arbitrary: i w)
  case (Suc fuel)
  obtain t0 time t1 where t: "trips i = (t0, time, t1)" by (cases "trips i")
  obtain rs srv where st: "status time (API_SALE_ID env) (cw_redis w) = (rs, srv)"
    by (cases "status time (API_SALE_ID env) (cw_redis w)")
  show ?case
  proof (cases "checks i < deadline")
    case True
    then have "i \<noteq> n" using stop by auto
    then have next_ok: "Suc i \<le> n" "n < fuel + Suc i" using Suc.prems by simp_all
    show ?thesis
    proof (cases rs)
      case (Inl e)
      then have "attemptSync env t0 time t1 w = (Inr False, w\<lparr>cw_redis := srv\<rparr>)"
        by (simp add: attemptSync_def io_catch_def io_bind_def io_part_def st)
      then have "initial_sync (Suc fuel) env checks trips deadline i w
          = initial_sync fuel env checks trips deadline (Suc i) (w\<lparr>cw_redis := srv\<rparr>)"
        using True t by (simp add: io_bind_def)
      then show ?thesis using Suc.IH [OF next_ok, of "w\<lparr>cw_redis := srv\<rparr>"] by (simp only: sync_ended_redis)
    next
      case (Inr snap)
      then show ?thesis using True t
        by (simp add: attemptSync_def io_catch_def io_bind_def io_part_def st record_sync_def Let_def sync_ended_def)
    qed
  qed (simp add: sync_ended_def)
qed simp

text \<open>
  Start-up waits for the clock at most thirteen attempts. When each back-off really passes, the
  loop ends whatever Redis does; it either has synchronised, or leaves clock and cache as they
  were, and on a new pod such a clock is not fresh and its offset is zero.
\<close>

lemma initial_sync_bounded:
  assumes "\<And>i. checks i + backoff_ms i \<le> checks (Suc i)" and "date_now \<le> checks 0" and "14 \<le> fuel"
  shows "\<exists>b w'. onModuleInit fuel env date_now checks trips w = (Inr b, w')
     \<and> (if b then \<exists>t. clk_lastSyncAtMs (cw_clock w') = Some t
        else cw_clock w' = cw_clock w \<and> cw_cache w' = cw_cache w)
     \<and> (\<not> b \<and> cw_clock w = new_clock \<longrightarrow> \<not> isFresh env now (cw_clock w') \<and> offsetMs (cw_clock w') = 0)"
proof -
  have "date_now + INITIAL_SYNC_BUDGET_MS \<le> checks 13"
    using backoff_total [of checks, OF assms(1)] assms(2) by (simp add: INITIAL_SYNC_BUDGET_MS_def)
  then have "sync_ended w (onModuleInit fuel env date_now checks trips w)"
    unfolding onModuleInit_def by (rule initial_sync_ends) (use assms(3) in simp_all)
  then show ?thesis
    by (cases "onModuleInit fuel env date_now checks trips w")
      (auto simp: sync_ended_def isFresh_def new_clock_def offsetMs_def split: sum.splits bool.splits)
qed

end
