(* ===== verification/Api_Http.thy ===== *)
theory Api_Http
  imports Api_Clock
begin

text \<open>
  The HTTP surface of the API, apps/api/src/common: the message table, request identifiers, the
  two error envelopes, the validation pipe, and the global exception filter that shapes every
  error response. A JSON object is a \<^typ>\<open>js_value\<close> with its fields in the order of the source's
  literals. A random UUID, needed when no identifier arrived, is an argument.
\<close>

section \<open>Instants as text\<close>

text \<open>
  \<open>Date.prototype.toISOString\<close> on the years 0 to 9999. The calendar date of a day count is computed
  in eras of 400 years.
\<close>

definition pad :: "nat \<Rightarrow> int \<Rightarrow> string" where
  "pad w n = (let t = dec_nat (nat n) in replicate (w - length t) CHR ''0'' @ t)"

definition civil_from_days :: "int \<Rightarrow> int \<times> int \<times> int" where
  "civil_from_days days =
     (let z = days + 719468; era = z div 146097; doe = z mod 146097;
          yoe = (doe - doe div 1460 + doe div 36524 - doe div 146096) div 365;
          doy = doe - (365 * yoe + yoe div 4 - yoe div 100);
          mp = (5 * doy + 2) div 153;
          d = doy - (153 * mp + 2) div 5 + 1;
          m = (if mp < 10 then mp + 3 else mp - 9);
          y = yoe + era * 400
      in (if m \<le> 2 then y + 1 else y, m, d))"

definition toISOString :: "int \<Rightarrow> string" where
  "toISOString ms =
     (case civil_from_days (ms div 86400000) of (y, m, d) \<Rightarrow>
        (let t = ms mod 86400000
         in pad 4 y @ ''-'' @ pad 2 m @ ''-'' @ pad 2 d @ ''T'' @ pad 2 (t div 3600000) @ '':''
            @ pad 2 (t div 60000 mod 60) @ '':'' @ pad 2 (t div 1000 mod 60) @ ''.'' @ pad 3 (t mod 1000) @ ''Z''))"

section \<open>Messages\<close>

datatype api_error_code = Attempt attempt_outcome | NOT_FOUND | INTERNAL

fun error_code_text :: "api_error_code \<Rightarrow> string" where
  "error_code_text (Attempt a) = outcome_text a"
| "error_code_text NOT_FOUND = ''NOT_FOUND''"
| "error_code_text INTERNAL = ''INTERNAL''"

fun messageFor :: "api_error_code \<Rightarrow> string" where
  "messageFor (Attempt (Decided CONFIRMED)) = ''Purchase confirmed.''"
| "messageFor (Attempt (Decided ALREADY_PURCHASED)) = ''You have already purchased this item.''"
| "messageFor (Attempt (Decided SOLD_OUT)) = ''This item is sold out.''"
| "messageFor (Attempt (Decided SALE_NOT_STARTED)) = ''The sale has not started yet.''"
| "messageFor (Attempt (Decided SALE_ENDED)) = ''The sale has ended.''"
| "messageFor (Attempt (Decided NOT_INITIALIZED)) = ''The sale is not ready yet. Please try again shortly.''"
| "messageFor (Attempt (Refused INVALID_USER_ID)) = ''The provided user ID is invalid.''"
| "messageFor (Attempt (Refused RATE_LIMITED)) = ''Too many requests. Please slow down and try again shortly.''"
| "messageFor (Attempt (Refused UPSTREAM_UNAVAILABLE)) =
     ''The service is temporarily unavailable. Please try again shortly.''"
| "messageFor NOT_FOUND = ''Not found.''"
| "messageFor INTERNAL = ''Internal error''"

section \<open>Requests and identifiers\<close>

record request =
  rq_id :: js_value
  rq_url :: "string option"
  rq_body :: js_value
  rq_ip :: "string option"

definition HEADER_REQUEST_ID_PATTERN :: "string \<Rightarrow> bool" where
  "HEADER_REQUEST_ID_PATTERN s \<longleftrightarrow> 1 \<le> length s \<and> length s \<le> 64
     \<and> list_all (\<lambda>c. is_lower c \<or> is_upper c \<or> is_digit c \<or> c \<in> set ''_-'') s"

definition extractOrGenerateRequestId :: "string \<Rightarrow> js_value \<Rightarrow> string" where
  "extractOrGenerateRequestId uuid inbound =
     (let candidate = (case inbound of JArr (x # _) \<Rightarrow> x | JArr [] \<Rightarrow> JUndefined | v \<Rightarrow> v)
      in case candidate of
           JStr s \<Rightarrow> if HEADER_REQUEST_ID_PATTERN s then s else uuid
         | _ \<Rightarrow> uuid)"

definition requestIdFromFastify :: "string \<Rightarrow> request \<Rightarrow> string" where
  "requestIdFromFastify uuid request =
     (case rq_id request of JStr s \<Rightarrow> if 0 < length s then s else uuid | _ \<Rightarrow> uuid)"

definition requestPath :: "request \<Rightarrow> string" where
  "requestPath request =
     takeWhile (\<lambda>c. c \<noteq> CHR ''?'') (case rq_url request of None \<Rightarrow> [] | Some url \<Rightarrow> url)"

definition PURCHASE_ROUTE_PATH :: string where
  "PURCHASE_ROUTE_PATH = ''/api/purchase''"

section \<open>Envelopes\<close>

definition buildApiErrorResponse :: "api_error_code \<Rightarrow> string \<Rightarrow> string \<Rightarrow> int \<Rightarrow> js_value" where
  "buildApiErrorResponse error message requestId serverTimeMs =
     JObj [(''error'', JStr (error_code_text error)), (''message'', JStr message),
           (''requestId'', JStr requestId), (''serverTime'', JStr (toISOString serverTimeMs)),
           (''serverTimeMs'', JNum (Fin serverTimeMs))]"

definition nullable :: "int option \<Rightarrow> js_value" where
  "nullable n = (case n of None \<Rightarrow> JNull | Some i \<Rightarrow> JNum (Fin i))"

definition buildPurchaseEnvelope ::
  "attempt_outcome \<Rightarrow> string \<Rightarrow> string \<Rightarrow> int option \<Rightarrow> int \<Rightarrow> js_value" where
  "buildPurchaseEnvelope out userId saleId remaining serverTimeMs =
     JObj [(''status'', JStr (outcome_text out)), (''message'', JStr (messageFor (Attempt out))),
           (''userId'', JStr userId), (''saleId'', JStr saleId), (''stockRemaining'', nullable remaining),
           (''serverTime'', JStr (toISOString serverTimeMs)), (''serverTimeMs'', JNum (Fin serverTimeMs))]"

text \<open>The envelope of an outcome-bearing error: by route, with no stock.\<close>

definition outcome_body :: "api_env \<Rightarrow> attempt_outcome \<Rightarrow> string \<Rightarrow> string \<Rightarrow> int \<Rightarrow> string \<Rightarrow> js_value" where
  "outcome_body env out path requestId serverTimeMs userId =
     (if path = PURCHASE_ROUTE_PATH
      then JObj [(''status'', JStr (outcome_text out)), (''userId'', JStr userId),
             (''saleId'', JStr (API_SALE_ID env)), (''stockRemaining'', JNull),
             (''serverTime'', JStr (toISOString serverTimeMs)), (''serverTimeMs'', JNum (Fin serverTimeMs)),
             (''message'', JStr (messageFor (Attempt out)))]
      else buildApiErrorResponse (Attempt out) (messageFor (Attempt out)) requestId serverTimeMs)"

section \<open>What can be thrown\<close>

text \<open>
  The values that reach the filter: an \<open>HttpException\<close> with its status and response, where a
  \<open>NotFoundException\<close> is marked; a \<open>SyntaxError\<close>; another error, with the \<open>code\<close> property it may
  have; or a plain object with its enumerable and its other own properties.
\<close>

datatype thrown =
    Http_exception (th_status: int) (th_response: js_value) (th_not_found: bool)
  | Syntax_error string
  | Other_error string "string option"
  | Thrown_object "(string \<times> js_value) list" "(string \<times> js_value) list"

definition thrown_get :: "(string \<times> js_value) list \<Rightarrow> (string \<times> js_value) list \<Rightarrow> string \<Rightarrow> js_value" where
  "thrown_get shown hidden k =
     (case map_of shown k of Some v \<Rightarrow> v | None \<Rightarrow> (case map_of hidden k of Some v \<Rightarrow> v | None \<Rightarrow> JUndefined))"

record http_reply =
  rp_status :: int
  rp_headers :: "(string \<times> string) list"
  rp_body :: js_value

text \<open>\<open>buildRateLimitedThrowable\<close>: the body is enumerable, \<open>statusCode\<close> is not.\<close>

definition buildRateLimitedThrowable :: "api_env \<Rightarrow> string \<Rightarrow> request \<Rightarrow> int \<Rightarrow> thrown" where
  "buildRateLimitedThrowable env uuid request serverTimeMs =
     (case outcome_body env (Refused RATE_LIMITED) (requestPath request) (requestIdFromFastify uuid request)
             serverTimeMs [] of
        JObj props \<Rightarrow> Thrown_object props [(''statusCode'', JNum (Fin 429))]
      | _ \<Rightarrow> Thrown_object [] [])"

section \<open>ZodValidationPipe\<close>

definition purchaseRequestSchema :: "js_value \<Rightarrow> string option" where
  "purchaseRequestSchema v =
     (case v of
        JObj props \<Rightarrow> if set (map fst props) \<subseteq> {''userId''} then userIdSchema (js_get v ''userId'') else None
      | _ \<Rightarrow> None)"

definition extractRawUserId :: "js_value \<Rightarrow> string" where
  "extractRawUserId v =
     (case v of JObj _ \<Rightarrow> (case js_get v ''userId'' of JStr raw \<Rightarrow> raw | _ \<Rightarrow> []) | _ \<Rightarrow> [])"

text \<open>\<open>issues\<close>, the validator's report, is only logged; here it is an argument.\<close>

definition zod_transform :: "js_value \<Rightarrow> js_value \<Rightarrow> thrown + string" where
  "zod_transform issues v =
     (case purchaseRequestSchema v of
        Some userId \<Rightarrow> Inr userId
      | None \<Rightarrow> Inl (Http_exception 422 (JObj [(''outcome'', JStr ''INVALID_USER_ID''), (''issues'', issues),
                                           (''rawUserId'', JStr (extractRawUserId v))]) False))"

section \<open>HttpExceptionFilter\<close>

definition FASTIFY_BODY_PARSE_ERROR_CODES :: "string list" where
  "FASTIFY_BODY_PARSE_ERROR_CODES = [''FST_ERR_CTP_INVALID_MEDIA_TYPE'', ''FST_ERR_CTP_EMPTY_JSON_BODY'',
     ''FST_ERR_CTP_INVALID_JSON_BODY'', ''FST_ERR_CTP_BODY_TOO_LARGE'']"

definition quote :: string where "quote = [char_of (39 :: nat)]"

definition FASTIFY_BODY_PARSE_MESSAGES :: "string list" where
  "FASTIFY_BODY_PARSE_MESSAGES =
     [''Body is not valid JSON but content-type is set to '' @ quote @ ''application/json'' @ quote,
      ''Body cannot be empty when content-type is set to '' @ quote @ ''application/json'' @ quote,
      ''Request body is too large'', ''Unsupported Media Type'']"

definition parse_attempt_outcome :: "js_value \<Rightarrow> attempt_outcome option" where
  "parse_attempt_outcome v =
     (case v of JStr s \<Rightarrow> find (\<lambda>a. outcome_text a = s) ATTEMPT_OUTCOMES | _ \<Rightarrow> None)"

definition isAttemptOutcome :: "js_value \<Rightarrow> bool" where
  "isAttemptOutcome v \<longleftrightarrow> parse_attempt_outcome v \<noteq> None"

definition is_number :: "js_value \<Rightarrow> bool" where
  "is_number v = (case v of JNum _ \<Rightarrow> True | _ \<Rightarrow> False)"

definition isRateLimitedEnvelope :: "thrown \<Rightarrow> bool" where
  "isRateLimitedEnvelope e =
     (case e of
        Thrown_object shown hidden \<Rightarrow>
          (thrown_get shown hidden ''status'' = JStr ''RATE_LIMITED''
            \<or> thrown_get shown hidden ''error'' = JStr ''RATE_LIMITED'')
          \<and> is_number (thrown_get shown hidden ''statusCode'')
      | _ \<Rightarrow> False)"

definition isBodyParseFailure :: "thrown \<Rightarrow> bool" where
  "isBodyParseFailure e =
     (case e of
        Syntax_error _ \<Rightarrow> True
      | Other_error _ (Some code) \<Rightarrow> code \<in> set FASTIFY_BODY_PARSE_ERROR_CODES
      | Other_error _ None \<Rightarrow> False
      | Thrown_object shown hidden \<Rightarrow>
          (case thrown_get shown hidden ''code'' of
             JStr code \<Rightarrow> code \<in> set FASTIFY_BODY_PARSE_ERROR_CODES | _ \<Rightarrow> False)
      | Http_exception _ (JStr response) _ \<Rightarrow> response \<in> set FASTIFY_BODY_PARSE_MESSAGES
      | Http_exception _ _ _ \<Rightarrow> False)"

definition sanitizeUserIdEcho :: "string \<Rightarrow> string" where
  "sanitizeUserIdEcho raw = filter (\<lambda>ch. USER_ID_PATTERN [ch]) (take USER_ID_MAX_LENGTH raw)"

record outcome_payload =
  op_outcome :: js_value
  op_rawUserId :: "string option"
  op_userId :: "string option"

definition string_field :: "js_value \<Rightarrow> string \<Rightarrow> string option" where
  "string_field v k = (case js_get v k of JStr s \<Rightarrow> Some s | _ \<Rightarrow> None)"

definition extractOutcomePayload :: "js_value \<Rightarrow> outcome_payload option" where
  "extractOutcomePayload response =
     (case response of
        JObj _ \<Rightarrow>
          (case js_get response ''outcome'' of
             JStr s \<Rightarrow> Some \<lparr>op_outcome = JStr s, op_rawUserId = string_field response ''rawUserId'',
                            op_userId = string_field response ''userId''\<rparr>
           | _ \<Rightarrow> None)
      | _ \<Rightarrow> None)"

definition sendApiError :: "int \<Rightarrow> api_error_code \<Rightarrow> string \<Rightarrow> int \<Rightarrow> http_reply" where
  "sendApiError st error requestId serverTimeMs =
     \<lparr>rp_status = st, rp_headers = [], rp_body = buildApiErrorResponse error (messageFor error) requestId serverTimeMs\<rparr>"

definition respond :: "api_env \<Rightarrow> int \<Rightarrow> attempt_outcome \<Rightarrow> string \<Rightarrow> string \<Rightarrow> int \<Rightarrow> string \<Rightarrow> http_reply" where
  "respond env st out path requestId serverTimeMs userId =
     \<lparr>rp_status = st, rp_headers = [], rp_body = outcome_body env out path requestId serverTimeMs userId\<rparr>"

definition or_empty :: "string option \<Rightarrow> string" where
  "or_empty s = (case s of None \<Rightarrow> [] | Some t \<Rightarrow> t)"

text \<open>The filter; the status of a passed-through rate-limit envelope is the number it carries.\<close>

definition catch_exception :: "api_env \<Rightarrow> string \<Rightarrow> int \<Rightarrow> request \<Rightarrow> thrown \<Rightarrow> http_reply" where
  "catch_exception env uuid serverTimeMs request e =
     (let requestId = requestIdFromFastify uuid request; path = requestPath request
      in if isBodyParseFailure e
         then respond env 422 (Refused INVALID_USER_ID) path requestId serverTimeMs []
         else case e of
           Thrown_object shown hidden \<Rightarrow>
             if isRateLimitedEnvelope e then
               \<lparr>rp_status = (case thrown_get shown hidden ''statusCode'' of JNum (Fin n) \<Rightarrow> n | _ \<Rightarrow> 500),
                rp_headers = [], rp_body = JObj shown\<rparr>
             else sendApiError 500 INTERNAL requestId serverTimeMs
         | Http_exception st response not_found \<Rightarrow>
             (case extractOutcomePayload response of
                Some payload \<Rightarrow>
                  (case parse_attempt_outcome (op_outcome payload) of
                     Some out \<Rightarrow>
                       respond env st out path requestId serverTimeMs
                         (if out = Refused INVALID_USER_ID then sanitizeUserIdEcho (or_empty (op_rawUserId payload))
                          else or_empty (op_userId payload))
                   | None \<Rightarrow> if not_found then sendApiError 404 NOT_FOUND requestId serverTimeMs
                       else sendApiError (if 400 \<le> st \<and> st < 600 then st else 500) INTERNAL requestId serverTimeMs)
              | None \<Rightarrow> if not_found then sendApiError 404 NOT_FOUND requestId serverTimeMs
                  else sendApiError (if 400 \<le> st \<and> st < 600 then st else 500) INTERNAL requestId serverTimeMs)
         | _ \<Rightarrow> sendApiError 500 INTERNAL requestId serverTimeMs)"

section \<open>What the client sees\<close>

lemma sample_instant: "toISOString 1784721600123 = ''2026-07-22T12:00:00.123Z''"
  by code_simp

lemma sanitize_echo:
  "list_all is_user_id_char (sanitizeUserIdEcho raw)" "length (sanitizeUserIdEcho raw) \<le> 64"
proof -
  show "list_all is_user_id_char (sanitizeUserIdEcho raw)"
    by (auto simp: sanitizeUserIdEcho_def USER_ID_PATTERN_def list_all_iff)
  have "length (sanitizeUserIdEcho raw) \<le> length (take 64 raw)"
    unfolding sanitizeUserIdEcho_def USER_ID_MAX_LENGTH_def by (rule length_filter_le)
  then show "length (sanitizeUserIdEcho raw) \<le> 64" by simp
qed

text \<open>The replies the filter can build itself, given what it took from the request.\<close>

definition filter_body :: "api_env \<Rightarrow> string \<Rightarrow> string \<Rightarrow> int \<Rightarrow> js_value \<Rightarrow> bool" where
  "filter_body env path requestId t body \<longleftrightarrow>
     (\<exists>code. body = buildApiErrorResponse code (messageFor code) requestId t)
     \<or> path = PURCHASE_ROUTE_PATH \<and> (\<exists>out uid. body = outcome_body env out path requestId t uid
          \<and> (out = Refused INVALID_USER_ID \<longrightarrow> list_all is_user_id_char uid \<and> length uid \<le> 64))"

lemma respond_body:
  assumes "out = Refused INVALID_USER_ID \<Longrightarrow> list_all is_user_id_char uid \<and> length uid \<le> 64"
  shows "filter_body env path requestId t (rp_body (respond env st out path requestId t uid))"
proof (cases "path = PURCHASE_ROUTE_PATH")
  case True
  then show ?thesis unfolding filter_body_def respond_def
    using assms by (intro disjI2 conjI exI [of _ out] exI [of _ uid]) simp_all
next
  case False
  then show ?thesis unfolding filter_body_def respond_def outcome_body_def
    by (intro disjI1 exI [of _ "Attempt out"]) simp
qed

lemma send_body: "filter_body env path requestId t (rp_body (sendApiError st code requestId t))"
  by (auto simp: filter_body_def sendApiError_def)

text \<open>
  C32: no internal detail reaches a client. Except for the finished envelope of the rate limiter,
  every error is answered with one of the two envelopes, with a message of the fixed table, the
  request's own identifier, and on the purchase route a user identifier that for a rejected body
  has only permitted characters and at most 64 of them. Two unexpected errors are answered alike
  whatever their text, and so are two HTTP exceptions without an outcome and with equal status.
\<close>

theorem filter_discloses_nothing:
  "(\<not> isRateLimitedEnvelope e \<or> isBodyParseFailure e \<longrightarrow>
      filter_body env (requestPath rq) (requestIdFromFastify uuid rq) t (rp_body (catch_exception env uuid t rq e)))
   \<and> (\<not> isBodyParseFailure (Other_error m c) \<and> \<not> isBodyParseFailure (Other_error m' c') \<longrightarrow>
      catch_exception env uuid t rq (Other_error m c) = catch_exception env uuid t rq (Other_error m' c'))
   \<and> (extractOutcomePayload r = None \<and> extractOutcomePayload r' = None
        \<and> \<not> isBodyParseFailure (Http_exception st r nf) \<and> \<not> isBodyParseFailure (Http_exception st r' nf) \<longrightarrow>
      catch_exception env uuid t rq (Http_exception st r nf) = catch_exception env uuid t rq (Http_exception st r' nf))"
proof (intro conjI impI)
  assume ok: "\<not> isRateLimitedEnvelope e \<or> isBodyParseFailure e"
  show "filter_body env (requestPath rq) (requestIdFromFastify uuid rq) t (rp_body (catch_exception env uuid t rq e))"
  proof (cases "isBodyParseFailure e")
    case True
    then show ?thesis by (simp add: catch_exception_def respond_body Let_def)
  next
    case False
    show ?thesis
    proof (cases e)
      case (Http_exception st r nf)
      show ?thesis
      proof (cases "extractOutcomePayload r")
        case None
        then show ?thesis using False Http_exception by (simp add: catch_exception_def send_body Let_def)
      next
        case (Some p)
        then show ?thesis using False Http_exception sanitize_echo
          by (cases "parse_attempt_outcome (op_outcome p)")
            (auto simp: catch_exception_def send_body Let_def intro: respond_body)
      qed
    qed (use False ok in \<open>auto simp: catch_exception_def send_body Let_def\<close>)
  qed
qed (auto simp: catch_exception_def Let_def)

theorem filter_discloses_nothing_witness:
  "catch_exception sample_api_env [] 0 \<lparr>rq_id = JUndefined, rq_url = None, rq_body = JNull, rq_ip = None\<rparr>
       (Other_error ''password=hunter2'' None)
   = catch_exception sample_api_env [] 0 \<lparr>rq_id = JUndefined, rq_url = None, rq_body = JNull, rq_ip = None\<rparr>
       (Other_error ''x'' None)"
proof -
  have n: "\<not> isBodyParseFailure (Other_error m None)" for m by (simp add: isBodyParseFailure_def)
  show ?thesis
    by (rule filter_discloses_nothing [where e = "Syntax_error []" and r = JNull and r' = JNull and st = 0 and nf = False,
          THEN conjunct2, THEN conjunct1, rule_format, OF conjI [OF n n]])
qed

section \<open>Validation\<close>

lemma parse_outcome_text: "parse_attempt_outcome (JStr (outcome_text a)) = Some a"
proof -
  have "find (\<lambda>b. outcome_text b = outcome_text a) ATTEMPT_OUTCOMES = Some a"
  proof (cases "find (\<lambda>b. outcome_text b = outcome_text a) ATTEMPT_OUTCOMES")
    case None
    then show ?thesis using ATTEMPT_OUTCOMES_complete [of a] by (auto simp: find_None_iff)
  next
    case (Some b)
    then have "outcome_text b = outcome_text a" by (auto simp: find_Some_iff)
    with Some show ?thesis by (simp add: outcome_text_inject)
  qed
  then show ?thesis by (simp add: parse_attempt_outcome_def)
qed

text \<open>
  A body is either a validated user or a 422. The pipe accepts exactly the objects whose only
  property is a user identifier that the schema accepts, and passes on the trimmed text; anything
  else is rendered as 422 with the outcome \<open>INVALID_USER_ID\<close> and the sanitised echo of the text sent.
\<close>

lemma invalid_body_is_422:
  "case zod_transform issues v of
     Inr u \<Rightarrow> valid_user_id u \<and> (\<exists>props. v = JObj props \<and> set (map fst props) \<subseteq> {''userId''}
        \<and> userIdSchema (js_get v ''userId'') = Some u)
   | Inl e \<Rightarrow> purchaseRequestSchema v = None
       \<and> catch_exception env uuid t rq e = respond env 422 (Refused INVALID_USER_ID) (requestPath rq)
           (requestIdFromFastify uuid rq) t (sanitizeUserIdEcho (extractRawUserId v))"
proof (cases "purchaseRequestSchema v")
  case None
  have p: "parse_attempt_outcome (JStr ''INVALID_USER_ID'') = Some (Refused INVALID_USER_ID)"
    using parse_outcome_text [of "Refused INVALID_USER_ID"] by simp
  show ?thesis using None
    by (simp add: zod_transform_def catch_exception_def isBodyParseFailure_def extractOutcomePayload_def p
        string_field_def or_empty_def Let_def)
next
  case (Some u)
  then obtain props where v: "v = JObj props" "set (map fst props) \<subseteq> {''userId''}"
    "userIdSchema (js_get v ''userId'') = Some u"
    by (auto simp: purchaseRequestSchema_def split: js_value.splits if_splits)
  then have "valid_user_id u"
    by (auto simp: userIdSchema_def valid_user_id_def Let_def split: js_value.splits if_splits)
  with v Some show ?thesis by (auto simp: zod_transform_def)
qed

text \<open>
  The rate limiter's answer is passed through whole. What the limiter throws is rendered with
  status 429, with the purchase envelope on the purchase route and the error envelope elsewhere,
  and its status code is not a field of the body.
\<close>

lemma rate_limited_rendering:
  "rp_status (catch_exception env uuid t rq (buildRateLimitedThrowable env uuid' rq' t')) = 429
   \<and> rp_body (catch_exception env uuid t rq (buildRateLimitedThrowable env uuid' rq' t'))
     = outcome_body env (Refused RATE_LIMITED) (requestPath rq') (requestIdFromFastify uuid' rq') t' []
   \<and> js_get (rp_body (catch_exception env uuid t rq (buildRateLimitedThrowable env uuid' rq' t'))) ''statusCode''
     = JUndefined"
  by (cases "requestPath rq' = PURCHASE_ROUTE_PATH")
    (simp_all add: buildRateLimitedThrowable_def outcome_body_def buildApiErrorResponse_def catch_exception_def
      isBodyParseFailure_def isRateLimitedEnvelope_def thrown_get_def is_number_def Let_def)

section \<open>Request identifiers\<close>

text \<open>
  A request identifier cannot break a log line or a job. Whatever header a client sends, the
  identifier in use is made of letters, digits, underscore and dash, and is one that the check of
  queue payloads accepts; a well-formed header is kept as it is.
\<close>

lemma request_id_safe:
  assumes "UUID_PATTERN uuid"
  shows "REQUEST_ID_PATTERN (extractOrGenerateRequestId uuid inbound)
     \<and> (\<forall>s. inbound = JStr s \<and> HEADER_REQUEST_ID_PATTERN s \<longrightarrow> extractOrGenerateRequestId uuid inbound = s)"
proof -
  have "is_lower c \<or> is_upper c \<or> is_digit c \<or> c \<in> set ''_-''" if "c \<in> set uuid" for c
    using uuid_chars [OF assms that] unfolding is_hex_digit_def is_lower_def is_upper_def by fastforce
  moreover have "length uuid = 36" using assms unfolding UUID_PATTERN_def by (rule conjunct1)
  ultimately have "REQUEST_ID_PATTERN uuid" by (simp only: REQUEST_ID_PATTERN_def list_all_iff) simp
  moreover have "REQUEST_ID_PATTERN s" if "HEADER_REQUEST_ID_PATTERN s" for s
    using that by (simp add: REQUEST_ID_PATTERN_def HEADER_REQUEST_ID_PATTERN_def)
  ultimately show ?thesis
    by (auto simp: extractOrGenerateRequestId_def Let_def split: js_value.split list.split)
qed

end
