(* ===== verification/Rate_Limit.thy ===== *)
theory Rate_Limit
  imports Api_Http
begin

text \<open>
  The per-user limiter, apps/api/src/common/per-user-rate-limit.guard.ts: its Lua script over the
  keys of the limiter's Redis, the decoding of the reply, and the guard that runs before the
  validation of a purchase. The server's clock is an argument. A key lives up to and including the
  millisecond at which it expires.
\<close>

section \<open>The script\<close>

type_synonym limiter = "string \<Rightarrow> (int \<times> int option) option"

definition PTTL :: "int \<Rightarrow> limiter \<Rightarrow> string \<Rightarrow> int" where
  "PTTL now store key =
     (case store key of
        None \<Rightarrow> -2
      | Some (_, None) \<Rightarrow> -1
      | Some (_, Some expiry) \<Rightarrow> if now > expiry then -2 else expiry - now)"

definition RATE_LIMIT_USER_SCRIPT :: "int \<Rightarrow> int \<Rightarrow> string \<Rightarrow> limiter \<Rightarrow> js_value \<times> limiter" where
  "RATE_LIMIT_USER_SCRIPT now windowMs key store =
     (let ttl = PTTL now store key
      in if ttl < 0
         then (JArr [JNum (Fin 1), JNum (Fin windowMs)], store(key \<mapsto> (1, Some (now + windowMs))))
         else (case store key of
                 Some (n, expiry) \<Rightarrow> (JArr [JNum (Fin (n + 1)), JNum (Fin ttl)], store(key \<mapsto> (n + 1, expiry)))
               | None \<Rightarrow> (JArr [JNum (Fin 1), JNum (Fin ttl)], store(key \<mapsto> (1, None)))))"

section \<open>The guard\<close>

definition RATE_LIMIT_USER_KEY_PREFIX :: string where "RATE_LIMIT_USER_KEY_PREFIX = ''rl:u:''"

definition UNKNOWN_IP_SEGMENT :: string where "UNKNOWN_IP_SEGMENT = ''unknown-ip''"

definition buildUserRateLimitKey :: "string \<Rightarrow> string option \<Rightarrow> string \<Rightarrow> string" where
  "buildUserRateLimitKey saleId ip userId =
     RATE_LIMIT_USER_KEY_PREFIX @ saleId @ '':'' @ (case ip of None \<Rightarrow> UNKNOWN_IP_SEGMENT | Some a \<Rightarrow> a)
     @ '':'' @ userId"

definition extractRateLimitCandidateUserId :: "js_value \<Rightarrow> string option" where
  "extractRateLimitCandidateUserId body =
     (case body of
        JObj _ \<Rightarrow>
          (case js_get body ''userId'' of
             JStr raw \<Rightarrow>
               (let candidate = js_trim raw
                in if length candidate < USER_ID_MIN_LENGTH \<or> length candidate > USER_ID_MAX_LENGTH then None
                   else if \<not> USER_ID_PATTERN candidate then None
                   else Some candidate)
           | _ \<Rightarrow> None)
      | _ \<Rightarrow> None)"

text \<open>\<open>Number\<close> of a scalar reply element; text is decimal, other values are not numbers.\<close>

definition js_to_number :: "js_value \<Rightarrow> js_num" where
  "js_to_number v =
     (case v of
        JNum n \<Rightarrow> n
      | JNull \<Rightarrow> Fin 0
      | JBool b \<Rightarrow> Fin (if b then 1 else 0)
      | JStr s \<Rightarrow> if js_trim s = [] then Fin 0
                  else (case tonumber (js_trim s) of None \<Rightarrow> NaN | Some n \<Rightarrow> Fin n)
      | _ \<Rightarrow> NaN)"

definition decode_limit_reply :: "js_value \<Rightarrow> (int \<times> int) result" where
  "decode_limit_reply reply =
     (case reply of
        JArr [rawCount, rawTtl] \<Rightarrow>
          (case (js_to_number rawCount, js_to_number rawTtl) of
             (Fin count, Fin ttlMs) \<Rightarrow>
               if count < 1 \<or> ttlMs \<le> 0
               then Inl (GenericError ''rate limiter EVAL returned a non-numeric reply'')
               else Inr (count, ttlMs)
           | _ \<Rightarrow> Inl (GenericError ''rate limiter EVAL returned a non-numeric reply''))
      | _ \<Rightarrow> Inl (GenericError ''rate limiter EVAL returned a malformed reply''))"

text \<open>One call of the limiter's Redis, which may fail before or after the script ran.\<close>

definition incrementAndBound :: "delivery \<Rightarrow> int \<Rightarrow> string \<Rightarrow> int \<Rightarrow> (limiter, int \<times> int) io" where
  "incrementAndBound d now key windowMs store =
     (case RATE_LIMIT_USER_SCRIPT now windowMs key store of (reply, store1) \<Rightarrow>
        (case d of
           Delivered \<Rightarrow> (decode_limit_reply reply, store1)
         | Lost_before \<Rightarrow> (Inl connection_error, store)
         | Lost_after \<Rightarrow> (Inl connection_error, store1)))"

definition retry_after :: "int \<Rightarrow> int" where
  "retry_after ttlMs = max 1 ((ttlMs + 999) div 1000)"

datatype verdict = Allow | Reject "(string \<times> string) list" thrown

definition reject :: "api_env \<Rightarrow> int \<Rightarrow> string \<Rightarrow> verdict" where
  "reject env retryAfterSeconds candidate =
     Reject [(''retry-after'', dec_int retryAfterSeconds), (''x-ratelimit-limit'', dec_int (RATE_LIMIT_USER_MAX env)),
             (''x-ratelimit-remaining'', ''0''), (''x-ratelimit-reset'', dec_int retryAfterSeconds)]
       (Http_exception (int (PURCHASE_OUTCOME_HTTP_STATUS (Refused RATE_LIMITED)))
          (JObj [(''outcome'', JStr ''RATE_LIMITED''), (''userId'', JStr candidate)]) False)"

definition canActivate :: "api_env \<Rightarrow> delivery \<Rightarrow> int \<Rightarrow> request \<Rightarrow> limiter \<Rightarrow> verdict \<times> limiter" where
  "canActivate env d now rq store =
     (case extractRateLimitCandidateUserId (rq_body rq) of
        None \<Rightarrow> (Allow, store)
      | Some candidate \<Rightarrow>
          (case incrementAndBound d now (buildUserRateLimitKey (API_SALE_ID env) (rq_ip rq) candidate)
                  (RATE_LIMIT_USER_WINDOW_MS env) store of
             (Inl _, store1) \<Rightarrow> (Allow, store1)
           | (Inr (count, ttlMs), store1) \<Rightarrow>
               if count \<le> RATE_LIMIT_USER_MAX env then (Allow, store1)
               else (reject env (retry_after ttlMs) candidate, store1)))"

text \<open>A sequence of requests of one client, at the given instants.\<close>

fun run_guard :: "api_env \<Rightarrow> request \<Rightarrow> int list \<Rightarrow> limiter \<Rightarrow> verdict list \<times> limiter" where
  "run_guard env rq [] store = ([], store)"
| "run_guard env rq (now # rest) store =
     (case canActivate env Delivered now rq store of (v, store1) \<Rightarrow>
        (case run_guard env rq rest store1 of (vs, store2) \<Rightarrow> (v # vs, store2)))"

section \<open>The window\<close>

lemma candidate_agrees_with_schema:
  "extractRateLimitCandidateUserId body = Some u \<Longrightarrow> userIdSchema (js_get body ''userId'') = Some u"
  by (auto simp: extractRateLimitCandidateUserId_def userIdSchema_def Let_def split: js_value.splits if_splits)

lemma open_window:
  assumes u: "extractRateLimitCandidateUserId (rq_body rq) = Some u"
    and key: "key = buildUserRateLimitKey (API_SALE_ID env) (rq_ip rq) u"
    and dead: "PTTL now store key < 0" and pos: "0 < RATE_LIMIT_USER_WINDOW_MS env" "1 \<le> RATE_LIMIT_USER_MAX env"
  shows "canActivate env Delivered now rq store
     = (Allow, store(key \<mapsto> (1, Some (now + RATE_LIMIT_USER_WINDOW_MS env))))"
  using assms by (simp add: canActivate_def incrementAndBound_def RATE_LIMIT_USER_SCRIPT_def decode_limit_reply_def
      js_to_number_def)

lemma in_window:
  assumes u: "extractRateLimitCandidateUserId (rq_body rq) = Some u"
    and key: "key = buildUserRateLimitKey (API_SALE_ID env) (rq_ip rq) u"
    and slot: "store key = Some (n, Some expiry)" and n: "1 \<le> n" and time: "now < expiry"
  shows "canActivate env Delivered now rq store
     = (if n < RATE_LIMIT_USER_MAX env then Allow else reject env (retry_after (expiry - now)) u,
        store(key \<mapsto> (n + 1, Some expiry)))"
  using assms by (auto simp: canActivate_def incrementAndBound_def RATE_LIMIT_USER_SCRIPT_def decode_limit_reply_def
      js_to_number_def PTTL_def)

lemma guard_run_in_window:
  assumes u: "extractRateLimitCandidateUserId (rq_body rq) = Some u"
    and key: "key = buildUserRateLimitKey (API_SALE_ID env) (rq_ip rq) u"
  shows "store key = Some (n, Some expiry) \<Longrightarrow> 1 \<le> n \<Longrightarrow> \<forall>t \<in> set ts. t < expiry \<Longrightarrow>
    length (fst (run_guard env rq ts store)) = length ts
    \<and> (\<forall>i < length ts. fst (run_guard env rq ts store) ! i
         = (if n + int i < RATE_LIMIT_USER_MAX env then Allow else reject env (retry_after (expiry - ts ! i)) u))
    \<and> snd (run_guard env rq ts store) = store(key \<mapsto> (n + int (length ts), Some expiry))"
proof (induction ts arbitrary: store n)
  case (Cons t ts)
  let ?s = "store(key \<mapsto> (n + 1, Some expiry))"
  have step: "canActivate env Delivered t rq store
     = (if n < RATE_LIMIT_USER_MAX env then Allow else reject env (retry_after (expiry - t)) u, ?s)"
    using in_window [where store = store and now = t, OF u key Cons.prems(1,2)] Cons.prems(3) by simp
  have "?s key = Some (n + 1, Some expiry)" by simp
  note ih = Cons.IH [where store = ?s, OF this]
  have "\<forall>x \<in> set ts. x < expiry" "1 \<le> n + 1" using Cons.prems by simp_all
  note ih' = ih [OF this(2,1)]
  obtain vs store2 where run: "run_guard env rq ts ?s = (vs, store2)" by (cases "run_guard env rq ts ?s")
  have "store2 = store(key \<mapsto> (n + int (length (t # ts)), Some expiry))"
    using ih' unfolding run by (simp add: fun_eq_iff)
  moreover have "run_guard env rq (t # ts) store
      = ((if n < RATE_LIMIT_USER_MAX env then Allow else reject env (retry_after (expiry - t)) u) # vs, store2)"
    by (simp add: step run)
  moreover have "length vs = length ts" "\<forall>i < length ts. vs ! i =
      (if n + 1 + int i < RATE_LIMIT_USER_MAX env then Allow else reject env (retry_after (expiry - ts ! i)) u)"
    using ih' unfolding run by simp_all
  ultimately show ?case by (auto simp: nth_Cons add.assoc split: nat.splits)
qed auto


definition sample_request :: request where
  "sample_request = \<lparr>rq_id = JStr ''r1'', rq_url = Some ''/api/purchase'', rq_body = JObj [(''userId'', JStr '' bob '')],
     rq_ip = Some ''10.0.0.1''\<rparr>"

lemma sample_candidate: "extractRateLimitCandidateUserId (rq_body sample_request) = Some ''bob''"
  by code_simp


section \<open>Buckets\<close>

lemma split_last_colon:
  assumes "a @ '':'' @ u = b @ '':'' @ v" and "list_all (\<lambda>c. c \<noteq> CHR '':'') u" and "list_all (\<lambda>c. c \<noteq> CHR '':'') v"
  shows "a = b \<and> u = v"
proof -
  have "rev u @ CHR '':'' # rev a = rev v @ CHR '':'' # rev b"
    using arg_cong [OF assms(1), of rev] by simp
  moreover have "split_colon (rev u @ CHR '':'' # rev a) = (rev u, Some (rev a))"
    by (rule split_colon_append) (use assms(2) in \<open>simp only: list_all_iff set_rev\<close>)
  moreover have "split_colon (rev v @ CHR '':'' # rev b) = (rev v, Some (rev b))"
    by (rule split_colon_append) (use assms(3) in \<open>simp only: list_all_iff set_rev\<close>)
  ultimately have "(rev u, Some (rev a)) = (rev v, Some (rev b))" by metis
  then show ?thesis by simp
qed

lemma candidate_no_colon:
  "extractRateLimitCandidateUserId body = Some u \<Longrightarrow> list_all (\<lambda>c. c \<noteq> CHR '':'') u"
proof -
  assume "extractRateLimitCandidateUserId body = Some u"
  then have "list_all is_user_id_char u"
    by (auto simp: extractRateLimitCandidateUserId_def USER_ID_PATTERN_def Let_def split: js_value.splits if_splits)
  moreover have "is_user_id_char c \<Longrightarrow> c \<noteq> CHR '':''" for c
    by (auto simp: is_user_id_char_def is_lower_def is_upper_def is_digit_def)
  ultimately show ?thesis by (auto simp: list_all_iff)
qed

text \<open>
  A stranger cannot exhaust a user's budget. Within a sale the buckets of two requests with
  addresses coincide only when both the address and the user coincide, also for addresses that
  contain colons; a request changes no bucket but its own; and when the limiter's Redis fails, or
  the body names no plausible user, the request is admitted.
\<close>

lemma limiter_isolated:
  assumes "extractRateLimitCandidateUserId (rq_body rq) = Some u"
    and "extractRateLimitCandidateUserId (rq_body rq') = Some u'" and "rq_ip rq = Some a" "rq_ip rq' = Some a'"
  shows "(buildUserRateLimitKey s (rq_ip rq) u = buildUserRateLimitKey s (rq_ip rq') u' \<longleftrightarrow> a = a' \<and> u = u')
     \<and> (\<forall>k. k \<noteq> buildUserRateLimitKey (API_SALE_ID env) (rq_ip rq) u \<longrightarrow>
          snd (canActivate env d now rq store) k = store k)
     \<and> (\<forall>now' store'. d \<noteq> Delivered \<longrightarrow> fst (canActivate env d now' rq store') = Allow)"
proof -
  have "a = a' \<and> u = u'" if "buildUserRateLimitKey s (rq_ip rq) u = buildUserRateLimitKey s (rq_ip rq') u'"
    using split_last_colon [of a u a' u'] that assms candidate_no_colon [OF assms(1)] candidate_no_colon [OF assms(2)]
    by (simp add: buildUserRateLimitKey_def)
  then have "buildUserRateLimitKey s (rq_ip rq) u = buildUserRateLimitKey s (rq_ip rq') u' \<longleftrightarrow> a = a' \<and> u = u'"
    using assms(3,4) by auto
  moreover have "snd (canActivate env d now rq store) k = store k"
    if "k \<noteq> buildUserRateLimitKey (API_SALE_ID env) (rq_ip rq) u" for k
    using that assms(1)
    by (auto simp: canActivate_def incrementAndBound_def RATE_LIMIT_USER_SCRIPT_def Let_def split: prod.splits sum.splits
        delivery.splits option.splits if_splits)
  moreover have "fst (canActivate env d now' rq store') = Allow" if "d \<noteq> Delivered" for now' store'
    using that assms(1) by (cases d) (auto simp: canActivate_def incrementAndBound_def split: prod.splits)
  ultimately show ?thesis by blast
qed

text \<open>
  At the very millisecond of its expiry a key still exists with no time left; the reply then
  counts as malformed and the request is admitted whatever the count.
\<close>

lemma limiter_open_at_expiry:
  assumes "extractRateLimitCandidateUserId (rq_body rq) = Some u"
    and "store (buildUserRateLimitKey (API_SALE_ID env) (rq_ip rq) u) = Some (n, Some now)"
  shows "fst (canActivate env Delivered now rq store) = Allow"
  using assms by (simp add: canActivate_def incrementAndBound_def RATE_LIMIT_USER_SCRIPT_def PTTL_def
      decode_limit_reply_def js_to_number_def)

end
