(* ===== verification/Load_Audit.thy ===== *)
theory Load_Audit
  imports Reconciliation Rate_Limit "HOL-Library.Char_ord" "HOL-Library.List_Lexorder" "HOL-Library.Multiset"
begin

text \<open>
  The audit of a load run, load/audit.ts with the types of load/contracts.ts: the collection of a
  snapshot from the two health endpoints, the tables and the Redis keys; the wait for two matching
  snapshots; the evaluation of the four invariants I1 to I4; and the validation of the artifacts of
  a profile. The HTTP answers are arguments, the tables and the keys are those of the other
  theories. Publication of the report (descriptors, a hard link, file modes) is not modelled.
\<close>

section \<open>Data\<close>

datatype stress_scenario =
    Sc_warmup | Sc_smoke | Sc_surge | Sc_duplicate_storm | Sc_sold_out | Sc_window_edge

definition STRESS_SCENARIOS :: "stress_scenario list" where
  "STRESS_SCENARIOS = [Sc_warmup, Sc_smoke, Sc_surge, Sc_duplicate_storm, Sc_sold_out, Sc_window_edge]"

definition MEASURED_STRESS_SCENARIOS :: "stress_scenario list" where
  "MEASURED_STRESS_SCENARIOS = [Sc_smoke, Sc_surge, Sc_duplicate_storm, Sc_sold_out, Sc_window_edge]"

record sale_config =
  cfg_id :: string
  cfg_name :: string
  cfg_totalStock :: js_num
  cfg_startsAtMs :: js_num
  cfg_endsAtMs :: js_num

record audit_order =
  ao_id :: string
  ao_userId :: string
  ao_status :: order_status
  ao_createdAtMs :: js_num

record queue_counts =
  qn_waiting :: js_num
  qn_active :: js_num
  qn_delayed :: js_num
  qn_failed :: js_num

record audit_postgres =
  ap_totalStock :: js_num
  ap_persisted :: js_num
  ap_compensated :: js_num
  ap_reserved :: js_num
  ap_duplicateUsersGlobal :: js_num
  ap_duplicateUsersInSale :: js_num
  ap_outsideWindow :: js_num

record audit_redis =
  ar_stock :: js_num
  ar_buyers :: js_num
  ar_reservations :: js_num
  ar_metricsConfirmed :: js_num

text \<open>A \<open>Set\<close> of texts is a list without repetition; a \<open>Map\<close> is an association list.\<close>

type_synonym reservation_map = "(string \<times> string \<times> js_num) list"

record snapshot =
  sn_apiReady :: bool
  sn_workerReady :: bool
  sn_queue :: queue_counts
  sn_sale :: sale_config
  sn_apiSale :: sale_config
  sn_redisSale :: sale_config
  sn_postgres :: audit_postgres
  sn_redis :: audit_redis
  sn_orders :: "audit_order list"
  sn_buyers :: "string list"
  sn_reservations :: reservation_map
  sn_ledgerErrors :: "string list"

record convergence_evidence =
  ce_snapshot :: snapshot
  ce_elapsedMs :: int
  ce_matchingSnapshots :: nat
  ce_stableIntervalMs :: int
  ce_finalLiveCollection :: bool
  ce_successfulCollections :: nat
  ce_collectionFailures :: nat

record audit_input =
  ai_runId :: string
  ai_scenario :: stress_scenario
  ai_saleId :: string
  ai_initialStock :: js_num
  ai_expectedConfirmed :: js_num
  ai_evidence :: convergence_evidence

record invariant_result =
  iv_pass :: bool
  iv_evidence :: "string list"

text \<open>The report repeats the evidence it was given, as the sections \<open>convergence\<close>, \<open>postgres\<close> and \<open>redis\<close>.\<close>

record audit_report =
  rp_schemaVersion :: int
  rp_runId :: string
  rp_scenario :: stress_scenario
  rp_saleId :: string
  rp_auditedAt :: string
  rp_expectedConfirmed :: js_num
  rp_evidence :: convergence_evidence
  rp_I1 :: invariant_result
  rp_I2 :: invariant_result
  rp_I3 :: invariant_result
  rp_I4 :: invariant_result
  rp_pass :: bool

section \<open>Numbers and text\<close>

text \<open>\<open>===\<close> and \<open>+\<close> on numbers; NaN equals nothing.\<close>

definition js_eq :: "js_num \<Rightarrow> js_num \<Rightarrow> bool" where
  "js_eq a b \<longleftrightarrow> a = b \<and> a \<noteq> NaN"

fun js_add :: "js_num \<Rightarrow> js_num \<Rightarrow> js_num" where
  "js_add (Fin a) (Fin b) = Fin (a + b)"
| "js_add NaN _ = NaN"
| "js_add _ NaN = NaN"
| "js_add PosInf NegInf = NaN"
| "js_add NegInf PosInf = NaN"
| "js_add PosInf _ = PosInf"
| "js_add NegInf _ = NegInf"
| "js_add _ PosInf = PosInf"
| "js_add _ NegInf = NegInf"

fun js_text :: "js_num \<Rightarrow> string" where
  "js_text (Fin n) = dec_int n"
| "js_text PosInf = ''Infinity''"
| "js_text NegInf = ''-Infinity''"
| "js_text NaN = ''NaN''"

definition bool_text :: "bool \<Rightarrow> string" where
  "bool_text b = (if b then ''true'' else ''false'')"

definition count_num :: "'a list \<Rightarrow> js_num" where
  "count_num xs = Fin (int (length xs))"

section \<open>Evaluation of the invariants\<close>

definition equalSet :: "string list \<Rightarrow> string list \<Rightarrow> bool" where
  "equalSet left right \<longleftrightarrow> length left = length right \<and> list_all (\<lambda>v. v \<in> set right) left"

fun scenario_count :: "stress_scenario \<Rightarrow> int" where
  "scenario_count Sc_warmup = 200"
| "scenario_count Sc_smoke = 200"
| "scenario_count Sc_surge = 500"
| "scenario_count Sc_duplicate_storm = 5000"
| "scenario_count Sc_sold_out = 10"
| "scenario_count Sc_window_edge = 1000"

definition scenarioCountsPass :: "stress_scenario \<Rightarrow> js_num \<Rightarrow> js_num \<Rightarrow> bool" where
  "scenarioCountsPass scenario expected persisted \<longleftrightarrow>
     js_eq expected (Fin (scenario_count scenario)) \<and> js_eq persisted (Fin (scenario_count scenario))"

definition persisted_orders :: "audit_order list \<Rightarrow> audit_order list" where
  "persisted_orders = filter (\<lambda>order. ao_status order = Persisted)"

definition compensated_orders :: "audit_order list \<Rightarrow> audit_order list" where
  "compensated_orders = filter (\<lambda>order. ao_status order = Compensated)"

definition configEqual :: "audit_input \<Rightarrow> snapshot \<Rightarrow> bool" where
  "configEqual input s \<longleftrightarrow>
     list_all (\<lambda>sale. cfg_id sale = ai_saleId input \<and> cfg_name sale = cfg_name (sn_sale s)
         \<and> js_eq (cfg_totalStock sale) (ai_initialStock input)
         \<and> js_eq (cfg_startsAtMs sale) (cfg_startsAtMs (sn_sale s))
         \<and> js_eq (cfg_endsAtMs sale) (cfg_endsAtMs (sn_sale s)))
       [sn_sale s, sn_apiSale s, sn_redisSale s]"

definition identitiesMatch :: "snapshot \<Rightarrow> bool" where
  "identitiesMatch s \<longleftrightarrow>
     list_all (\<lambda>order. case map_of (sn_reservations s) (ao_userId order) of
         None \<Rightarrow> False
       | Some (reservationId, reservedAtMs) \<Rightarrow>
           reservationId = ao_id order \<and> js_eq reservedAtMs (ao_createdAtMs order))
       (persisted_orders (sn_orders s))"

definition compensatedAbsent :: "snapshot \<Rightarrow> bool" where
  "compensatedAbsent s \<longleftrightarrow>
     list_all (\<lambda>order. ao_userId order \<notin> set (sn_buyers s)
         \<and> map_of (sn_reservations s) (ao_userId order) = None)
       (compensated_orders (sn_orders s))"

definition inside :: "sale_config \<Rightarrow> js_num \<Rightarrow> bool" where
  "inside sale at \<longleftrightarrow> js_le (cfg_startsAtMs sale) at \<and> js_lt at (cfg_endsAtMs sale)"

definition allInsideWindow :: "snapshot \<Rightarrow> bool" where
  "allInsideWindow s \<longleftrightarrow>
     list_all (\<lambda>order. inside (sn_sale s) (ao_createdAtMs order)) (sn_orders s)
     \<and> list_all (\<lambda>(_, _, reservedAtMs). inside (sn_sale s) reservedAtMs) (sn_reservations s)"

definition evaluate_I1 :: "audit_input \<Rightarrow> invariant_result" where
  "evaluate_I1 input =
     (let s = ce_snapshot (ai_evidence input); redis = sn_redis s; postgres = sn_postgres s
      in \<lparr>iv_pass = js_le (Fin 0) (ar_stock redis) \<and> js_le (ar_stock redis) (ai_initialStock input)
            \<and> js_le (ar_reservations redis) (ai_initialStock input)
            \<and> js_eq (js_add (ar_stock redis) (ar_reservations redis)) (ai_initialStock input)
            \<and> js_eq (ap_persisted postgres) (ar_reservations redis)
            \<and> scenarioCountsPass (ai_scenario input) (ai_expectedConfirmed input) (ap_persisted postgres),
          iv_evidence =
            [''stock='' @ js_text (ar_stock redis) @ '', reservations='' @ js_text (ar_reservations redis)
               @ '', total='' @ js_text (ai_initialStock input),
             ''persisted='' @ js_text (ap_persisted postgres)
               @ '', expected='' @ js_text (ai_expectedConfirmed input)]\<rparr>)"

definition evaluate_I2 :: "audit_input \<Rightarrow> invariant_result" where
  "evaluate_I2 input =
     (let s = ce_snapshot (ai_evidence input); postgres = sn_postgres s;
          persistedUsers = remdups (map ao_userId (persisted_orders (sn_orders s)));
          reservationUsers = map fst (sn_reservations s)
      in \<lparr>iv_pass = js_eq (ap_duplicateUsersGlobal postgres) (Fin 0)
            \<and> js_eq (ap_duplicateUsersInSale postgres) (Fin 0)
            \<and> equalSet (sn_buyers s) reservationUsers \<and> equalSet (sn_buyers s) persistedUsers,
          iv_evidence =
            [''globalDuplicates='' @ js_text (ap_duplicateUsersGlobal postgres)
               @ '', saleDuplicates='' @ js_text (ap_duplicateUsersInSale postgres),
             ''buyers='' @ js_text (count_num (sn_buyers s)) @ '', reservations=''
               @ js_text (count_num reservationUsers) @ '', persistedUsers=''
               @ js_text (count_num persistedUsers)]\<rparr>)"

definition evaluate_I3 :: "audit_input \<Rightarrow> invariant_result" where
  "evaluate_I3 input =
     (let s = ce_snapshot (ai_evidence input); postgres = sn_postgres s
      in \<lparr>iv_pass = js_eq (ap_outsideWindow postgres) (Fin 0) \<and> allInsideWindow s,
          iv_evidence =
            [''outsideWindow='' @ js_text (ap_outsideWindow postgres)
               @ '', startsAtMs='' @ js_text (cfg_startsAtMs (sn_sale s))
               @ '', endsAtMs='' @ js_text (cfg_endsAtMs (sn_sale s))]\<rparr>)"

definition evaluate_I4 :: "audit_input \<Rightarrow> invariant_result" where
  "evaluate_I4 input =
     (let e = ai_evidence input; s = ce_snapshot e; postgres = sn_postgres s; queue = sn_queue s
      in \<lparr>iv_pass = sn_apiReady s \<and> sn_workerReady s \<and> ce_matchingSnapshots e = 2
            \<and> 250 \<le> ce_stableIntervalMs e \<and> ce_finalLiveCollection e
            \<and> js_eq (qn_waiting queue) (Fin 0) \<and> js_eq (qn_active queue) (Fin 0)
            \<and> js_eq (qn_delayed queue) (Fin 0) \<and> js_eq (qn_failed queue) (Fin 0)
            \<and> js_eq (ap_reserved postgres) (Fin 0)
            \<and> js_eq (ai_expectedConfirmed input) (js_add (ap_persisted postgres) (ap_compensated postgres))
            \<and> identitiesMatch s
            \<and> length (sn_reservations s) = length (persisted_orders (sn_orders s))
            \<and> compensatedAbsent s \<and> configEqual input s \<and> sn_ledgerErrors s = [],
          iv_evidence =
            [''confirmed='' @ js_text (ai_expectedConfirmed input)
               @ '', persisted='' @ js_text (ap_persisted postgres)
               @ '', compensated='' @ js_text (ap_compensated postgres)
               @ '', reserved='' @ js_text (ap_reserved postgres),
             ''queue='' @ js_text (qn_waiting queue) @ ''/'' @ js_text (qn_active queue)
               @ ''/'' @ js_text (qn_delayed queue) @ ''/'' @ js_text (qn_failed queue)
               @ '', matchingSnapshots='' @ dec_nat (ce_matchingSnapshots e)
               @ '', stableIntervalMs='' @ dec_int (ce_stableIntervalMs e)
               @ '', finalLiveCollection='' @ bool_text (ce_finalLiveCollection e),
             ''identitiesMatch='' @ bool_text (identitiesMatch s)
               @ '', configEqual='' @ bool_text (configEqual input s)
               @ '', ledgerErrors='' @ js_text (count_num (sn_ledgerErrors s))]\<rparr>)"

text \<open>\<open>auditedAt\<close> is the reading of \<open>monotonicIso\<close>.\<close>

definition evaluateAudit :: "string \<Rightarrow> audit_input \<Rightarrow> audit_report" where
  "evaluateAudit auditedAt input =
     (let I1 = evaluate_I1 input; I2 = evaluate_I2 input; I3 = evaluate_I3 input; I4 = evaluate_I4 input
      in \<lparr>rp_schemaVersion = 1, rp_runId = ai_runId input, rp_scenario = ai_scenario input,
          rp_saleId = ai_saleId input, rp_auditedAt = auditedAt, rp_expectedConfirmed = ai_expectedConfirmed input,
          rp_evidence = ai_evidence input, rp_I1 = I1, rp_I2 = I2, rp_I3 = I3, rp_I4 = I4,
          rp_pass = list_all iv_pass [I1, I2, I3, I4]\<rparr>)"

section \<open>Artifacts of a profile\<close>

datatype profile = Full_profile | Smoke_profile

record result_artifact =
  ra_scenario :: stress_scenario
  ra_repetition :: int
  ra_pass :: bool
  ra_summaryPath :: string
  ra_auditPath :: string
  ra_runtimePath :: string

definition required_scenarios :: "stress_scenario list" where
  "required_scenarios = [Sc_surge, Sc_duplicate_storm, Sc_sold_out, Sc_window_edge]"

definition validateResultArtifacts ::
  "profile \<Rightarrow> result_artifact list \<Rightarrow> result_artifact list result" where
  "validateResultArtifacts prof artifacts =
     (let warmups = filter (\<lambda>a. ra_scenario a = Sc_warmup) artifacts
      in if prof = Smoke_profile then
           (if length warmups \<noteq> 0 then Inl (GenericError ''Smoke profile must not contain warmup'')
            else (let smoke = filter (\<lambda>a. ra_scenario a = Sc_smoke \<and> ra_repetition a = 1) artifacts
                  in if length smoke \<noteq> 1 \<or> length artifacts \<noteq> 1
                     then Inl (GenericError ''Smoke profile requires exactly smoke/r1'')
                     else Inr smoke))
         else if length warmups \<noteq> 1 \<or> ra_repetition (warmups ! 0) \<noteq> 1 \<or> \<not> ra_pass (warmups ! 0)
         then Inl (GenericError ''Full profile requires exactly one passing warmup/r1'')
         else (let measured = filter (\<lambda>a. ra_scenario a \<in> set MEASURED_STRESS_SCENARIOS) artifacts
               in if length measured \<noteq> 12
                     \<or> list_ex (\<lambda>scenario. list_ex (\<lambda>repetition.
                          \<not> list_ex (\<lambda>a. ra_scenario a = scenario \<and> ra_repetition a = repetition) measured)
                          [1, 2, 3]) required_scenarios
                  then Inl (GenericError ''Full profile requires all 12 measured reports'')
                  else Inr measured))"

definition integrityInputPaths :: "result_artifact list \<Rightarrow> string list" where
  "integrityInputPaths artifacts =
     sort (concat (map (\<lambda>a. [ra_summaryPath a, ra_auditPath a, ra_runtimePath a]) artifacts))"

section \<open>JSON text\<close>

definition hex_char :: "nat \<Rightarrow> char" where
  "hex_char d = ''0123456789abcdef'' ! d"

definition json_escape :: "char \<Rightarrow> string" where
  "json_escape c =
     (let n = of_char c :: nat
      in if n = 34 then [char_of (92 :: nat), char_of (34 :: nat)]
         else if n = 92 then [char_of (92 :: nat), char_of (92 :: nat)]
         else if n = 8 then char_of (92 :: nat) # ''b''
         else if n = 9 then char_of (92 :: nat) # ''t''
         else if n = 10 then char_of (92 :: nat) # ''n''
         else if n = 12 then char_of (92 :: nat) # ''f''
         else if n = 13 then char_of (92 :: nat) # ''r''
         else if n < 32 then char_of (92 :: nat) # ''u00'' @ [hex_char (n div 16), hex_char (n mod 16)]
         else [c])"

definition json_string :: "string \<Rightarrow> string" where
  "json_string s = [char_of (34 :: nat)] @ concat (map json_escape s) @ [char_of (34 :: nat)]"

fun join :: "string \<Rightarrow> string list \<Rightarrow> string" where
  "join sep [] = []"
| "join sep [x] = x"
| "join sep (x # y # ys) = x @ sep @ join sep (y # ys)"

text \<open>\<open>JSON.stringify\<close> of an array of scalars and arrays; a number that is not finite is \<open>null\<close>.\<close>

fun json_text :: "js_value \<Rightarrow> string" where
  "json_text (JBool b) = bool_text b"
| "json_text (JNum (Fin n)) = dec_int n"
| "json_text (JStr s) = json_string s"
| "json_text (JArr vs) = ''['' @ join '','' (map json_text vs) @ '']''"
| "json_text (JObj ps) = ''{'' @ join '','' (map (\<lambda>(k, v). json_string k @ '':'' @ json_text v)
     (filter (\<lambda>(k, v). v \<noteq> JUndefined) ps)) @ ''}''"
| "json_text _ = ''null''"

section \<open>Convergence\<close>

definition converged :: "snapshot \<Rightarrow> bool" where
  "converged s \<longleftrightarrow>
     (let queue = sn_queue s
      in sn_apiReady s \<and> sn_workerReady s
         \<and> js_eq (qn_waiting queue) (Fin 0) \<and> js_eq (qn_active queue) (Fin 0)
         \<and> js_eq (qn_delayed queue) (Fin 0) \<and> js_eq (qn_failed queue) (Fin 0))"

definition saleFingerprint :: "sale_config \<Rightarrow> js_value" where
  "saleFingerprint sale =
     JArr [JStr (cfg_id sale), JStr (cfg_name sale), JNum (cfg_totalStock sale),
       JNum (cfg_startsAtMs sale), JNum (cfg_endsAtMs sale)]"

definition canonicalFingerprint :: "snapshot \<Rightarrow> string" where
  "canonicalFingerprint s =
     (let orders = sort_key json_text (map (\<lambda>order. JArr [JStr (ao_id order), JStr (ao_userId order),
            JStr (order_status_text (ao_status order)), JNum (ao_createdAtMs order)]) (sn_orders s));
          buyers = sort (sn_buyers s);
          reservations = sort_key json_text (map (\<lambda>(userId, reservationId, reservedAtMs).
            JArr [JStr userId, JStr reservationId, JNum reservedAtMs]) (sn_reservations s));
          queue = sn_queue s; postgres = sn_postgres s; redis = sn_redis s
      in json_text (JArr
           [JBool (sn_apiReady s), JBool (sn_workerReady s),
            JArr (map JNum [qn_waiting queue, qn_active queue, qn_delayed queue, qn_failed queue]),
            saleFingerprint (sn_sale s), saleFingerprint (sn_apiSale s), saleFingerprint (sn_redisSale s),
            JArr (map JNum [ap_totalStock postgres, ap_persisted postgres, ap_compensated postgres,
              ap_reserved postgres, ap_duplicateUsersGlobal postgres, ap_duplicateUsersInSale postgres,
              ap_outsideWindow postgres]),
            JArr (map JNum [ar_stock redis, ar_buyers redis, ar_reservations redis, ar_metricsConfirmed redis]),
            JArr orders, JArr (map JStr buyers), JArr reservations,
            JArr (map JStr (sort (sn_ledgerErrors s)))]))"

text \<open>
  The surroundings of the wait: the clock (the injected \<open>now\<close>, in whole milliseconds), the
  collection and the delay, each of which moves the world on.
\<close>

record 'w surroundings =
  su_now :: "'w \<Rightarrow> int \<times> 'w"
  su_collect :: "'w \<Rightarrow> snapshot result \<times> 'w"
  su_delay :: "int \<Rightarrow> 'w \<Rightarrow> 'w"

record wait_state =
  ws_backoffMs :: int
  ws_candidate :: "(string \<times> int) option"
  ws_successful :: nat
  ws_failures :: nat

definition new_wait :: wait_state where
  "new_wait = \<lparr>ws_backoffMs = 100, ws_candidate = None, ws_successful = 0, ws_failures = 0\<rparr>"

definition remaining :: "'w surroundings \<Rightarrow> int \<Rightarrow> int \<Rightarrow> 'w \<Rightarrow> int \<times> 'w" where
  "remaining su deadlineMs startedAt w =
     (case su_now su w of (t, w1) \<Rightarrow> (deadlineMs - (t - startedAt), w1))"

text \<open>\<open>Math.ceil(backoffMs * 1.5)\<close> on whole milliseconds.\<close>

definition next_backoff :: "int \<Rightarrow> int" where
  "next_backoff backoffMs = min 2000 ((3 * backoffMs + 1) div 2)"

definition sleepForRetry ::
  "'w surroundings \<Rightarrow> int \<Rightarrow> int \<Rightarrow> wait_state \<times> 'w \<Rightarrow> wait_state \<times> 'w" where
  "sleepForRetry su deadlineMs startedAt = (\<lambda>(st, w).
     case remaining su deadlineMs startedAt w of (left, w1) \<Rightarrow>
       let milliseconds = min (ws_backoffMs st) (max 0 left);
           st1 = st\<lparr>ws_backoffMs := next_backoff (ws_backoffMs st)\<rparr>
       in (st1, if milliseconds > 0 then su_delay su milliseconds w1 else w1))"

definition collectOne ::
  "'w surroundings \<Rightarrow> wait_state \<times> 'w \<Rightarrow> snapshot option \<times> wait_state \<times> 'w" where
  "collectOne su = (\<lambda>(st, w).
     case su_collect su w of
       (Inr s, w1) \<Rightarrow> (Some s, st\<lparr>ws_successful := Suc (ws_successful st)\<rparr>, w1)
     | (Inl _, w1) \<Rightarrow> (None, st\<lparr>ws_failures := Suc (ws_failures st), ws_candidate := None\<rparr>, w1))"

definition deadline_expired :: js_error where
  "deadline_expired = GenericError ''Convergence deadline expired''"

text \<open>
  One turn of the loop, in three parts. The outer \<open>None\<close> means that the loop goes on; a \<open>break\<close> ends
  in the error after the loop. First the last collection, which must still match the candidate.
\<close>

definition confirm_final ::
  "'w surroundings \<Rightarrow> int \<Rightarrow> int \<Rightarrow> string \<Rightarrow> int \<Rightarrow> wait_state \<times> 'w
     \<Rightarrow> convergence_evidence result option \<times> wait_state \<times> 'w" where
  "confirm_final su deadlineMs startedAt candidateFingerprint stableIntervalMs = (\<lambda>(st, w).
     case remaining su deadlineMs startedAt w of (left, w1) \<Rightarrow>
     if left \<le> 0 then (Some (Inl deadline_expired), st, w1) else
     case collectOne su (st, w1) of (finalSnapshot, st2, w2) \<Rightarrow>
     case remaining su deadlineMs startedAt w2 of (left2, w3) \<Rightarrow>
     if left2 \<le> 0 then (Some (Inl deadline_expired), st2, w3) else
     case finalSnapshot of
       None \<Rightarrow> (None, sleepForRetry su deadlineMs startedAt (st2\<lparr>ws_candidate := None\<rparr>, w3))
     | Some f \<Rightarrow>
         if converged f \<and> canonicalFingerprint f = candidateFingerprint
         then (case su_now su w3 of (t, w4) \<Rightarrow>
           (Some (Inr \<lparr>ce_snapshot = f, ce_elapsedMs = t - startedAt, ce_matchingSnapshots = 2,
              ce_stableIntervalMs = stableIntervalMs, ce_finalLiveCollection = True,
              ce_successfulCollections = ws_successful st2,
              ce_collectionFailures = ws_failures st2\<rparr>), st2, w4))
         else (None, sleepForRetry su deadlineMs startedAt (st2\<lparr>ws_candidate := None\<rparr>, w3)))"

text \<open>A converged snapshot against the candidate.\<close>

definition judge_candidate ::
  "'w surroundings \<Rightarrow> int \<Rightarrow> int \<Rightarrow> snapshot \<Rightarrow> wait_state \<times> 'w
     \<Rightarrow> convergence_evidence result option \<times> wait_state \<times> 'w" where
  "judge_candidate su deadlineMs startedAt s = (\<lambda>(st, w).
     case su_now su w of (completedAt, w1) \<Rightarrow>
     let fingerprint = canonicalFingerprint s;
         renew = sleepForRetry su deadlineMs startedAt (st\<lparr>ws_candidate := Some (fingerprint, completedAt)\<rparr>, w1)
     in case ws_candidate st of
          None \<Rightarrow> (None, renew)
        | Some (candidateFingerprint, candidateAt) \<Rightarrow>
            if fingerprint \<noteq> candidateFingerprint then (None, renew)
            else if completedAt - candidateAt < 250
            then (None, sleepForRetry su deadlineMs startedAt (st, w1))
            else confirm_final su deadlineMs startedAt candidateFingerprint (completedAt - candidateAt) (st, w1))"

definition convergence_turn ::
  "'w surroundings \<Rightarrow> int \<Rightarrow> int \<Rightarrow> wait_state \<times> 'w \<Rightarrow> convergence_evidence result option \<times> wait_state \<times> 'w" where
  "convergence_turn su deadlineMs startedAt = (\<lambda>(st, w).
     case remaining su deadlineMs startedAt w of (left, w1) \<Rightarrow>
     if left \<le> 0 then (Some (Inl deadline_expired), st, w1) else
     case collectOne su (st, w1) of (collected, st2, w2) \<Rightarrow>
     case remaining su deadlineMs startedAt w2 of (left2, w3) \<Rightarrow>
     if left2 \<le> 0 then (Some (Inl deadline_expired), st2, w3) else
     case collected of
       None \<Rightarrow> (None, sleepForRetry su deadlineMs startedAt (st2, w3))
     | Some s \<Rightarrow>
         if \<not> converged s
         then (None, sleepForRetry su deadlineMs startedAt (st2\<lparr>ws_candidate := None\<rparr>, w3))
         else judge_candidate su deadlineMs startedAt s (st2, w3))"

text \<open>The loop, with fuel; \<open>None\<close> means that it has not ended.\<close>

fun convergence_loop ::
  "nat \<Rightarrow> 'w surroundings \<Rightarrow> int \<Rightarrow> int \<Rightarrow> wait_state \<times> 'w \<Rightarrow> (convergence_evidence result \<times> 'w) option" where
  "convergence_loop 0 su deadlineMs startedAt sw = None"
| "convergence_loop (Suc fuel) su deadlineMs startedAt sw =
     (case convergence_turn su deadlineMs startedAt sw of
        (Some r, _, w) \<Rightarrow> Some (r, w)
      | (None, sw1) \<Rightarrow> convergence_loop fuel su deadlineMs startedAt sw1)"

definition waitForConvergence ::
  "nat \<Rightarrow> 'w surroundings \<Rightarrow> int \<Rightarrow> 'w \<Rightarrow> (convergence_evidence result \<times> 'w) option" where
  "waitForConvergence fuel su deadlineMs w =
     (case su_now su w of (startedAt, w1) \<Rightarrow> convergence_loop fuel su deadlineMs startedAt (new_wait, w1))"

section \<open>Collection of a snapshot\<close>

text \<open>
  One collection reads the three endpoints, then the tables query by query, then the keys. Nothing
  locks the tables: \<open>rd_pg\<close> is the state each query sees, the pages of the order list from number 5
  on. The pages of a full \<open>SSCAN\<close> and \<open>HSCAN\<close> iteration are Redis's choice.
\<close>

record reads =
  rd_apiReady :: "(bool \<times> js_value) option"
  rd_workerReady :: "(bool \<times> js_value) option"
  rd_apiSale :: "(bool \<times> js_value) option"
  rd_pg :: "nat \<Rightarrow> pg"
  rd_redis :: redis_sale
  rd_buyers :: "string list list"
  rd_ledger :: "(string \<times> string) list list"

definition PAGE_SIZE :: nat where "PAGE_SIZE = 500"

text \<open>\<open>readJson\<close>: a failed request or a body that is not JSON counts as an empty answer.\<close>

definition readJson :: "(bool \<times> js_value) option \<Rightarrow> bool \<times> js_value" where
  "readJson response = (case response of None \<Rightarrow> (False, JNull) | Some answer \<Rightarrow> answer)"

definition nullish :: "js_value \<Rightarrow> js_value \<Rightarrow> js_value" where
  "nullish v d = (if v = JUndefined \<or> v = JNull then d else v)"

text \<open>\<open>String\<close> of a scalar; an object is rendered by its tag.\<close>

fun js_string :: "js_value \<Rightarrow> string" where
  "js_string JUndefined = ''undefined''"
| "js_string JNull = ''null''"
| "js_string (JBool b) = bool_text b"
| "js_string (JNum n) = js_text n"
| "js_string (JStr s) = s"
| "js_string (JArr vs) = join '','' (map (\<lambda>v. if v = JUndefined \<or> v = JNull then [] else js_string v) vs)"
| "js_string (JObj _) = ''[object Object]''"

definition text_field :: "js_value \<Rightarrow> string \<Rightarrow> string" where
  "text_field body k = js_string (nullish (js_get body k) (JStr []))"

definition num_field :: "js_value \<Rightarrow> string \<Rightarrow> int \<Rightarrow> js_num" where
  "num_field body k d = js_to_number (nullish (js_get body k) (JNum (Fin d)))"

definition hash_number :: "redis_hash \<Rightarrow> string \<Rightarrow> js_num" where
  "hash_number h k = js_to_number (case HGET h k of None \<Rightarrow> JNull | Some v \<Rightarrow> JStr v)"

definition sale_orders :: "string \<Rightarrow> pg \<Rightarrow> order_row list" where
  "sale_orders saleId db = filter (\<lambda>o1. or_sale_id o1 = saleId) (pg_orders db)"

definition status_count :: "order_status \<Rightarrow> string \<Rightarrow> pg \<Rightarrow> js_num" where
  "status_count st saleId db = count_num (filter (\<lambda>o1. or_status o1 = st) (sale_orders saleId db))"

text \<open>\<open>GROUP BY user_id HAVING count(*) > 1\<close>.\<close>

definition duplicate_users :: "order_row list \<Rightarrow> js_num" where
  "duplicate_users rows =
     (let users = map or_user_id rows in count_num (filter (\<lambda>u. 1 < count_list users u) (remdups users)))"

definition outside_window :: "string \<Rightarrow> pg \<Rightarrow> js_num" where
  "outside_window saleId db =
     count_num (concat (map (\<lambda>o1. filter (\<lambda>sl. sl_id sl = or_sale_id o1
         \<and> (or_created_at_ms o1 < sl_starts_ms sl \<or> sl_ends_ms sl \<le> or_created_at_ms o1)) (pg_sales db))
       (sale_orders saleId db)))"

definition order_page :: "string \<Rightarrow> nat \<Rightarrow> pg \<Rightarrow> order_row list" where
  "order_page saleId offset db = take PAGE_SIZE (drop offset (sort_key or_id (sale_orders saleId db)))"

fun read_pages :: "nat \<Rightarrow> string \<Rightarrow> (nat \<Rightarrow> pg) \<Rightarrow> nat \<Rightarrow> order_row list option" where
  "read_pages 0 saleId dbs k = None"
| "read_pages (Suc fuel) saleId dbs k =
     (let page = order_page saleId (k * PAGE_SIZE) (dbs k)
      in if length page < PAGE_SIZE then Some page
         else map_option (\<lambda>rest. page @ rest) (read_pages fuel saleId dbs (Suc k)))"

definition audit_order_of :: "order_row \<Rightarrow> audit_order" where
  "audit_order_of o1 = \<lparr>ao_id = or_id o1, ao_userId = or_user_id o1, ao_status = or_status o1,
     ao_createdAtMs = Fin (or_created_at_ms o1)\<rparr>"

text \<open>A set is filled in the order of arrival; a value that is there already is not added again.\<close>

definition scanSet :: "string list list \<Rightarrow> string list" where
  "scanSet pages = fold (\<lambda>v vs. if v \<in> set vs then vs else vs @ [v]) (concat pages) []"

text \<open>\<open>lastIndexOf(':')\<close> with the two slices.\<close>

fun split_last_colon :: "string \<Rightarrow> (string \<times> string) option" where
  "split_last_colon [] = None"
| "split_last_colon (c # cs) =
     (case split_last_colon cs of
        Some (a, b) \<Rightarrow> Some (c # a, b)
      | None \<Rightarrow> if c = CHR '':'' then Some ([], cs) else None)"

definition audit_entry :: "string \<Rightarrow> (string \<times> js_num) result" where
  "audit_entry raw =
     (case split_last_colon raw of
        None \<Rightarrow> Inl (GenericError ''Malformed Redis reservation ledger entry'')
      | Some (reservationId, stamp) \<Rightarrow>
          let reservedAtMs = js_to_number (JStr stamp)
          in if reservationId = [] \<or> \<not> is_safe_integer reservedAtMs
             then Inl (GenericError ''Malformed Redis reservation ledger entry'')
             else Inr (reservationId, reservedAtMs))"

fun scan_entries :: "(string \<times> string) list \<Rightarrow> reservation_map \<Rightarrow> reservation_map result" where
  "scan_entries [] values = Inr values"
| "scan_entries ((userId, raw) # rest) values =
     bind_result (audit_entry raw) (\<lambda>entry. scan_entries rest (AList.update userId entry values))"

definition api_config :: "js_value \<Rightarrow> sale_config" where
  "api_config body =
     \<lparr>cfg_id = text_field body ''saleId'', cfg_name = text_field body ''name'',
      cfg_totalStock = js_to_number (js_get body ''totalStock''),
      cfg_startsAtMs = js_to_number (js_get body ''startsAtMs''),
      cfg_endsAtMs = js_to_number (js_get body ''endsAtMs'')\<rparr>"

definition redis_config :: "string \<Rightarrow> redis_hash \<Rightarrow> sale_config" where
  "redis_config saleId h =
     \<lparr>cfg_id = saleId, cfg_name = (case HGET h ''name'' of None \<Rightarrow> [] | Some v \<Rightarrow> v),
      cfg_totalStock = hash_number h ''totalStock'', cfg_startsAtMs = hash_number h ''startsAtMs'',
      cfg_endsAtMs = hash_number h ''endsAtMs''\<rparr>"

definition row_config :: "sale_row \<Rightarrow> sale_config" where
  "row_config row =
     \<lparr>cfg_id = sl_id row, cfg_name = sl_name row, cfg_totalStock = Fin (sl_total_stock row),
      cfg_startsAtMs = Fin (sl_starts_ms row), cfg_endsAtMs = Fin (sl_ends_ms row)\<rparr>"

definition worker_ready :: "bool \<times> js_value \<Rightarrow> bool" where
  "worker_ready = (\<lambda>(ok, body).
     let checks = js_get body ''checks''
     in ok \<and> js_get checks ''bootstrapReconciled'' = JBool True \<and> js_get checks ''consumerReady'' = JBool True
        \<and> js_get checks ''reconciliationHealthy'' = JBool True
        \<and> js_eq (num_field checks ''activeJobs'' 0) (Fin 0) \<and> js_eq (num_field checks ''failedJobs'' 0) (Fin 0))"

definition api_queue :: "js_value \<Rightarrow> queue_counts" where
  "api_queue body =
     (let queue = js_get (js_get body ''checks'') ''queue''
      in \<lparr>qn_waiting = num_field queue ''waiting'' (- 1), qn_active = num_field queue ''active'' (- 1),
          qn_delayed = num_field queue ''delayed'' (- 1), qn_failed = num_field queue ''failed'' (- 1)\<rparr>)"

text \<open>A collection: \<open>None\<close> when the fuel of the page loop is spent, \<open>Inl\<close> when it throws.\<close>

definition collectSnapshot :: "nat \<Rightarrow> string \<Rightarrow> reads \<Rightarrow> snapshot result option" where
  "collectSnapshot fuel saleId rd =
     (let api = readJson (rd_apiReady rd); worker = readJson (rd_workerReady rd);
          apiSale = api_config (nullish (snd (readJson (rd_apiSale rd))) (JObj []));
          r = rd_redis rd
      in case filter (\<lambda>sl. sl_id sl = saleId) (pg_sales (rd_pg rd 0)) of
           [row] \<Rightarrow>
             (case read_pages fuel saleId (\<lambda>k. rd_pg rd (5 + k)) 0 of
                None \<Rightarrow> None
              | Some orders \<Rightarrow> Some (bind_result (scan_entries (concat (rd_ledger rd)) []) (\<lambda>reservations.
                  let buyers = scanSet (rd_buyers rd)
                  in Inr \<lparr>sn_apiReady = fst api \<and> js_get (snd api) ''status'' = JStr ''ok'' \<and> cfg_id apiSale = saleId,
                     sn_workerReady = worker_ready worker, sn_queue = api_queue (snd api),
                     sn_sale = row_config row, sn_apiSale = apiSale,
                     sn_redisSale = redis_config saleId (config_key r),
                     sn_postgres = \<lparr>ap_totalStock = Fin (sl_total_stock row),
                       ap_persisted = status_count Persisted saleId (rd_pg rd 1),
                       ap_compensated = status_count Compensated saleId (rd_pg rd 1),
                       ap_reserved = status_count Reserved saleId (rd_pg rd 1),
                       ap_duplicateUsersGlobal = duplicate_users (pg_orders (rd_pg rd 2)),
                       ap_duplicateUsersInSale = duplicate_users (sale_orders saleId (rd_pg rd 3)),
                       ap_outsideWindow = outside_window saleId (rd_pg rd 4)\<rparr>,
                     sn_redis = \<lparr>ar_stock = Fin (stock_of r), ar_buyers = count_num buyers,
                       ar_reservations = count_num reservations,
                       ar_metricsConfirmed = hash_number (metrics_key r) ''confirmed''\<rparr>,
                     sn_orders = map audit_order_of orders, sn_buyers = buyers,
                     sn_reservations = reservations, sn_ledgerErrors = []\<rparr>)))
         | _ \<Rightarrow> Some (Inl (GenericError ''Expected exactly one scoped sale row'')))"

section \<open>The wait ends, and what it returns is stable\<close>

text \<open>
  The clock never runs backwards and a delay lasts at least as long as asked; \<open>time\<close> is the true
  time of a world.
\<close>

definition clock_laws :: "'w surroundings \<Rightarrow> ('w \<Rightarrow> int) \<Rightarrow> bool" where
  "clock_laws su time \<longleftrightarrow>
     (\<forall>w. time w \<le> fst (su_now su w) \<and> fst (su_now su w) \<le> time (snd (su_now su w)))
     \<and> (\<forall>w. time w \<le> time (snd (su_collect su w)))
     \<and> (\<forall>d w. 0 < d \<longrightarrow> time w + d \<le> time (su_delay su d w))"

lemma clock_lawsD:
  assumes "clock_laws su time"
  shows "su_now su w = (t, w') \<Longrightarrow> time w \<le> t \<and> t \<le> time w'"
    and "su_collect su w = (r, w') \<Longrightarrow> time w \<le> time w'"
    and "0 < d \<Longrightarrow> time w + d \<le> time (su_delay su d w)"
  using assms unfolding clock_laws_def by (metis fst_conv snd_conv)+

lemma remaining_time:
  assumes "clock_laws su time" and "remaining su D s0 w = (left, w')"
  shows "time w \<le> s0 + D - left" and "s0 + D - left \<le> time w'"
  using assms(2) clock_lawsD(1) [OF assms(1)] by (fastforce simp: remaining_def split: prod.splits)+

lemma next_backoff_ge: "100 \<le> b \<Longrightarrow> 100 \<le> next_backoff b"
  by (simp add: next_backoff_def)

lemma sleep_progress:
  assumes laws: "clock_laws su time" and b: "100 \<le> ws_backoffMs st"
    and run: "sleepForRetry su D s0 (st, w) = (st', w')"
  shows "100 \<le> ws_backoffMs st' \<and> (time w + 100 \<le> time w' \<or> s0 + D \<le> time w')"
proof -
  obtain left w1 where r: "remaining su D s0 w = (left, w1)" by (cases "remaining su D s0 w")
  note t = remaining_time [OF laws r]
  from run r have st': "st' = st\<lparr>ws_backoffMs := next_backoff (ws_backoffMs st)\<rparr>"
    and w': "w' = (if 0 < min (ws_backoffMs st) (max 0 left)
                   then su_delay su (min (ws_backoffMs st) (max 0 left)) w1 else w1)"
    by (simp_all add: sleepForRetry_def Let_def)
  have "time w + 100 \<le> time w' \<or> s0 + D \<le> time w'"
  proof (cases "0 < left")
    case True
    then have pos: "0 < min (ws_backoffMs st) (max 0 left)" using b by simp
    from clock_lawsD(3) [OF laws pos, of w1] w' pos
    have "time w1 + min (ws_backoffMs st) left \<le> time w'" using True by simp
    then show ?thesis using t b by (auto simp: min_def split: if_splits)
  next
    case False
    then show ?thesis using t w' by simp
  qed
  then show ?thesis using st' next_backoff_ge [OF b] by simp
qed

lemma collectOne_time:
  assumes "clock_laws su time" and "collectOne su (st, w) = (c, st', w')"
  shows "time w \<le> time w' \<and> ws_backoffMs st' = ws_backoffMs st"
  using assms(2) clock_lawsD(2) [OF assms(1)] by (fastforce simp: collectOne_def split: prod.splits sum.splits)

text \<open>Every turn that does not end the loop ends in a sleep, no earlier than it began.\<close>

definition sleeps_later ::
  "'w surroundings \<Rightarrow> ('w \<Rightarrow> int) \<Rightarrow> int \<Rightarrow> int \<Rightarrow> wait_state \<times> 'w \<Rightarrow> wait_state \<times> 'w \<Rightarrow> bool" where
  "sleeps_later su time D s0 sw sw' \<longleftrightarrow>
     (\<exists>st1 w1. sleepForRetry su D s0 (st1, w1) = sw' \<and> ws_backoffMs st1 = ws_backoffMs (fst sw)
        \<and> time (snd sw) \<le> time w1)"

lemma sleeps_laterI:
  "ws_backoffMs st1 = ws_backoffMs st \<Longrightarrow> time w \<le> time w1 \<Longrightarrow>
   sleeps_later su time D s0 (st, w) (sleepForRetry su D s0 (st1, w1))"
  by (auto simp: sleeps_later_def)

lemma sleeps_later_trans:
  "ws_backoffMs st1 = ws_backoffMs st \<Longrightarrow> time w \<le> time w1 \<Longrightarrow> sleeps_later su time D s0 (st1, w1) sw' \<Longrightarrow>
   sleeps_later su time D s0 (st, w) sw'"
  by (fastforce simp: sleeps_later_def)

lemma remaining_later: "clock_laws su time \<Longrightarrow> remaining su D s0 w = (left, w') \<Longrightarrow> time w \<le> time w'"
  using remaining_time by fastforce

lemma now_later: "clock_laws su time \<Longrightarrow> su_now su w = (t, w') \<Longrightarrow> time w \<le> time w'"
  using clock_lawsD(1) by fastforce

lemma confirm_final_sleeps:
  assumes laws: "clock_laws su time" and run: "confirm_final su D s0 fp n (st, w) = (None, sw')"
  shows "sleeps_later su time D s0 (st, w) sw'"
proof -
  obtain left w1 where r: "remaining su D s0 w = (left, w1)" by (cases "remaining su D s0 w")
  obtain c st2 w2 where c: "collectOne su (st, w1) = (c, st2, w2)" by (cases "collectOne su (st, w1)")
  obtain left2 w3 where r2: "remaining su D s0 w2 = (left2, w3)" by (cases "remaining su D s0 w2")
  have t: "time w \<le> time w3" "ws_backoffMs st2 = ws_backoffMs st"
    using remaining_later [OF laws r] remaining_later [OF laws r2] collectOne_time [OF laws c] by simp_all
  from run have "sw' = sleepForRetry su D s0 (st2\<lparr>ws_candidate := None\<rparr>, w3)"
    by (simp add: confirm_final_def r c r2 split: if_splits option.splits prod.splits)
  then show ?thesis using t by (auto intro!: sleeps_laterI)
qed

lemma judge_candidate_sleeps:
  assumes laws: "clock_laws su time" and run: "judge_candidate su D s0 s (st, w) = (None, sw')"
  shows "sleeps_later su time D s0 (st, w) sw'"
proof -
  obtain t w1 where n: "su_now su w = (t, w1)" by (cases "su_now su w")
  note later = now_later [OF laws n]
  have final: "sleeps_later su time D s0 (st, w) sw'" if "confirm_final su D s0 fp k (st, w1) = (None, sw')" for fp k
    using sleeps_later_trans [OF refl later confirm_final_sleeps [OF laws that]] .
  show ?thesis
    using run later final
    by (auto simp: judge_candidate_def n Let_def intro!: sleeps_laterI split: option.splits prod.splits if_splits)
qed

lemma turn_progress:
  assumes laws: "clock_laws su time" and b: "100 \<le> ws_backoffMs st"
    and run: "convergence_turn su D s0 (st, w) = (None, st', w')"
  shows "100 \<le> ws_backoffMs st' \<and> (time w + 100 \<le> time w' \<or> s0 + D \<le> time w')"
proof -
  obtain left w1 where r: "remaining su D s0 w = (left, w1)" by (cases "remaining su D s0 w")
  obtain c st2 w2 where c: "collectOne su (st, w1) = (c, st2, w2)" by (cases "collectOne su (st, w1)")
  obtain left2 w3 where r2: "remaining su D s0 w2 = (left2, w3)" by (cases "remaining su D s0 w2")
  have t: "time w \<le> time w3" "ws_backoffMs st2 = ws_backoffMs st"
    using remaining_later [OF laws r] remaining_later [OF laws r2] collectOne_time [OF laws c] by simp_all
  have judged: "sleeps_later su time D s0 (st, w) (st', w')"
    if "judge_candidate su D s0 s (st2, w3) = (None, st', w')" for s
    using sleeps_later_trans [OF t(2) t(1) judge_candidate_sleeps [OF laws that]] .
  have slept: "sleeps_later su time D s0 (st, w) (st', w')"
    if "sleepForRetry su D s0 (st1, w3) = (st', w')" "ws_backoffMs st1 = ws_backoffMs st2" for st1
    using sleeps_laterI [of st1 st time w w3 su D s0] that t by simp
  have "sleeps_later su time D s0 (st, w) (st', w')"
    using run judged slept [of st2] slept [of "st2\<lparr>ws_candidate := None\<rparr>"]
    by (auto simp: convergence_turn_def r c r2 split: option.splits if_splits)
  then obtain st1 w1 where slept: "sleepForRetry su D s0 (st1, w1) = (st', w')"
    and st1: "ws_backoffMs st1 = ws_backoffMs st" and w1: "time w \<le> time w1"
    by (auto simp: sleeps_later_def)
  have "100 \<le> ws_backoffMs st1" using st1 b by simp
  from sleep_progress [OF laws this slept] w1 show ?thesis by linarith
qed

lemma turn_at_deadline:
  assumes "clock_laws su time" and "s0 + D \<le> time w"
  shows "fst (convergence_turn su D s0 (st, w)) \<noteq> None"
proof -
  obtain left w1 where r: "remaining su D s0 w = (left, w1)" by (cases "remaining su D s0 w")
  from remaining_time(1) [OF assms(1) r] assms(2) have "left \<le> 0" by linarith
  then show ?thesis by (simp add: convergence_turn_def r)
qed

lemma convergence_loop_ends:
  assumes laws: "clock_laws su time"
  shows "100 \<le> ws_backoffMs (fst sw) \<Longrightarrow> s0 + D \<le> time (snd sw) + 100 * int n \<Longrightarrow>
     convergence_loop (Suc n) su D s0 sw \<noteq> None"
proof (induction n arbitrary: sw)
  case 0
  obtain st w where sw: "sw = (st, w)" by (cases sw)
  from 0 sw have "s0 + D \<le> time w" by simp
  from turn_at_deadline [OF laws this, of st] sw show ?case by (auto split: prod.splits)
next
  case (Suc n)
  obtain st w where sw: "sw = (st, w)" by (cases sw)
  obtain o1 st' w' where turn: "convergence_turn su D s0 (st, w) = (o1, st', w')"
    by (cases "convergence_turn su D s0 (st, w)")
  show ?case
  proof (cases o1)
    case None
    from Suc.prems(1) sw have "100 \<le> ws_backoffMs st" by simp
    from turn_progress [OF laws this turn [unfolded None]]
    have "100 \<le> ws_backoffMs st'" "s0 + D \<le> time w' + 100 * int n" using Suc.prems(2) sw by auto
    then have "convergence_loop (Suc n) su D s0 (st', w') \<noteq> None" by (intro Suc.IH) simp_all
    then show ?thesis using turn None sw by simp
  qed (use turn sw in simp)
qed

text \<open>
  C33: the wait for convergence ends. With a clock that does not run backwards the loop returns
  evidence or the deadline error after at most one turn for every 100 ms of the deadline and one
  more, whatever the collections answer.
\<close>

theorem waitForConvergence_ends:
  assumes laws: "clock_laws su time" and D: "deadlineMs \<le> 100 * int n"
  shows "\<exists>r w'. waitForConvergence (Suc n) su deadlineMs w = Some (r, w')"
proof -
  obtain s0 w1 where start: "su_now su w = (s0, w1)" by (cases "su_now su w")
  from clock_lawsD(1) [OF laws start] D have "s0 + deadlineMs \<le> time w1 + 100 * int n" by simp
  then have "convergence_loop (Suc n) su deadlineMs s0 (new_wait, w1) \<noteq> None"
    by (intro convergence_loop_ends [OF laws]) (simp_all add: new_wait_def)
  then show ?thesis unfolding waitForConvergence_def start by auto
qed

definition sample_config :: sale_config where
  "sample_config = \<lparr>cfg_id = ''flash-2026'', cfg_name = ''Aurora'', cfg_totalStock = Fin 10,
     cfg_startsAtMs = Fin 1000, cfg_endsAtMs = Fin 2000\<rparr>"

definition sample_audit_snapshot :: snapshot where
  "sample_audit_snapshot = \<lparr>sn_apiReady = True, sn_workerReady = True,
     sn_queue = \<lparr>qn_waiting = Fin 0, qn_active = Fin 0, qn_delayed = Fin 0, qn_failed = Fin 0\<rparr>,
     sn_sale = sample_config, sn_apiSale = sample_config, sn_redisSale = sample_config,
     sn_postgres = \<lparr>ap_totalStock = Fin 10, ap_persisted = Fin 0, ap_compensated = Fin 0, ap_reserved = Fin 0,
       ap_duplicateUsersGlobal = Fin 0, ap_duplicateUsersInSale = Fin 0, ap_outsideWindow = Fin 0\<rparr>,
     sn_redis = \<lparr>ar_stock = Fin 10, ar_buyers = Fin 0, ar_reservations = Fin 0, ar_metricsConfirmed = Fin 0\<rparr>,
     sn_orders = [], sn_buyers = [], sn_reservations = [], sn_ledgerErrors = []\<rparr>"

text \<open>A world of the time and the collected snapshots, in which a collection takes 10 ms.\<close>

definition sample_surroundings :: "(int \<times> snapshot list) surroundings" where
  "sample_surroundings = \<lparr>su_now = (\<lambda>w. (fst w, w)),
     su_collect = (\<lambda>(t, h). (Inr sample_audit_snapshot, (t + 10, sample_audit_snapshot # h))),
     su_delay = (\<lambda>d (t, h). (t + d, h))\<rparr>"

lemma sample_clock_laws: "clock_laws sample_surroundings fst"
  by (simp add: clock_laws_def sample_surroundings_def split: prod.splits)

theorem waitForConvergence_ends_witness:
  "\<exists>r w'. waitForConvergence 101 sample_surroundings 10000 (0, []) = Some (r, w')"
  using waitForConvergence_ends [OF sample_clock_laws, of 10000 100 "(0, [])"] by simp

text \<open>\<open>hist\<close> lists the snapshots that were collected, the latest first.\<close>

definition history_laws :: "'w surroundings \<Rightarrow> ('w \<Rightarrow> snapshot list) \<Rightarrow> bool" where
  "history_laws su hist \<longleftrightarrow>
     (\<forall>w. hist (snd (su_now su w)) = hist w) \<and> (\<forall>d w. hist (su_delay su d w) = hist w)
     \<and> (\<forall>w. hist (snd (su_collect su w)) =
          (case fst (su_collect su w) of Inl _ \<Rightarrow> hist w | Inr s \<Rightarrow> s # hist w))"

lemma history_lawsD:
  assumes "history_laws su hist"
  shows "su_now su w = (t, w') \<Longrightarrow> hist w' = hist w"
    and "remaining su D s0 w = (left, w') \<Longrightarrow> hist w' = hist w"
    and "su_collect su w = (Inr s, w') \<Longrightarrow> hist w' = s # hist w"
    and "su_collect su w = (Inl e, w') \<Longrightarrow> hist w' = hist w"
    and "hist (su_delay su d w) = hist w"
proof -
  show now: "su_now su w = (t, w') \<Longrightarrow> hist w' = hist w" for w t w'
    using assms unfolding history_laws_def by (metis snd_conv)
  show "remaining su D s0 w = (left, w') \<Longrightarrow> hist w' = hist w"
    using now [of w] by (auto simp: remaining_def split: prod.splits)
qed (use assms in \<open>auto simp: history_laws_def dest: spec [of _ w]\<close>)

definition agrees :: "string \<Rightarrow> snapshot \<Rightarrow> bool" where
  "agrees fp s \<longleftrightarrow> converged s \<and> canonicalFingerprint s = fp"

text \<open>The candidate is the fingerprint of the latest collection.\<close>

definition candidate_ok :: "('w \<Rightarrow> snapshot list) \<Rightarrow> wait_state \<times> 'w \<Rightarrow> bool" where
  "candidate_ok hist sw \<longleftrightarrow>
     (\<forall>fp at. ws_candidate (fst sw) = Some (fp, at) \<longrightarrow> (\<exists>s rest. hist (snd sw) = s # rest \<and> agrees fp s))"

text \<open>What a turn may answer: go on with a sound candidate, fail, or return stable evidence.\<close>

definition stable_evidence :: "snapshot list \<Rightarrow> convergence_evidence \<Rightarrow> bool" where
  "stable_evidence h e \<longleftrightarrow>
     (\<exists>s1 s0 rest. h = ce_snapshot e # s1 # s0 # rest
        \<and> list_all (agrees (canonicalFingerprint (ce_snapshot e))) [ce_snapshot e, s1, s0])
     \<and> ce_matchingSnapshots e = 2 \<and> 250 \<le> ce_stableIntervalMs e \<and> ce_finalLiveCollection e"

definition turn_ok ::
  "('w \<Rightarrow> snapshot list) \<Rightarrow> convergence_evidence result option \<times> wait_state \<times> 'w \<Rightarrow> bool" where
  "turn_ok hist = (\<lambda>(r, sw).
     case r of None \<Rightarrow> candidate_ok hist sw | Some (Inl _) \<Rightarrow> True | Some (Inr e) \<Rightarrow> stable_evidence (hist (snd sw)) e)"

lemma sleep_candidate:
  assumes "history_laws su hist"
  shows "candidate_ok hist (sleepForRetry su D s0 (st, w)) \<longleftrightarrow> candidate_ok hist (st, w)"
proof -
  obtain left w1 where r: "remaining su D s0 w = (left, w1)" by (cases "remaining su D s0 w")
  show ?thesis
    using history_lawsD(2) [OF assms r]
    by (simp add: sleepForRetry_def r Let_def candidate_ok_def history_lawsD(5) [OF assms])
qed

lemma collectOne_history:
  assumes "history_laws su hist" and "collectOne su (st, w) = (c, st', w')"
  shows "case c of None \<Rightarrow> ws_candidate st' = None \<and> hist w' = hist w
     | Some s \<Rightarrow> ws_candidate st' = ws_candidate st \<and> hist w' = s # hist w"
  using assms(2) history_lawsD(3,4) [OF assms(1)]
  by (auto simp: collectOne_def split: prod.splits sum.splits)

lemma confirm_final_ok:
  assumes laws: "history_laws su hist" and n: "250 \<le> n"
    and h: "hist w = s1 # s0 # rest" "agrees fp s1" "agrees fp s0"
  shows "turn_ok hist (confirm_final su D t0 fp n (st, w))"
proof -
  obtain left w1 where r: "remaining su D t0 w = (left, w1)" by (cases "remaining su D t0 w")
  obtain c st2 w2 where c: "collectOne su (st, w1) = (c, st2, w2)" by (cases "collectOne su (st, w1)")
  obtain left2 w3 where r2: "remaining su D t0 w2 = (left2, w3)" by (cases "remaining su D t0 w2")
  obtain t w4 where n4: "su_now su w3 = (t, w4)" by (cases "su_now su w3")
  have reset: "candidate_ok hist (sleepForRetry su D t0 (st2\<lparr>ws_candidate := None\<rparr>, w3))"
    by (simp add: sleep_candidate [OF laws]) (simp add: candidate_ok_def)
  have hist: "case c of None \<Rightarrow> True | Some f \<Rightarrow> hist w4 = f # s1 # s0 # rest"
    using collectOne_history [OF laws c] history_lawsD(2) [OF laws r] history_lawsD(2) [OF laws r2]
      history_lawsD(1) [OF laws n4] h(1) by (auto split: option.splits)
  show ?thesis
    using reset hist h(2,3) n
    by (auto simp: confirm_final_def r c r2 n4 turn_ok_def stable_evidence_def agrees_def split: option.splits)
qed

lemma judge_candidate_ok:
  assumes laws: "history_laws su hist" and s: "converged s" and h: "hist w = s # rest"
    and cand: "\<And>fp at. ws_candidate st = Some (fp, at) \<Longrightarrow> \<exists>s0 rest0. rest = s0 # rest0 \<and> agrees fp s0"
  shows "turn_ok hist (judge_candidate su D t0 s (st, w))"
proof -
  obtain t w1 where n: "su_now su w = (t, w1)" by (cases "su_now su w")
  have h1: "hist w1 = s # rest" using history_lawsD(1) [OF laws n] h by simp
  have renew: "candidate_ok hist (sleepForRetry su D t0 (st\<lparr>ws_candidate := Some (canonicalFingerprint s, t)\<rparr>, w1))"
    by (simp add: sleep_candidate [OF laws]) (simp add: candidate_ok_def agrees_def h1 s)
  show ?thesis
  proof (cases "ws_candidate st")
    case None
    then show ?thesis using renew by (simp add: judge_candidate_def n turn_ok_def Let_def)
  next
    case (Some fa)
    obtain fp at where fa: "fa = (fp, at)" by (cases fa)
    from cand Some fa obtain s0 rest0 where r: "rest = s0 # rest0" "agrees fp s0" by blast
    have keep: "candidate_ok hist (sleepForRetry su D t0 (st, w1))" if "canonicalFingerprint s = fp"
      using that Some fa h1 s by (simp add: sleep_candidate [OF laws]) (simp add: candidate_ok_def agrees_def)
    have final: "turn_ok hist (confirm_final su D t0 fp (t - at) (st, w1))"
      if "canonicalFingerprint s = fp" "250 \<le> t - at"
      using confirm_final_ok [OF laws that(2), of w1 s s0 rest0 fp D t0 st] h1 r that(1) s
      by (simp add: agrees_def)
    show ?thesis using Some fa renew keep final
      by (auto simp: judge_candidate_def n Let_def turn_ok_def)
  qed
qed

lemma turn_sound:
  assumes laws: "history_laws su hist" and ok: "candidate_ok hist (st, w)"
  shows "turn_ok hist (convergence_turn su D t0 (st, w))"
proof -
  obtain left w1 where r: "remaining su D t0 w = (left, w1)" by (cases "remaining su D t0 w")
  obtain c st2 w2 where c: "collectOne su (st, w1) = (c, st2, w2)" by (cases "collectOne su (st, w1)")
  obtain left2 w3 where r2: "remaining su D t0 w2 = (left2, w3)" by (cases "remaining su D t0 w2")
  have none: "candidate_ok hist (sleepForRetry su D t0 (st1, w3))" if "ws_candidate st1 = None" for st1
    using that by (simp add: sleep_candidate [OF laws]) (simp add: candidate_ok_def)
  show ?thesis
  proof (cases c)
    case None
    then show ?thesis using collectOne_history [OF laws c] none
      by (simp add: convergence_turn_def r c r2 turn_ok_def)
  next
    case (Some s)
    have h3: "hist w3 = s # hist w" and cand: "ws_candidate st2 = ws_candidate st"
      using collectOne_history [OF laws c] history_lawsD(2) [OF laws r] history_lawsD(2) [OF laws r2] Some by simp_all
    have "turn_ok hist (judge_candidate su D t0 s (st2, w3))" if "converged s"
      by (rule judge_candidate_ok [OF laws that h3]) (use ok cand in \<open>simp add: candidate_ok_def\<close>)
    then show ?thesis using Some none by (simp add: convergence_turn_def r c r2 turn_ok_def)
  qed
qed

lemma loop_sound:
  assumes laws: "history_laws su hist"
  shows "candidate_ok hist sw \<Longrightarrow> convergence_loop fuel su D t0 sw = Some (Inr e, w') \<Longrightarrow> stable_evidence (hist w') e"
proof (induction fuel arbitrary: sw)
  case (Suc fuel)
  obtain st w where sw: "sw = (st, w)" by (cases sw)
  from turn_sound [OF laws Suc.prems(1) [unfolded sw], of D t0]
  have ok: "turn_ok hist (convergence_turn su D t0 sw)" by (simp add: sw)
  show ?case using ok Suc.prems(2) Suc.IH
    by (auto simp: turn_ok_def split: prod.splits option.splits sum.splits)
qed simp

text \<open>
  What the wait returns has been stable. The snapshot it returns is the latest one collected;
  it and the two collections before it are converged and have one fingerprint; and at least 250 ms
  lie between the first and the second reading of that fingerprint.
\<close>

lemma waitForConvergence_stable:
  assumes laws: "history_laws su hist" and run: "waitForConvergence fuel su deadlineMs w = Some (Inr e, w')"
  shows "(\<exists>s1 s0 rest. hist w' = ce_snapshot e # s1 # s0 # rest \<and> converged (ce_snapshot e)
        \<and> converged s1 \<and> converged s0
        \<and> canonicalFingerprint s1 = canonicalFingerprint (ce_snapshot e)
        \<and> canonicalFingerprint s0 = canonicalFingerprint (ce_snapshot e))
     \<and> ce_matchingSnapshots e = 2 \<and> 250 \<le> ce_stableIntervalMs e"
proof -
  obtain s0 w1 where start: "su_now su w = (s0, w1)" by (cases "su_now su w")
  have "candidate_ok hist (new_wait, w1)" by (simp add: candidate_ok_def new_wait_def)
  from loop_sound [OF laws this] run have "stable_evidence (hist w') e"
    by (simp add: waitForConvergence_def start)
  then show ?thesis by (auto simp: stable_evidence_def agrees_def)
qed

lemma sample_history_laws: "history_laws sample_surroundings snd"
  by (simp add: history_laws_def sample_surroundings_def split: prod.splits)

lemma sample_wait:
  "\<exists>e. waitForConvergence 3 sample_surroundings 10000 (0, []) = Some (Inr e, (290, replicate 4 sample_audit_snapshot))"
proof -
  have c: "converged sample_audit_snapshot" by (simp add: converged_def sample_audit_snapshot_def js_eq_def)
  show ?thesis
    by (simp add: waitForConvergence_def sample_surroundings_def new_wait_def numeral_3_eq_3 numeral_eq_Suc
        convergence_turn_def remaining_def collectOne_def c judge_candidate_def Let_def sleepForRetry_def
        next_backoff_def confirm_final_def)
qed

end
