(* ===== verification/Audit_Verdict.thy ===== *)
theory Audit_Verdict
  imports Load_Audit
begin

text \<open>
  What a verdict of the audit in load/audit.ts means. A collection from a quiet system mirrors its
  tables and keys; each invariant of the report is then a statement about those; together they say
  that the books are closed. The last section characterises the artifacts of a full profile.
\<close>

section \<open>What a quiet collection shows\<close>

text \<open>Nothing changes during the collection, and a full scan iteration returns every element.\<close>

definition quiet_reads :: "reads \<Rightarrow> pg \<Rightarrow> redis_sale \<Rightarrow> bool" where
  "quiet_reads rd db r \<longleftrightarrow>
     rd_pg rd = (\<lambda>_. db) \<and> rd_redis rd = r \<and> set (concat (rd_buyers rd)) = set (buyers_key r)
     \<and> set (concat (rd_ledger rd)) = set (reservations_key r)"

lemma scanSet_set: "set (scanSet pages) = set (concat pages)" and scanSet_distinct: "distinct (scanSet pages)"
proof -
  have "set (fold (\<lambda>v vs. if v \<in> set vs then vs else vs @ [v]) xs acc) = set acc \<union> set xs
      \<and> (distinct acc \<longrightarrow> distinct (fold (\<lambda>v vs. if v \<in> set vs then vs else vs @ [v]) xs acc))" for xs acc :: "string list"
    by (induction xs arbitrary: acc) auto
  from this [of "concat pages" "[]"] show "set (scanSet pages) = set (concat pages)" "distinct (scanSet pages)"
    by (simp_all add: scanSet_def)
qed

lemma read_pages_complete:
  assumes rows: "rows = sort_key or_id (sale_orders saleId db)"
  shows "length rows < (fuel + k) * PAGE_SIZE \<Longrightarrow> 0 < fuel \<Longrightarrow>
    read_pages fuel saleId (\<lambda>_. db) k = Some (drop (k * PAGE_SIZE) rows)"
proof (induction fuel arbitrary: k)
  case (Suc fuel)
  show ?case
  proof (cases "length rows < (Suc k) * PAGE_SIZE")
    case True
    then have "length rows - k * PAGE_SIZE < PAGE_SIZE" by (simp add: PAGE_SIZE_def)
    then show ?thesis by (simp add: order_page_def rows)
  next
    case False
    then have "0 < fuel" using Suc.prems by (cases fuel) auto
    moreover have "length rows < (fuel + Suc k) * PAGE_SIZE" using Suc.prems(1) by simp
    ultimately have "read_pages fuel saleId (\<lambda>_. db) (Suc k) = Some (drop (Suc k * PAGE_SIZE) rows)"
      by (intro Suc.IH)
    moreover have "take PAGE_SIZE (drop (k * PAGE_SIZE) rows) @ drop (Suc k * PAGE_SIZE) rows = drop (k * PAGE_SIZE) rows"
      by (metis add.commute append_take_drop_id drop_drop mult_Suc)
    moreover have "\<not> length rows - k * PAGE_SIZE < PAGE_SIZE" using False by (simp add: PAGE_SIZE_def)
    ultimately show ?thesis by (simp add: order_page_def rows)
  qed
qed simp

lemma split_last_colon_append:
  assumes "list_all (\<lambda>c. c \<noteq> CHR '':'') b"
  shows "split_last_colon (a @ CHR '':'' # b) = Some (a, b)"
proof -
  have "split_last_colon b = None" using assms by (induction b) auto
  then show ?thesis by (induction a) auto
qed

lemma number_of_digits: "js_to_number (JStr (dec_nat n)) = Fin (int n)"
proof -
  have "\<not> is_js_space c" if "is_digit c" for c
    using that by (auto simp: is_digit_def is_js_space_def)
  then have "list_all (\<lambda>c. \<not> is_js_space c) (dec_nat n)"
    using dec_nat_digits [of n] by (auto simp: list_all_iff)
  then show ?thesis by (simp add: js_to_number_def)
qed

lemma audit_entry_ledger:
  assumes "UUID_PATTERN r" and n: "0 \<le> n" "n < 10 ^ 14"
  shows "audit_entry (ledger_value r (lua_tostring n)) = Inr (r, Fin n)"
  using n uuid_nonempty [OF assms(1)] split_last_colon_append [OF dec_nat_no_colon]
  by (simp add: audit_entry_def ledger_value_def lua_tostring_dec number_of_digits max_safe_integer_def)

text \<open>A scan of entries that all parse, and of which no two differ on one user.\<close>

lemma scan_entries_map:
  assumes "\<forall>(u, raw) \<in> set es. \<exists>x. audit_entry raw = Inr x \<and> F u = Some x"
    and "\<forall>u. map_of acc u = (if u \<in> fst ` set acc then F u else None)" and "distinct (map fst acc)"
  shows "\<exists>m. scan_entries es acc = Inr m \<and> distinct (map fst m)
     \<and> (\<forall>u. map_of m u = (if u \<in> fst ` set es \<union> fst ` set acc then F u else None))"
  using assms
proof (induction es arbitrary: acc)
  case Nil
  then show ?case by simp
next
  case (Cons p es)
  obtain u raw where p: "p = (u, raw)" by (cases p)
  from Cons.prems(1) p obtain x where x: "audit_entry raw = Inr x" "F u = Some x" by auto
  let ?acc = "AList.update u x acc"
  have keys: "fst ` set ?acc = insert u (fst ` set acc)" by (simp add: dom_update)
  have "\<forall>v. map_of ?acc v = (if v \<in> fst ` set ?acc then F v else None)"
    using Cons.prems(2) x(2) by (auto simp: keys update_conv')
  moreover have "distinct (map fst ?acc)" using Cons.prems(3) by (rule distinct_update)
  ultimately obtain m where m: "scan_entries es ?acc = Inr m" "distinct (map fst m)"
    "\<forall>v. map_of m v = (if v \<in> fst ` set es \<union> fst ` set ?acc then F v else None)"
    using Cons.IH [of ?acc] Cons.prems(1) by auto
  then show ?case by (intro exI [of _ m]) (auto simp: p x keys)
qed

lemma duplicate_users_none: "distinct (map or_user_id rows) \<Longrightarrow> duplicate_users rows = Fin 0"
proof -
  have "distinct xs \<Longrightarrow> count_list xs u \<le> 1" for xs :: "string list" and u
    by (induction xs) (auto simp: count_notin)
  moreover assume "distinct (map or_user_id rows)"
  ultimately have "count_list (map or_user_id rows) u \<le> 1" for u by blast
  then show ?thesis by (simp add: duplicate_users_def count_num_def Let_def not_less)
qed

lemma ledger_entry_read:
  assumes "stamped_in starts ends v" and "0 \<le> starts" "ends \<le> 10 ^ 14"
  shows "\<exists>rid n. audit_entry v = Inr (rid, Fin n) \<and> starts \<le> n \<and> n < ends
     \<and> (\<forall>u. parseReservationEntry u v = Inr \<lparr>e_userId = u, e_reservationId = rid, e_reservedAtMs = Some n\<rparr>)"
proof -
  from assms(1) obtain rid n where v: "v = ledger_value rid (lua_tostring n)" "UUID_PATTERN rid"
    and n: "starts \<le> n" "n < ends" by (auto simp: stamped_in_def)
  then have b: "0 \<le> n" "n < 10 ^ 14" using assms(2,3) by auto
  from audit_entry_ledger [OF v(2) b] parse_ledger_value [OF v(2), of "nat n"] b v(1) n lua_tostring_dec [OF b]
  show ?thesis by (intro exI [of _ rid] exI [of _ n]) (simp add: max_safe_integer_def)
qed

lemma ledger_value_read:
  assumes "sale_inv starts ends tot r" "0 \<le> starts" "ends \<le> 10 ^ 14" "HGET (reservations_key r) u = Some v"
  shows "\<exists>rid n. audit_entry v = Inr (rid, Fin n) \<and> starts \<le> n \<and> n < ends
     \<and> (\<forall>u. parseReservationEntry u v = Inr \<lparr>e_userId = u, e_reservationId = rid, e_reservedAtMs = Some n\<rparr>)"
proof -
  from assms(1,4) have "stamped_in starts ends v" by (force simp: sale_inv_def HGET_def dest: map_of_SomeD)
  then show ?thesis using assms(2,3) by (rule ledger_entry_read)
qed

text \<open>A map whose keys with a value are the users of the ledger has one pair for each entry.\<close>

lemma map_over_ledger:
  assumes inv: "sale_inv starts ends tot r" and m: "distinct (map fst m)"
    and same: "\<And>u. map_of m u = None \<longleftrightarrow> HGET (reservations_key r) u = None"
  shows "fst ` set m = ledger_users r \<and> length m = length (reservations_key r)"
proof
  show users: "fst ` set m = ledger_users r"
    using same by (auto simp: set_eq_iff HGET_def ledger_users_def map_of_eq_None_iff)
  have "length m = card (fst ` set m)" using m by (metis distinct_card length_map list.set_map)
  also have "\<dots> = length (reservations_key r)" unfolding users
    using inv by (metis distinct_card length_map ledger_users_def list.set_map sale_inv_def)
  finally show "length m = length (reservations_key r)" .
qed

lemma ledger_scan:
  assumes inv: "sale_inv starts ends tot r" and t: "0 \<le> starts" "ends \<le> 10 ^ 14"
    and es: "set es = set (reservations_key r)"
  shows "\<exists>m. scan_entries es [] = Inr m \<and> distinct (map fst m) \<and> fst ` set m = ledger_users r
     \<and> length m = length (reservations_key r)
     \<and> (\<forall>u v. HGET (reservations_key r) u = Some v \<longrightarrow>
          (\<exists>rid n. map_of m u = Some (rid, Fin n) \<and> starts \<le> n \<and> n < ends
             \<and> parseReservationEntry u v = Inr \<lparr>e_userId = u, e_reservationId = rid, e_reservedAtMs = Some n\<rparr>))"
proof -
  let ?F = "\<lambda>u. case HGET (reservations_key r) u of None \<Rightarrow> None
     | Some v \<Rightarrow> (case audit_entry v of Inl _ \<Rightarrow> None | Inr x \<Rightarrow> Some x)"
  note read = ledger_value_read [OF inv t]
  have get: "HGET (reservations_key r) u = Some v \<longleftrightarrow> (u, v) \<in> set (reservations_key r)" for u v
    using inv by (simp add: HGET_def sale_inv_def)
  have "\<forall>(u, raw) \<in> set es. \<exists>x. audit_entry raw = Inr x \<and> ?F u = Some x"
    using read by (fastforce simp: es get [symmetric])
  from scan_entries_map [OF this, of "[]"] obtain m where m: "scan_entries es [] = Inr m" "distinct (map fst m)"
    "\<forall>u. map_of m u = (if u \<in> fst ` set es then ?F u else None)" by auto
  have look: "\<exists>rid n. map_of m u = Some (rid, Fin n) \<and> starts \<le> n \<and> n < ends
      \<and> parseReservationEntry u v = Inr \<lparr>e_userId = u, e_reservationId = rid, e_reservedAtMs = Some n\<rparr>"
    if uv: "HGET (reservations_key r) u = Some v" for u v
  proof -
    from uv have "u \<in> fst ` set es" unfolding es get by force
    with m(3) uv have "map_of m u = (case audit_entry v of Inl _ \<Rightarrow> None | Inr x \<Rightarrow> Some x)" by simp
    then show ?thesis using read [OF uv] by fastforce
  qed
  have "map_of m u = None \<longleftrightarrow> HGET (reservations_key r) u = None" for u
  proof (cases "HGET (reservations_key r) u")
    case None
    then show ?thesis using m(3) by simp
  qed (use look in fastforce)
  from map_over_ledger [OF inv m(2) this] show ?thesis using m look by blast
qed


text \<open>The rows of the sale are the entries of the ledger, and all are persisted.\<close>

definition closed_against :: "reservation_map \<Rightarrow> order_row list \<Rightarrow> bool" where
  "closed_against m rows \<longleftrightarrow>
     (\<forall>o1 \<in> set rows. or_status o1 = Persisted
        \<and> map_of m (or_user_id o1) = Some (or_id o1, Fin (or_created_at_ms o1)))
     \<and> fst ` set m \<subseteq> or_user_id ` set rows"

definition row_entry :: "order_row \<Rightarrow> reservation_entry" where
  "row_entry o1 = \<lparr>e_userId = or_user_id o1, e_reservationId = or_id o1, e_reservedAtMs = Some (or_created_at_ms o1)\<rparr>"

definition books_closed :: "string \<Rightarrow> redis_sale \<Rightarrow> pg \<Rightarrow> bool" where
  "books_closed saleId r db \<longleftrightarrow>
     (\<forall>o1 \<in> set (sale_orders saleId db). or_status o1 = Persisted
        \<and> (\<exists>v. HGET (reservations_key r) (or_user_id o1) = Some v
              \<and> parseReservationEntry (or_user_id o1) v = Inr (row_entry o1)))
     \<and> ledger_users r \<subseteq> or_user_id ` set (sale_orders saleId db)"

lemma books_closed_alt:
  assumes users: "fst ` set m = ledger_users r"
    and look: "\<forall>u v. HGET (reservations_key r) u = Some v \<longrightarrow>
          (\<exists>rid n. map_of m u = Some (rid, Fin n) \<and> starts \<le> n \<and> n < ends
             \<and> parseReservationEntry u v = Inr \<lparr>e_userId = u, e_reservationId = rid, e_reservedAtMs = Some n\<rparr>)"
  shows "books_closed saleId r db \<longleftrightarrow> closed_against m (sale_orders saleId db)"
proof -
  have "(\<exists>v. HGET (reservations_key r) (or_user_id o1) = Some v
        \<and> parseReservationEntry (or_user_id o1) v = Inr (row_entry o1))
      \<longleftrightarrow> map_of m (or_user_id o1) = Some (or_id o1, Fin (or_created_at_ms o1))" for o1
  proof (cases "HGET (reservations_key r) (or_user_id o1)")
    case None
    then have "or_user_id o1 \<notin> fst ` set m"
      unfolding users by (simp add: HGET_def ledger_users_def map_of_eq_None_iff)
    then show ?thesis using None by (simp add: map_of_eq_None_iff [symmetric])
  next
    case (Some v)
    then show ?thesis using look by (fastforce simp: row_entry_def)
  qed
  then show ?thesis by (simp add: books_closed_def closed_against_def users)
qed

text \<open>Two duplicate-free lists are equal as sets in the sense of the audit exactly when they are.\<close>

lemma equalSet_iff:
  assumes "distinct xs" "distinct ys"
  shows "equalSet xs ys \<longleftrightarrow> set xs = set ys"
proof
  assume "equalSet xs ys"
  then have "length xs = length ys" "set xs \<subseteq> set ys" by (auto simp: equalSet_def list_all_iff)
  then show "set xs = set ys" using assms by (metis card_subset_eq distinct_card List.finite_set)
next
  assume "set xs = set ys"
  then show "equalSet xs ys" using assms by (metis equalSet_def distinct_card list_all_iff)
qed

lemma count_filter_mset:
  assumes "mset rows = mset so"
  shows "length (filter P rows) = length (filter P so)"
  using assms by (metis mset_filter size_mset)

lemma all_persisted_iff:
  assumes "\<forall>o1 \<in> set so. or_status o1 \<noteq> Reserved"
  shows "filter (\<lambda>o1. or_status o1 = Compensated) so = [] \<longleftrightarrow> (\<forall>o1 \<in> set so. or_status o1 = Persisted)"
proof -
  have "or_status o1 = Compensated \<longleftrightarrow> or_status o1 \<noteq> Persisted" if "o1 \<in> set so" for o1
    using assms that by (cases "or_status o1") auto
  then show ?thesis by (auto simp: filter_empty_conv)
qed

lemma persisted_orders_of:
  "persisted_orders (map audit_order_of rows) = map audit_order_of (filter (\<lambda>o1. or_status o1 = Persisted) rows)"
  by (simp add: persisted_orders_def filter_map comp_def audit_order_of_def)

lemma compensated_orders_of:
  "compensated_orders (map audit_order_of rows) = map audit_order_of (filter (\<lambda>o1. or_status o1 = Compensated) rows)"
  by (simp add: compensated_orders_def filter_map comp_def audit_order_of_def)

lemma order_fields:
  "ao_id (audit_order_of o1) = or_id o1" "ao_userId (audit_order_of o1) = or_user_id o1"
  "ao_status (audit_order_of o1) = or_status o1" "ao_createdAtMs (audit_order_of o1) = Fin (or_created_at_ms o1)"
  by (simp_all add: audit_order_of_def)

text \<open>What the collection puts into a snapshot of a quiet, consistent system.\<close>

definition mirrors ::
  "snapshot \<Rightarrow> sale_config \<Rightarrow> int \<Rightarrow> int \<Rightarrow> int \<Rightarrow> reservation_map \<Rightarrow> order_row list \<Rightarrow> bool" where
  "mirrors s cfg starts ends tot m so \<longleftrightarrow>
     (\<exists>rows. sn_orders s = map audit_order_of rows \<and> mset rows = mset so)
     \<and> distinct (map or_user_id so) \<and> (\<forall>o1 \<in> set so. or_status o1 \<noteq> Reserved)
     \<and> sn_reservations s = m \<and> distinct (map fst m)
     \<and> (\<forall>u rid n. (u, rid, n) \<in> set m \<longrightarrow> (\<exists>k. n = Fin k \<and> starts \<le> k \<and> k < ends))
     \<and> distinct (sn_buyers s) \<and> set (sn_buyers s) = fst ` set m
     \<and> (\<exists>stock. ar_stock (sn_redis s) = Fin stock \<and> 0 \<le> stock \<and> stock + int (length m) = tot)
     \<and> ar_reservations (sn_redis s) = Fin (int (length m))
     \<and> ap_persisted (sn_postgres s) = count_num (filter (\<lambda>o1. or_status o1 = Persisted) so)
     \<and> ap_compensated (sn_postgres s) = count_num (filter (\<lambda>o1. or_status o1 = Compensated) so)
     \<and> ap_reserved (sn_postgres s) = Fin 0
     \<and> ap_duplicateUsersGlobal (sn_postgres s) = Fin 0 \<and> ap_duplicateUsersInSale (sn_postgres s) = Fin 0
     \<and> (ap_outsideWindow (sn_postgres s) = Fin 0 \<longleftrightarrow>
          (\<forall>o1 \<in> set so. starts \<le> or_created_at_ms o1 \<and> or_created_at_ms o1 < ends))
     \<and> sn_sale s = cfg \<and> sn_redisSale s = cfg \<and> sn_ledgerErrors s = []
     \<and> cfg_totalStock cfg = Fin tot \<and> cfg_startsAtMs cfg = Fin starts \<and> cfg_endsAtMs cfg = Fin ends"

definition audit_of :: "string \<Rightarrow> stress_scenario \<Rightarrow> string \<Rightarrow> js_num \<Rightarrow> js_num \<Rightarrow> convergence_evidence \<Rightarrow> audit_input" where
  "audit_of runId scenario saleId initialStock expected e =
     \<lparr>ai_runId = runId, ai_scenario = scenario, ai_saleId = saleId, ai_initialStock = initialStock,
      ai_expectedConfirmed = expected, ai_evidence = e\<rparr>"

text \<open>One lemma for each invariant of the report.\<close>

lemma I1_iff:
  assumes mir: "mirrors (ce_snapshot e) cfg starts ends tot m so"
  shows "iv_pass (evaluate_I1 (audit_of runId sc saleId (Fin tot) expected e)) \<longleftrightarrow>
     length (filter (\<lambda>o1. or_status o1 = Persisted) so) = length m
     \<and> expected = Fin (scenario_count sc) \<and> int (length m) = scenario_count sc"
  using mir by (auto simp: evaluate_I1_def audit_of_def mirrors_def Let_def scenarioCountsPass_def js_eq_def count_num_def)

lemma I2_iff:
  assumes mir: "mirrors (ce_snapshot e) cfg starts ends tot m so"
  shows "iv_pass (evaluate_I2 (audit_of runId sc saleId initial expected e)) \<longleftrightarrow>
     fst ` set m = or_user_id ` {o1 \<in> set so. or_status o1 = Persisted}"
proof -
  from mir obtain rows where rows: "sn_orders (ce_snapshot e) = map audit_order_of rows" "mset rows = mset so"
    by (auto simp: mirrors_def)
  have sets: "set rows = set so" using rows(2) by (rule mset_eq_setD)
  have users: "set (map ao_userId (persisted_orders (sn_orders (ce_snapshot e))))
      = or_user_id ` {o1 \<in> set so. or_status o1 = Persisted}"
    unfolding rows(1) persisted_orders_of by (auto simp: order_fields sets)
  from mir have m: "distinct (map fst m)" "distinct (sn_buyers (ce_snapshot e))"
    "set (sn_buyers (ce_snapshot e)) = fst ` set m" "sn_reservations (ce_snapshot e) = m"
    by (auto simp: mirrors_def)
  have "equalSet (sn_buyers (ce_snapshot e)) (map fst m)" using m by (simp add: equalSet_iff)
  moreover have "equalSet (sn_buyers (ce_snapshot e)) (remdups (map ao_userId (persisted_orders (sn_orders (ce_snapshot e)))))
      \<longleftrightarrow> fst ` set m = or_user_id ` {o1 \<in> set so. or_status o1 = Persisted}"
    using m users by (simp add: equalSet_iff del: set_map)
  ultimately show ?thesis using mir m(4)
    by (simp add: evaluate_I2_def audit_of_def mirrors_def Let_def js_eq_def)
qed

lemma I3_iff:
  assumes mir: "mirrors (ce_snapshot e) cfg starts ends tot m so"
  shows "iv_pass (evaluate_I3 (audit_of runId sc saleId initial expected e)) \<longleftrightarrow>
     (\<forall>o1 \<in> set so. starts \<le> or_created_at_ms o1 \<and> or_created_at_ms o1 < ends)"
proof -
  from mir obtain rows where rows: "sn_orders (ce_snapshot e) = map audit_order_of rows" "mset rows = mset so"
    by (auto simp: mirrors_def)
  have sets: "set rows = set so" using rows(2) by (rule mset_eq_setD)
  from mir have ledger: "list_all (\<lambda>(_, _, at). inside cfg at) m"
    by (fastforce simp: mirrors_def list_all_iff inside_def)
  from mir rows have "list_all (\<lambda>o1. inside cfg (ao_createdAtMs o1)) (sn_orders (ce_snapshot e)) \<longleftrightarrow>
     (\<forall>o1 \<in> set so. starts \<le> or_created_at_ms o1 \<and> or_created_at_ms o1 < ends)"
    by (simp add: mirrors_def list_all_iff inside_def order_fields sets [symmetric])
  then show ?thesis using mir ledger
    by (auto simp: evaluate_I3_def audit_of_def mirrors_def Let_def js_eq_def allInsideWindow_def)
qed

lemma I4_iff:
  assumes mir: "mirrors (ce_snapshot e) cfg starts ends tot m so" and id: "cfg_id cfg = saleId"
    and ev: "ce_matchingSnapshots e = 2" "250 \<le> ce_stableIntervalMs e" "ce_finalLiveCollection e"
  shows "iv_pass (evaluate_I4 (audit_of runId sc saleId (Fin tot) expected e)) \<longleftrightarrow>
     converged (ce_snapshot e) \<and> sn_apiSale (ce_snapshot e) = cfg
     \<and> expected = Fin (int (length (filter (\<lambda>o1. or_status o1 = Persisted) so))
          + int (length (filter (\<lambda>o1. or_status o1 = Compensated) so)))
     \<and> (\<forall>o1 \<in> set so. or_status o1 = Persisted \<longrightarrow>
          map_of m (or_user_id o1) = Some (or_id o1, Fin (or_created_at_ms o1)))
     \<and> length m = length (filter (\<lambda>o1. or_status o1 = Persisted) so)
     \<and> (\<forall>o1 \<in> set so. or_status o1 = Compensated \<longrightarrow> or_user_id o1 \<notin> fst ` set m)"
proof -
  let ?s = "ce_snapshot e"
  from mir obtain rows where rows: "sn_orders ?s = map audit_order_of rows" "mset rows = mset so"
    by (auto simp: mirrors_def)
  have sets: "set rows = set so" using rows(2) by (rule mset_eq_setD)
  from mir have m: "sn_reservations ?s = m" "set (sn_buyers ?s) = fst ` set m" by (auto simp: mirrors_def)
  have match: "(case map_of m u of None \<Rightarrow> False | Some (rid, at) \<Rightarrow>
        rid = ao_id (audit_order_of o1) \<and> js_eq at (ao_createdAtMs (audit_order_of o1)))
      \<longleftrightarrow> map_of m u = Some (or_id o1, Fin (or_created_at_ms o1))" for u o1
    by (auto simp: js_eq_def order_fields split: option.splits)
  have ids: "identitiesMatch ?s \<longleftrightarrow> (\<forall>o1 \<in> set so. or_status o1 = Persisted \<longrightarrow>
      map_of m (or_user_id o1) = Some (or_id o1, Fin (or_created_at_ms o1)))"
    unfolding identitiesMatch_def rows(1) persisted_orders_of m(1)
    by (auto simp: list_all_iff order_fields(2) sets match)
  have comp: "compensatedAbsent ?s \<longleftrightarrow> (\<forall>o1 \<in> set so. or_status o1 = Compensated \<longrightarrow> or_user_id o1 \<notin> fst ` set m)"
    unfolding compensatedAbsent_def rows(1) compensated_orders_of m
    by (auto simp: list_all_iff order_fields sets map_of_eq_None_iff)
  have len: "length (persisted_orders (sn_orders ?s)) = length (filter (\<lambda>o1. or_status o1 = Persisted) so)"
    unfolding rows(1) persisted_orders_of by (simp add: count_filter_mset [OF rows(2)])
  have cfg: "configEqual (audit_of runId sc saleId (Fin tot) expected e) ?s \<longleftrightarrow> sn_apiSale ?s = cfg"
    using mir id by (cases "sn_apiSale ?s"; cases cfg) (auto simp: configEqual_def mirrors_def js_eq_def audit_of_def)
  show ?thesis
    using mir ev ids comp len cfg m(1)
    by (auto simp: evaluate_I4_def mirrors_def Let_def js_eq_def converged_def count_num_def audit_of_def)
qed


lemma audit_pass_iff:
  assumes mir: "mirrors (ce_snapshot e) cfg starts ends tot m so" and id: "cfg_id cfg = saleId"
    and ev: "ce_matchingSnapshots e = 2" "250 \<le> ce_stableIntervalMs e" "ce_finalLiveCollection e"
  shows "rp_pass (evaluateAudit at (audit_of runId sc saleId (Fin tot) expected e)) \<longleftrightarrow>
     converged (ce_snapshot e) \<and> sn_apiSale (ce_snapshot e) = cfg \<and> closed_against m so
     \<and> expected = Fin (scenario_count sc) \<and> int (length so) = scenario_count sc"
    (is "?pass \<longleftrightarrow> ?closed")
proof -
  let ?P = "filter (\<lambda>o1. or_status o1 = Persisted) so" and ?C = "filter (\<lambda>o1. or_status o1 = Compensated) so"
  from mir have so: "distinct (map or_user_id so)" "\<forall>o1 \<in> set so. or_status o1 \<noteq> Reserved"
    and m: "distinct (map fst m)"
    and win: "\<forall>u rid n. (u, rid, n) \<in> set m \<longrightarrow> (\<exists>k. n = Fin k \<and> starts \<le> k \<and> k < ends)"
    by (auto simp: mirrors_def)
  note iffs = I1_iff [OF mir] I2_iff [OF mir] I3_iff [OF mir] I4_iff [OF mir id ev]
  have pass: "?pass \<longleftrightarrow> iv_pass (evaluate_I1 (audit_of runId sc saleId (Fin tot) expected e))
      \<and> iv_pass (evaluate_I2 (audit_of runId sc saleId (Fin tot) expected e))
      \<and> iv_pass (evaluate_I3 (audit_of runId sc saleId (Fin tot) expected e))
      \<and> iv_pass (evaluate_I4 (audit_of runId sc saleId (Fin tot) expected e))"
    by (simp add: evaluateAudit_def Let_def)
  show ?thesis
  proof
    assume ?pass
    then have "iv_pass (evaluate_I1 (audit_of runId sc saleId (Fin tot) expected e))"
      "iv_pass (evaluate_I2 (audit_of runId sc saleId (Fin tot) expected e))"
      "iv_pass (evaluate_I4 (audit_of runId sc saleId (Fin tot) expected e))" unfolding pass by simp_all
    then have counts: "length ?P = length m" "expected = Fin (scenario_count sc)" "int (length m) = scenario_count sc"
      and users: "fst ` set m = or_user_id ` {o1 \<in> set so. or_status o1 = Persisted}"
      and c: "converged (ce_snapshot e)" "sn_apiSale (ce_snapshot e) = cfg"
      and sum: "expected = Fin (int (length ?P) + int (length ?C))"
      and ids: "\<forall>o1 \<in> set so. or_status o1 = Persisted \<longrightarrow>
          map_of m (or_user_id o1) = Some (or_id o1, Fin (or_created_at_ms o1))"
      unfolding iffs by blast+
    from counts sum have "?C = []" by simp
    then have all: "\<forall>o1 \<in> set so. or_status o1 = Persisted" using all_persisted_iff [OF so(2)] by simp
    then have "?P = so" by (simp add: filter_id_conv)
    with counts c users ids all show ?closed by (auto simp: closed_against_def)
  next
    assume closed: ?closed
    then have all: "\<forall>o1 \<in> set so. or_status o1 = Persisted"
      and ids: "\<forall>o1 \<in> set so. map_of m (or_user_id o1) = Some (or_id o1, Fin (or_created_at_ms o1))"
      and sub: "fst ` set m \<subseteq> or_user_id ` set so" by (simp_all add: closed_against_def)
    have eq: "?P = so" "?C = []" using all by (auto simp: filter_id_conv filter_empty_conv)
    have "or_user_id ` set so \<subseteq> fst ` set m" using ids by (auto dest: map_of_Some_in)
    with sub have users: "fst ` set m = or_user_id ` set so" by simp
    have len: "length m = length so"
      using m so(1) users by (metis distinct_card length_map list.set_map)
    have "\<forall>o1 \<in> set so. starts \<le> or_created_at_ms o1 \<and> or_created_at_ms o1 < ends"
      using ids win by (fastforce dest: map_of_SomeD)
    then show ?pass unfolding pass iffs using closed eq users len ids all by auto
  qed
qed

text \<open>The endpoints report a ready API and worker, an empty queue and the configuration \<open>cfg\<close>.\<close>

definition answers_ok :: "sale_config \<Rightarrow> reads \<Rightarrow> bool" where
  "answers_ok cfg rd \<longleftrightarrow>
     (let api = readJson (rd_apiReady rd); queue = api_queue (snd api)
      in fst api \<and> js_get (snd api) ''status'' = JStr ''ok'' \<and> worker_ready (readJson (rd_workerReady rd))
         \<and> js_eq (qn_waiting queue) (Fin 0) \<and> js_eq (qn_active queue) (Fin 0)
         \<and> js_eq (qn_delayed queue) (Fin 0) \<and> js_eq (qn_failed queue) (Fin 0)
         \<and> api_config (nullish (snd (readJson (rd_apiSale rd))) (JObj [])) = cfg)"

lemma number_of_dec_int: "0 \<le> n \<Longrightarrow> js_to_number (JStr (dec_int n)) = Fin n"
  by (simp add: dec_int_def number_of_digits)

lemma outside_window_zero:
  assumes "filter (\<lambda>sl. sl_id sl = saleId) (pg_sales db) = [row]"
  shows "outside_window saleId db = Fin 0 \<longleftrightarrow>
     (\<forall>o1 \<in> set (sale_orders saleId db). sl_starts_ms row \<le> or_created_at_ms o1 \<and> or_created_at_ms o1 < sl_ends_ms row)"
proof -
  have "filter (\<lambda>sl. sl_id sl = or_sale_id o1 \<and> Q sl) (pg_sales db) = (if Q row then [row] else [])"
    if "o1 \<in> set (sale_orders saleId db)" for o1 Q
  proof -
    have "filter (\<lambda>sl. sl_id sl = or_sale_id o1 \<and> Q sl) (pg_sales db)
        = filter Q (filter (\<lambda>sl. sl_id sl = saleId) (pg_sales db))"
      using that by (auto simp: sale_orders_def intro!: filter_cong)
    then show ?thesis by (simp add: assms)
  qed
  note sel = this [where Q = "\<lambda>sl. or_created_at_ms o1 < sl_starts_ms sl \<or> sl_ends_ms sl \<le> or_created_at_ms o1" for o1]
  have "outside_window saleId db = count_num (concat (map (\<lambda>o1. if or_created_at_ms o1 < sl_starts_ms row
      \<or> sl_ends_ms row \<le> or_created_at_ms o1 then [row] else []) (sale_orders saleId db)))"
    unfolding outside_window_def by (intro arg_cong [where f = count_num] arg_cong [where f = concat] map_cong refl sel)
  also have "\<dots> = count_num (filter (\<lambda>o1. or_created_at_ms o1 < sl_starts_ms row
      \<or> sl_ends_ms row \<le> or_created_at_ms o1) (sale_orders saleId db))"
  proof -
    have "length (concat (map (\<lambda>x. if B x then [row] else []) xs)) = length (filter B xs)" for B and xs :: "order_row list"
      by (induction xs) auto
    then show ?thesis unfolding count_num_def by presburger
  qed
  finally show ?thesis by (auto simp: count_num_def filter_empty_conv not_less)
qed

lemma read_pages_all:
  assumes "length (pg_orders db) < fuel * PAGE_SIZE"
  shows "read_pages fuel saleId (\<lambda>_. db) 0 = Some (sort_key or_id (sale_orders saleId db))"
proof -
  have "length (sort_key or_id (sale_orders saleId db)) < (fuel + 0) * PAGE_SIZE"
    using assms le_less_trans [OF length_filter_le] by (fastforce simp: sale_orders_def)
  moreover have "0 < fuel" using assms by (cases fuel) auto
  ultimately show ?thesis using read_pages_complete [OF refl] by fastforce
qed

lemma scanned_in_window:
  assumes m: "distinct (map fst m)" "fst ` set m = ledger_users r" and el: "(u, rid, n) \<in> set m"
    and look: "\<And>u v. HGET (reservations_key r) u = Some v \<Longrightarrow> \<exists>rid k. map_of m u = Some (rid, Fin k) \<and> starts \<le> k \<and> k < ends"
  shows "\<exists>k. n = Fin k \<and> starts \<le> k \<and> k < ends"
proof -
  have "u \<in> ledger_users r" using el m(2) by force
  then obtain v where "HGET (reservations_key r) u = Some v"
    by (auto simp: HGET_def ledger_users_def dest: weak_map_of_SomeI)
  from look [OF this] show ?thesis using map_of_is_SomeI [OF m(1) el] by auto
qed

lemma quiet_snapshot:
  assumes inv: "sale_inv starts ends tot r" and t: "0 \<le> starts" "ends \<le> 10 ^ 14"
    and name: "HGET (config_key r) ''name'' = Some name" and pg: "pg_inv db"
    and row: "filter (\<lambda>sl. sl_id sl = saleId) (pg_sales db) = [row]"
      "row = \<lparr>sl_id = saleId, sl_name = name, sl_total_stock = tot, sl_starts_ms = starts, sl_ends_ms = ends\<rparr>"
    and quiet: "quiet_reads rd db r" and fuel: "length (pg_orders db) < fuel * PAGE_SIZE"
  shows "\<exists>s m. collectSnapshot fuel saleId rd = Some (Inr s)
     \<and> mirrors s (row_config row) starts ends tot m (sale_orders saleId db)
     \<and> (converged s \<and> sn_apiSale s = row_config row \<longleftrightarrow> answers_ok (row_config row) rd)
     \<and> (books_closed saleId r db \<longleftrightarrow> closed_against m (sale_orders saleId db))"
proof -
  note f = sale_inv_facts [OF inv]
  have q: "rd_pg rd = (\<lambda>_. db)" "rd_redis rd = r" "set (concat (rd_buyers rd)) = set (buyers_key r)"
    "set (concat (rd_ledger rd)) = set (reservations_key r)" using quiet by (auto simp: quiet_reads_def)
  from ledger_scan [OF inv t q(4)] obtain m where m: "scan_entries (concat (rd_ledger rd)) [] = Inr m"
    "distinct (map fst m)" "fst ` set m = ledger_users r" "length m = length (reservations_key r)"
    and look: "\<forall>u v. HGET (reservations_key r) u = Some v \<longrightarrow>
          (\<exists>rid n. map_of m u = Some (rid, Fin n) \<and> starts \<le> n \<and> n < ends
             \<and> parseReservationEntry u v = Inr \<lparr>e_userId = u, e_reservationId = rid, e_reservedAtMs = Some n\<rparr>)" by blast
  let ?rows = "sort_key or_id (sale_orders saleId db)"
  note pages = read_pages_all [OF fuel, of saleId]
  have win: "\<exists>k. n = Fin k \<and> starts \<le> k \<and> k < ends" if "(u, rid, n) \<in> set m" for u rid n
    by (rule scanned_in_window [OF m(2,3) that]) (use look in blast)
  have distinct: "distinct (map or_user_id (pg_orders db))" "distinct (map or_user_id (sale_orders saleId db))"
    using pg by (auto simp: pg_inv_def sale_orders_def distinct_map_filter)
  have nores: "\<forall>o1 \<in> set (sale_orders saleId db). or_status o1 \<noteq> Reserved"
    using pg by (auto simp: pg_inv_def sale_orders_def)
  then have res0: "filter (\<lambda>o1. or_status o1 = Reserved) (sale_orders saleId db) = []"
    by (simp add: filter_empty_conv)
  have tot: "0 \<le> tot" "0 \<le> ends" using seeded_fields [OF f(1)] t by auto
  have cfg: "redis_config saleId (config_key r) = row_config row"
    using f(1) t tot name by (simp add: redis_config_def row_config_def row(2) hash_number_def seeded_def number_of_dec_int)
  define s where "s = \<lparr>sn_apiReady = fst (readJson (rd_apiReady rd)) \<and> js_get (snd (readJson (rd_apiReady rd))) ''status'' = JStr ''ok''
         \<and> cfg_id (api_config (nullish (snd (readJson (rd_apiSale rd))) (JObj []))) = saleId,
     sn_workerReady = worker_ready (readJson (rd_workerReady rd)), sn_queue = api_queue (snd (readJson (rd_apiReady rd))),
     sn_sale = row_config row, sn_apiSale = api_config (nullish (snd (readJson (rd_apiSale rd))) (JObj [])),
     sn_redisSale = row_config row,
     sn_postgres = \<lparr>ap_totalStock = Fin tot, ap_persisted = status_count Persisted saleId db,
       ap_compensated = status_count Compensated saleId db, ap_reserved = status_count Reserved saleId db,
       ap_duplicateUsersGlobal = Fin 0, ap_duplicateUsersInSale = Fin 0, ap_outsideWindow = outside_window saleId db\<rparr>,
     sn_redis = \<lparr>ar_stock = Fin (stock_of r), ar_buyers = count_num (scanSet (rd_buyers rd)),
       ar_reservations = count_num m, ar_metricsConfirmed = hash_number (metrics_key r) ''confirmed''\<rparr>,
     sn_orders = map audit_order_of ?rows, sn_buyers = scanSet (rd_buyers rd), sn_reservations = m, sn_ledgerErrors = []\<rparr>"
  have "collectSnapshot fuel saleId rd = Some (Inr s)"
    using duplicate_users_none [OF distinct(1)] duplicate_users_none [OF distinct(2)] row(1)
    by (simp add: collectSnapshot_def q(1,2) pages m(1) s_def Let_def cfg row(2))
  moreover have "mirrors s (row_config row) starts ends tot m (sale_orders saleId db)"
    unfolding mirrors_def
    using distinct nores m win f(4,6,7) q(3) outside_window_zero [OF row(1)] scanSet_set scanSet_distinct
    by (auto simp: s_def status_count_def res0 count_num_def HLEN_def row_config_def row(2) intro!: exI [of _ ?rows])
  moreover have "converged s \<and> sn_apiSale s = row_config row \<longleftrightarrow> answers_ok (row_config row) rd"
    by (auto simp: s_def converged_def answers_ok_def Let_def row_config_def row(2))
  ultimately show ?thesis using books_closed_alt [OF m(3) look] by blast
qed

section \<open>The verdict\<close>

text \<open>
  C13: the audit decides what it claims to decide. Take a sale whose Redis keys satisfy the sale's
  invariant, tables that satisfy the schema, one sale row with the same configuration, and a
  collection during which nothing changes. Then the collection succeeds, and with evidence of
  stability the report passes exactly when the endpoints report readiness, an empty queue and that
  configuration, the rows of the sale are all persisted and are the entries of the ledger, user by
  user with identifier and instant, and their number and the expected number are those of the
  scenario. In particular a run with a compensated order never passes.
\<close>

theorem audit_decides:
  assumes inv: "sale_inv starts ends tot r" and t: "0 \<le> starts" "ends \<le> 10 ^ 14"
    and name: "HGET (config_key r) ''name'' = Some name" and pg: "pg_inv db"
    and row: "filter (\<lambda>sl. sl_id sl = saleId) (pg_sales db) = [row]"
      "row = \<lparr>sl_id = saleId, sl_name = name, sl_total_stock = tot, sl_starts_ms = starts, sl_ends_ms = ends\<rparr>"
    and quiet: "quiet_reads rd db r" and fuel: "length (pg_orders db) < fuel * PAGE_SIZE"
  shows "\<exists>s. collectSnapshot fuel saleId rd = Some (Inr s)
     \<and> (\<forall>e at runId sc expected.
          ce_snapshot e = s \<and> ce_matchingSnapshots e = 2 \<and> 250 \<le> ce_stableIntervalMs e \<and> ce_finalLiveCollection e \<longrightarrow>
          (rp_pass (evaluateAudit at (audit_of runId sc saleId (Fin tot) expected e)) \<longleftrightarrow>
             answers_ok (row_config row) rd \<and> books_closed saleId r db
             \<and> expected = Fin (scenario_count sc) \<and> int (length (sale_orders saleId db)) = scenario_count sc))"
proof -
  from quiet_snapshot [OF inv t name pg row quiet fuel] obtain s m where
    c: "collectSnapshot fuel saleId rd = Some (Inr s)"
    and mir: "mirrors s (row_config row) starts ends tot m (sale_orders saleId db)"
    and ok: "converged s \<and> sn_apiSale s = row_config row \<longleftrightarrow> answers_ok (row_config row) rd"
    and closed: "books_closed saleId r db \<longleftrightarrow> closed_against m (sale_orders saleId db)" by blast
  have id: "cfg_id (row_config row) = saleId" by (simp add: row_config_def row(2))
  have "rp_pass (evaluateAudit at (audit_of runId sc saleId (Fin tot) expected e)) \<longleftrightarrow>
             answers_ok (row_config row) rd \<and> books_closed saleId r db
             \<and> expected = Fin (scenario_count sc) \<and> int (length (sale_orders saleId db)) = scenario_count sc"
    if e: "ce_snapshot e = s" "ce_matchingSnapshots e = 2" "250 \<le> ce_stableIntervalMs e" "ce_finalLiveCollection e"
    for e at runId sc expected
    using audit_pass_iff [OF mir [folded e(1)] id e(2-4), of at runId sc expected] ok closed e(1) by blast
  then show ?thesis using c by blast
qed

text \<open>A sold-out run: ten users, ten entries, ten rows.\<close>

definition buyer :: "nat \<Rightarrow> string" where "buyer i = ''user-'' @ [digit_char i]"

definition sold_out_sale :: redis_sale where
  "sold_out_sale = \<lparr>config_key = [(''name'', ''Aurora''), (''startsAtMs'', dec_int 1000), (''endsAtMs'', dec_int 9000),
       (''totalStock'', dec_int 10)],
     stock_key = Some 0, buyers_key = map buyer [0..<10],
     reservations_key = map (\<lambda>i. (buyer i, ledger_value (sample_uuid (digit_char i)) (lua_tostring 2000))) [0..<10],
     metrics_key = []\<rparr>"

definition sold_out_row :: "nat \<Rightarrow> order_row" where
  "sold_out_row i = \<lparr>or_id = sample_uuid (digit_char i), or_user_id = buyer i, or_sale_id = ''flash-2026'',
     or_status = Persisted, or_created_at_ms = 2000, or_persisted_at = Some 3000, or_request_id = ''r''\<rparr>"

definition sold_out_pg :: pg where
  "sold_out_pg = \<lparr>pg_sales = [\<lparr>sl_id = ''flash-2026'', sl_name = ''Aurora'', sl_total_stock = 10, sl_starts_ms = 1000,
       sl_ends_ms = 9000\<rparr>], pg_orders = map sold_out_row [0..<10], pg_fates = []\<rparr>"

definition sold_out_reads :: reads where
  "sold_out_reads = \<lparr>
     rd_apiReady = Some (True, JObj [(''status'', JStr ''ok''), (''checks'', JObj [(''queue'', JObj
       [(''waiting'', JNum (Fin 0)), (''active'', JNum (Fin 0)), (''delayed'', JNum (Fin 0)), (''failed'', JNum (Fin 0))])])]),
     rd_workerReady = Some (True, JObj [(''checks'', JObj [(''bootstrapReconciled'', JBool True),
       (''consumerReady'', JBool True), (''reconciliationHealthy'', JBool True)])]),
     rd_apiSale = Some (True, JObj [(''saleId'', JStr ''flash-2026''), (''name'', JStr ''Aurora''),
       (''startsAtMs'', JNum (Fin 1000)), (''endsAtMs'', JNum (Fin 9000)), (''totalStock'', JNum (Fin 10))]),
     rd_pg = (\<lambda>_. sold_out_pg), rd_redis = sold_out_sale, rd_buyers = [buyers_key sold_out_sale],
     rd_ledger = [reservations_key sold_out_sale]\<rparr>"

lemma digit_char_inj: "i < 10 \<Longrightarrow> j < 10 \<Longrightarrow> digit_char i = digit_char j \<longleftrightarrow> i = j"
  using digit_char_props(2) by metis

lemma sold_out_uuid: "i < 10 \<Longrightarrow> UUID_PATTERN (sample_uuid (digit_char i))"
proof -
  have "list_all (\<lambda>i. UUID_PATTERN (sample_uuid (digit_char i))) [0..<10]" by code_simp
  then show "i < 10 \<Longrightarrow> UUID_PATTERN (sample_uuid (digit_char i))" by (simp add: list_all_iff del: upt.simps upt_rec_numeral)
qed

lemma sold_out_distinct:
  "distinct (map buyer [0..<10])" "distinct (map (\<lambda>i. sample_uuid (digit_char i)) [0..<10])"
  by (auto simp: distinct_map inj_on_def buyer_def sample_uuid_def digit_char_inj)


lemma sold_out_inv: "sale_inv 1000 9000 10 sold_out_sale"
proof -
  have keys: "map fst (reservations_key sold_out_sale) = map buyer [0..<10]" by (simp add: sold_out_sale_def comp_def del: upt.simps upt_rec_numeral)
  have "stamped_in 1000 9000 v" if "v \<in> snd ` set (reservations_key sold_out_sale)" for v
    using that sold_out_uuid
    by (force simp: sold_out_sale_def stamped_in_def simp del: upt.simps upt_rec_numeral)
  then show ?thesis
    using sold_out_distinct(1) keys [THEN arg_cong, of set]
    by (simp add: sale_inv_def keys ledger_users_def del: upt.simps upt_rec_numeral)
      (simp add: sold_out_sale_def seeded_def HGET_def stock_of_def HLEN_def image_image)
qed

lemma sold_out_pg_inv: "pg_inv sold_out_pg"
proof -
  have "length (buyer i) = 6" for i by (simp add: buyer_def)
  then show ?thesis using sold_out_distinct
    by (simp add: pg_inv_def sold_out_pg_def comp_def sold_out_row_def orders_checks_def del: upt.simps upt_rec_numeral)
qed

lemma sold_out_orders: "sale_orders ''flash-2026'' sold_out_pg = map sold_out_row [0..<10]"
  by (simp add: sale_orders_def sold_out_pg_def filter_map comp_def sold_out_row_def del: upt.simps upt_rec_numeral)

lemma sold_out_closed: "books_closed ''flash-2026'' sold_out_sale sold_out_pg"
proof -
  have get: "HGET (reservations_key sold_out_sale) (buyer i)
      = Some (ledger_value (sample_uuid (digit_char i)) (lua_tostring 2000))" if "i < 10" for i
  proof -
    have "distinct (map fst (reservations_key sold_out_sale))" using sale_inv_facts(2) [OF sold_out_inv] .
    then show ?thesis using that by (force simp: HGET_def sold_out_sale_def simp del: upt.simps upt_rec_numeral intro!: map_of_is_SomeI)
  qed
  have parse: "parseReservationEntry u (ledger_value (sample_uuid (digit_char i)) (lua_tostring 2000))
      = Inr \<lparr>e_userId = u, e_reservationId = sample_uuid (digit_char i), e_reservedAtMs = Some 2000\<rparr>" if "i < 10" for u i
    using parse_ledger_value [OF sold_out_uuid [OF that], of 2000 u] by (simp add: lua_tostring_dec max_safe_integer_def)
  have "or_user_id ` set (map sold_out_row [0..<10]) = ledger_users sold_out_sale"
    by (force simp: ledger_users_def sold_out_sale_def sold_out_row_def simp del: upt.simps upt_rec_numeral)
  then show ?thesis unfolding books_closed_def sold_out_orders
    using get parse by (simp add: sold_out_row_def row_entry_def del: upt.simps upt_rec_numeral)
qed

lemma sold_out_answers: "answers_ok (row_config (hd (pg_sales sold_out_pg))) sold_out_reads"
  by (simp add: answers_ok_def sold_out_reads_def sold_out_pg_def readJson_def api_queue_def num_field_def nullish_def
      js_to_number_def js_eq_def worker_ready_def api_config_def row_config_def text_field_def Let_def)

theorem audit_decides_witness:
  "\<exists>s. collectSnapshot 1 ''flash-2026'' sold_out_reads = Some (Inr s)
     \<and> rp_pass (evaluateAudit ''2026-07-22T12:30:00.000Z'' (audit_of ''run-0001'' Sc_sold_out ''flash-2026'' (Fin 10) (Fin 10)
          \<lparr>ce_snapshot = s, ce_elapsedMs = 500, ce_matchingSnapshots = 2, ce_stableIntervalMs = 300,
           ce_finalLiveCollection = True, ce_successfulCollections = 3, ce_collectionFailures = 0\<rparr>))"
proof -
  let ?row = "hd (pg_sales sold_out_pg)"
  have row: "filter (\<lambda>sl. sl_id sl = ''flash-2026'') (pg_sales sold_out_pg) = [?row]"
    "?row = \<lparr>sl_id = ''flash-2026'', sl_name = ''Aurora'', sl_total_stock = 10, sl_starts_ms = 1000, sl_ends_ms = 9000\<rparr>"
    by (simp_all add: sold_out_pg_def)
  have name: "HGET (config_key sold_out_sale) ''name'' = Some ''Aurora''" by (simp add: sold_out_sale_def HGET_def)
  have quiet: "quiet_reads sold_out_reads sold_out_pg sold_out_sale" by (simp add: quiet_reads_def sold_out_reads_def)
  have fuel: "length (pg_orders sold_out_pg) < 1 * PAGE_SIZE" by (simp add: sold_out_pg_def PAGE_SIZE_def)
  have len: "int (length (sale_orders ''flash-2026'' sold_out_pg)) = scenario_count Sc_sold_out"
    unfolding sold_out_orders by simp
  from audit_decides [OF sold_out_inv _ _ name sold_out_pg_inv row quiet fuel] obtain s where
    s: "collectSnapshot 1 ''flash-2026'' sold_out_reads = Some (Inr s)"
    and pass: "\<forall>e at runId sc expected.
          ce_snapshot e = s \<and> ce_matchingSnapshots e = 2 \<and> 250 \<le> ce_stableIntervalMs e \<and> ce_finalLiveCollection e \<longrightarrow>
          (rp_pass (evaluateAudit at (audit_of runId sc ''flash-2026'' (Fin 10) expected e)) \<longleftrightarrow>
             answers_ok (row_config ?row) sold_out_reads \<and> books_closed ''flash-2026'' sold_out_sale sold_out_pg
             \<and> expected = Fin (scenario_count sc) \<and> int (length (sale_orders ''flash-2026'' sold_out_pg)) = scenario_count sc)"
    by auto
  show ?thesis
    using s pass [THEN spec, THEN spec, THEN spec, THEN spec [of _ Sc_sold_out], THEN spec [of _ "Fin 10"]] sold_out_answers sold_out_closed len
    by (intro exI [of _ s]) simp
qed

section \<open>The artifacts of a full profile\<close>

definition artifact_key :: "result_artifact \<Rightarrow> stress_scenario \<times> int" where
  "artifact_key a = (ra_scenario a, ra_repetition a)"

lemma mset_eq_of_subset:
  assumes "distinct ys" "set ys \<subseteq> set xs" "length xs = length ys"
  shows "mset xs = mset ys"
proof -
  have "card (set ys) = length xs" using assms(1,3) by (simp add: distinct_card)
  then have "set ys = set xs" using assms(2) card_length [of xs] by (metis List.finite_set card_seteq)
  moreover from this have "distinct xs" using \<open>card (set ys) = length xs\<close> by (simp add: card_distinct)
  ultimately show ?thesis using assms(1) set_eq_iff_mset_eq_distinct by blast
qed

lemma not_measured: "sc \<in> set MEASURED_STRESS_SCENARIOS \<longleftrightarrow> sc \<noteq> Sc_warmup"
  by (cases sc) (simp_all add: MEASURED_STRESS_SCENARIOS_def)

definition required_keys :: "(stress_scenario \<times> int) list" where
  "required_keys = List.product required_scenarios [1, 2, 3]"

lemma required_keys_facts: "distinct required_keys" "length required_keys = 12" "Sc_warmup \<notin> fst ` set required_keys"
  by (simp_all add: required_keys_def required_scenarios_def)

lemma split_warmups:
  "mset (map artifact_key arts) = mset (map artifact_key (filter (\<lambda>a. ra_scenario a = Sc_warmup) arts))
     + mset (map artifact_key (filter (\<lambda>a. ra_scenario a \<noteq> Sc_warmup) arts))"
  by (induction arts) simp_all

lemma warmup_iff:
  fixes arts defines "w \<equiv> filter (\<lambda>a. ra_scenario a = Sc_warmup) arts"
  shows "length w = 1 \<and> ra_repetition (w ! 0) = 1 \<and> ra_pass (w ! 0) \<longleftrightarrow>
      mset (map artifact_key w) = {#(Sc_warmup, 1)#} \<and> (\<forall>a \<in> set arts. ra_scenario a = Sc_warmup \<longrightarrow> ra_pass a)"
proof -
  have mem: "(\<forall>a \<in> set arts. ra_scenario a = Sc_warmup \<longrightarrow> ra_pass a) \<longleftrightarrow> (\<forall>a \<in> set w. ra_pass a)"
    by (auto simp: w_def)
  have sc: "\<forall>a \<in> set w. ra_scenario a = Sc_warmup" by (simp add: w_def)
  show ?thesis
  proof (cases "length w = 1")
    case True
    then obtain a where "w = [a]" by (auto simp: length_Suc_conv)
    with sc show ?thesis unfolding mem by (auto simp: artifact_key_def)
  next
    case False
    then show ?thesis by (metis length_map size_mset size_single)
  qed
qed

lemma measured_iff:
  "length ms = 12 \<and> set required_keys \<subseteq> set (map artifact_key ms) \<longleftrightarrow> mset (map artifact_key ms) = mset required_keys"
proof
  assume "length ms = 12 \<and> set required_keys \<subseteq> set (map artifact_key ms)"
  then show "mset (map artifact_key ms) = mset required_keys"
    using required_keys_facts by (intro mset_eq_of_subset) simp_all
next
  assume eq: "mset (map artifact_key ms) = mset required_keys"
  show "length ms = 12 \<and> set required_keys \<subseteq> set (map artifact_key ms)"
    using mset_eq_length [OF eq] mset_eq_setD [OF eq] required_keys_facts(2) by simp
qed

lemma profile_keys_iff:
  "mset (map artifact_key arts) = mset ((Sc_warmup, 1) # required_keys) \<longleftrightarrow>
      mset (map artifact_key (filter (\<lambda>a. ra_scenario a = Sc_warmup) arts)) = {#(Sc_warmup, 1)#}
      \<and> mset (map artifact_key (filter (\<lambda>a. ra_scenario a \<noteq> Sc_warmup) arts)) = mset required_keys"
proof
  assume eq: "mset (map artifact_key arts) = mset ((Sc_warmup, 1) # required_keys)"
  have part: "mset (map artifact_key (filter (\<lambda>a. P (ra_scenario a)) arts)) = mset (filter (\<lambda>k. P (fst k)) ((Sc_warmup, 1) # required_keys))" for P
  proof -
    have "mset (map artifact_key (filter (\<lambda>a. P (ra_scenario a)) arts)) = filter_mset (\<lambda>k. P (fst k)) (mset (map artifact_key arts))"
      by (induction arts) (simp_all add: artifact_key_def)
    also have "\<dots> = mset (filter (\<lambda>k. P (fst k)) ((Sc_warmup, 1) # required_keys))" unfolding eq by (simp only: mset_filter)
    finally show ?thesis .
  qed
  have none: "filter (\<lambda>k. fst k = Sc_warmup) required_keys = []" "filter (\<lambda>k. fst k \<noteq> Sc_warmup) required_keys = required_keys"
    using required_keys_facts(3) by (force simp: filter_empty_conv filter_id_conv)+
  show "mset (map artifact_key (filter (\<lambda>a. ra_scenario a = Sc_warmup) arts)) = {#(Sc_warmup, 1)#}
      \<and> mset (map artifact_key (filter (\<lambda>a. ra_scenario a \<noteq> Sc_warmup) arts)) = mset required_keys"
    using part [of "\<lambda>s. s = Sc_warmup"] part [of "\<lambda>s. s \<noteq> Sc_warmup"] none by simp
next
  assume "mset (map artifact_key (filter (\<lambda>a. ra_scenario a = Sc_warmup) arts)) = {#(Sc_warmup, 1)#}
      \<and> mset (map artifact_key (filter (\<lambda>a. ra_scenario a \<noteq> Sc_warmup) arts)) = mset required_keys"
  then show "mset (map artifact_key arts) = mset ((Sc_warmup, 1) # required_keys)"
    unfolding split_warmups [of arts] by simp
qed

text \<open>
  A full profile is accepted exactly when it is complete. The validation of its artifacts
  succeeds exactly when there is one warm-up with repetition 1, which passed, and one artifact for
  each of the four required scenarios in each of three repetitions, and nothing else; it returns
  those twelve, whether they passed or not, and their paths are listed in order, each as often as
  an artifact names it.
\<close>

lemma full_profile_exact:
  "(validateResultArtifacts Full_profile arts = Inr measured \<longleftrightarrow>
      mset (map artifact_key arts) = mset ((Sc_warmup, 1) # required_keys)
      \<and> (\<forall>a \<in> set arts. ra_scenario a = Sc_warmup \<longrightarrow> ra_pass a)
      \<and> measured = filter (\<lambda>a. ra_scenario a \<noteq> Sc_warmup) arts)
   \<and> sorted (integrityInputPaths measured)
   \<and> mset (integrityInputPaths measured) =
       mset (map ra_summaryPath measured) + mset (map ra_auditPath measured) + mset (map ra_runtimePath measured)"
proof (intro conjI)
  let ?w = "filter (\<lambda>a. ra_scenario a = Sc_warmup) arts" and ?m = "filter (\<lambda>a. ra_scenario a \<noteq> Sc_warmup) arts"
  show "sorted (integrityInputPaths measured)" by (simp add: integrityInputPaths_def)
  show "mset (integrityInputPaths measured) =
       mset (map ra_summaryPath measured) + mset (map ra_auditPath measured) + mset (map ra_runtimePath measured)"
    unfolding integrityInputPaths_def mset_sort by (induction measured) simp_all
  have exes: "list_ex (\<lambda>sc. list_ex (\<lambda>rep. \<not> list_ex (\<lambda>a. ra_scenario a = sc \<and> ra_repetition a = rep) ?m) [1, 2, 3])
      required_scenarios \<longleftrightarrow> \<not> set required_keys \<subseteq> set (map artifact_key ?m)"
    by (auto simp: list_ex_iff required_keys_def required_scenarios_def artifact_key_def image_iff)
  have valid: "validateResultArtifacts Full_profile arts = Inr measured \<longleftrightarrow>
      length ?w = 1 \<and> ra_repetition (?w ! 0) = 1 \<and> ra_pass (?w ! 0) \<and> length ?m = 12
      \<and> set required_keys \<subseteq> set (map artifact_key ?m) \<and> measured = ?m"
    unfolding validateResultArtifacts_def not_measured Let_def exes by auto
  show "validateResultArtifacts Full_profile arts = Inr measured \<longleftrightarrow>
      mset (map artifact_key arts) = mset ((Sc_warmup, 1) # required_keys)
      \<and> (\<forall>a \<in> set arts. ra_scenario a = Sc_warmup \<longrightarrow> ra_pass a)
      \<and> measured = filter (\<lambda>a. ra_scenario a \<noteq> Sc_warmup) arts"
    using valid warmup_iff [of arts] measured_iff [of ?m] profile_keys_iff [of arts] by argo
qed

definition sample_artifact :: "stress_scenario \<times> int \<Rightarrow> result_artifact" where
  "sample_artifact k = \<lparr>ra_scenario = fst k, ra_repetition = snd k, ra_pass = True,
     ra_summaryPath = ''s'', ra_auditPath = ''a'', ra_runtimePath = ''r''\<rparr>"

end
