(* ===== verification/Api_Producer.thy ===== *)
theory Api_Producer
  imports Orders_Queue
begin

text \<open>
  The producer side of the orders queue: apps/api/src/queue/orders-queue.service.ts. Calls to
  \<open>enqueue\<close> overlap, so each is cut at its \<open>await\<close>s into atomic sections: entering, the loss of a
  race that retires the generation, and leaving. The outcome of each race against the deadline is
  an argument. A generation is the pair of a connection and a queue object, named by a number.
\<close>

section \<open>State\<close>

definition MAX_PRODUCER_IN_FLIGHT :: nat where "MAX_PRODUCER_IN_FLIGHT = 64"

definition PRODUCER_REOPEN_BACKOFF_MS :: int where "PRODUCER_REOPEN_BACKOFF_MS = 1000"

record generation =
  g_id :: nat
  g_inFlight :: nat
  g_retiring :: bool

record producer =
  pd_generation :: "generation option"
  pd_reopenAtMs :: int
  pd_closing :: bool
  pd_next :: nat

definition new_producer :: producer where
  "new_producer = \<lparr>pd_generation = None, pd_reopenAtMs = 0, pd_closing = False, pd_next = 0\<rparr>"

definition activeGenerationCount :: "producer \<Rightarrow> nat" where
  "activeGenerationCount p = (if pd_generation p = None then 0 else 1)"

definition inFlightCount :: "producer \<Rightarrow> nat" where
  "inFlightCount p = (case pd_generation p of None \<Rightarrow> 0 | Some g \<Rightarrow> g_inFlight g)"

section \<open>Atomic sections\<close>

definition createGeneration :: "nat \<Rightarrow> unit result \<Rightarrow> generation result" where
  "createGeneration gid creation =
     bind_result creation (\<lambda>_. Inr \<lparr>g_id = gid, g_inFlight = 0, g_retiring = False\<rparr>)"

text \<open>
  \<open>enqueue\<close> up to its first \<open>await\<close>: the refusals, the generation in use or a new one, the counter.
  \<open>creation\<close> is the outcome of constructing the queue object, when one is constructed.
\<close>

definition enter_enqueue :: "int \<Rightarrow> unit result \<Rightarrow> (producer, nat) io" where
  "enter_enqueue now creation p =
     (if pd_closing p then (Inl (GenericError ''orders queue producer is closing''), p)
      else if now < pd_reopenAtMs p then (Inl (GenericError ''orders queue producer is in backoff''), p)
      else
        (let found = (case pd_generation p of Some g \<Rightarrow> Inr (g, p)
           | None \<Rightarrow> bind_result (createGeneration (pd_next p) creation) (\<lambda>g.
               Inr (g, p\<lparr>pd_generation := Some g, pd_next := Suc (pd_next p)\<rparr>)))
         in case found of
              Inl e \<Rightarrow> (Inl e, p)
            | Inr (g, p1) \<Rightarrow>
                if g_retiring g then (Inl (GenericError ''orders queue producer circuit is open''), p1)
                else if MAX_PRODUCER_IN_FLIGHT \<le> g_inFlight g
                then (Inl (GenericError ''orders queue producer is at its in-flight limit''), p1)
                else (Inr (g_id g), p1\<lparr>pd_generation := Some (g\<lparr>g_inFlight := Suc (g_inFlight g)\<rparr>)\<rparr>)))"

text \<open>An update of the generation \<open>gid\<close>; one that the service no longer holds has no observer.\<close>

definition on_generation :: "nat \<Rightarrow> (generation \<Rightarrow> generation) \<Rightarrow> producer \<Rightarrow> producer" where
  "on_generation gid f p =
     (case pd_generation p of
        Some g \<Rightarrow> if g_id g = gid then p\<lparr>pd_generation := Some (f g)\<rparr> else p
      | None \<Rightarrow> p)"

definition retireGeneration :: "nat \<Rightarrow> producer \<Rightarrow> producer" where
  "retireGeneration gid = on_generation gid (\<lambda>g. g\<lparr>g_retiring := True\<rparr>)"

text \<open>The \<open>finally\<close> of \<open>enqueue\<close>; subtraction on naturals is the source's \<open>Math.max 0\<close>.\<close>

definition leave_enqueue :: "nat \<Rightarrow> producer \<Rightarrow> producer" where
  "leave_enqueue gid = on_generation gid (\<lambda>g. g\<lparr>g_inFlight := g_inFlight g - 1\<rparr>)"

text \<open>The \<open>finally\<close> of \<open>finishRetirement\<close>, at the instant \<open>now\<close>.\<close>

definition finishRetirement :: "int \<Rightarrow> nat \<Rightarrow> producer \<Rightarrow> producer" where
  "finishRetirement now gid p =
     (case pd_generation p of
        Some g \<Rightarrow> if g_id g = gid
          then p\<lparr>pd_generation := None, pd_reopenAtMs := now + PRODUCER_REOPEN_BACKOFF_MS\<rparr> else p
      | None \<Rightarrow> p)"

definition closeService :: "producer \<Rightarrow> producer" where
  "closeService p =
     (let p1 = p\<lparr>pd_closing := True\<rparr>
      in case pd_generation p1 of None \<Rightarrow> p1 | Some g \<Rightarrow> retireGeneration (g_id g) p1)"

section \<open>One call\<close>

datatype readiness_fate = Ready | Not_ready js_error | Ready_deadline

text \<open>The second race: the add settles first, or the deadline wins and the add lands late or never.\<close>

datatype add_fate = Add_settles | Add_deadline bool

record enqueue_fate =
  ef_entered :: int
  ef_creation :: "unit result"
  ef_ready :: readiness_fate
  ef_add :: add_fate

definition enqueue_timed_out :: js_error where
  "enqueue_timed_out = GenericError ''orders queue enqueue timed out''"

definition add_order :: "'q bullmq \<Rightarrow> orders_payload \<Rightarrow> ('q, job) io" where
  "add_order ops payload =
     io_bind (io_lift (assertOrdersQueueJobPayload (payload_value payload))) (\<lambda>p.
     io_bind (io_lift (buildOrdersJobId (p_saleId p) (p_userId p))) (\<lambda>jobId.
       q_add ops PERSIST_ORDER_JOB_NAME (payload_value p) jobId ORDERS_JOB_ATTEMPTS))"

definition raced_add :: "'q bullmq \<Rightarrow> add_fate \<Rightarrow> orders_payload \<Rightarrow> ('q, job) io" where
  "raced_add ops fate payload q =
     (case fate of
        Add_settles \<Rightarrow> add_order ops payload q
      | Add_deadline landed \<Rightarrow> (Inl enqueue_timed_out, if landed then snd (add_order ops payload q) else q))"

definition enqueue :: "'q bullmq \<Rightarrow> enqueue_fate \<Rightarrow> orders_payload \<Rightarrow> (producer \<times> 'q, job) io" where
  "enqueue ops fate payload pq =
     (case enter_enqueue (ef_entered fate) (ef_creation fate) (fst pq) of
        (Inl e, p) \<Rightarrow> (Inl e, (p, snd pq))
      | (Inr gid, p) \<Rightarrow>
          (case (case ef_ready fate of
                   Ready \<Rightarrow> raced_add ops (ef_add fate) payload (snd pq)
                 | Not_ready e \<Rightarrow> (Inl e, snd pq)
                 | Ready_deadline \<Rightarrow> (Inl enqueue_timed_out, snd pq)) of
             (Inl e, q) \<Rightarrow> (Inl e, (leave_enqueue gid (retireGeneration gid p), q))
           | (Inr job, q) \<Rightarrow> (Inr job, (leave_enqueue gid p, q))))"

section \<open>Interleaved calls\<close>

text \<open>
  All interleavings of the atomic sections. The calls in flight are the list of the generations
  they entered.
\<close>

inductive producer_step :: "producer \<times> nat list \<Rightarrow> producer \<times> nat list \<Rightarrow> bool" where
  entering: "enter_enqueue now creation p = (Inr gid, p') \<Longrightarrow> producer_step (p, calls) (p', gid # calls)"
| refused: "enter_enqueue now creation p = (Inl e, p') \<Longrightarrow> producer_step (p, calls) (p', calls)"
| leaving: "gid \<in> set calls \<Longrightarrow> producer_step (p, calls) (leave_enqueue gid p, remove1 gid calls)"
| failing: "gid \<in> set calls \<Longrightarrow>
    producer_step (p, calls) (leave_enqueue gid (retireGeneration gid p), remove1 gid calls)"
| retired: "pd_generation p = Some g \<Longrightarrow> g_retiring g \<Longrightarrow>
    producer_step (p, calls) (finishRetirement now (g_id g) p, calls)"
| closing: "producer_step (p, calls) (closeService p, calls)"

inductive_cases producer_stepE: "producer_step (p, calls) (p', calls')"

definition producer_inv :: "producer \<times> nat list \<Rightarrow> bool" where
  "producer_inv s \<longleftrightarrow>
     (case pd_generation (fst s) of
        None \<Rightarrow> True
      | Some g \<Rightarrow> g_id g < pd_next (fst s) \<and> g_inFlight g = count_list (snd s) (g_id g)
          \<and> g_inFlight g \<le> MAX_PRODUCER_IN_FLIGHT)
     \<and> (\<forall>gid \<in> set (snd s). gid < pd_next (fst s))"

lemmas producer_defs = enter_enqueue_def createGeneration_def on_generation_def retireGeneration_def
  leave_enqueue_def finishRetirement_def closeService_def

lemma enter_enqueue_cases:
  assumes "enter_enqueue now creation p = (r, p')"
  obtains (refused) e where "r = Inl e" "p' = p"
  | (entered) g where "r = Inr (g_id g)" "pd_generation p = Some g" "\<not> g_retiring g"
      "g_inFlight g < MAX_PRODUCER_IN_FLIGHT" "\<not> pd_closing p" "pd_reopenAtMs p \<le> now"
      "p' = p\<lparr>pd_generation := Some (g\<lparr>g_inFlight := Suc (g_inFlight g)\<rparr>)\<rparr>"
  | (entered_new) "r = Inr (pd_next p)" "pd_generation p = None" "\<not> pd_closing p" "pd_reopenAtMs p \<le> now"
      "p' = p\<lparr>pd_next := Suc (pd_next p),
             pd_generation := Some \<lparr>g_id = pd_next p, g_inFlight = 1, g_retiring = False\<rparr>\<rparr>"
proof (cases "pd_closing p \<or> now < pd_reopenAtMs p")
  case True
  then have "\<exists>e. r = Inl e \<and> p' = p" using assms by (auto simp: enter_enqueue_def split: if_splits)
  then show thesis using refused by blast
next
  case False
  show thesis
  proof (cases "pd_generation p")
    case None
    show thesis
    proof (cases creation)
      case (Inl e)
      then have "r = Inl e \<and> p' = p" using False None assms by (simp add: enter_enqueue_def createGeneration_def)
      then show thesis using refused by blast
    next
      case (Inr u)
      then have "r = Inr (pd_next p)"
        "p' = p\<lparr>pd_next := Suc (pd_next p),
             pd_generation := Some \<lparr>g_id = pd_next p, g_inFlight = 1, g_retiring = False\<rparr>\<rparr>"
        using False None assms by (simp_all add: enter_enqueue_def createGeneration_def MAX_PRODUCER_IN_FLIGHT_def)
      from entered_new [OF this(1) None _ _ this(2)] show thesis using False by simp
    qed
  next
    case (Some g)
    show thesis
    proof (cases "g_retiring g \<or> MAX_PRODUCER_IN_FLIGHT \<le> g_inFlight g")
      case True
      then have "\<exists>e. r = Inl e \<and> p' = p" using assms False Some by (auto simp: enter_enqueue_def split: if_splits)
      then show thesis using refused by blast
    next
      case go: False
      then have "r = Inr (g_id g)" "p' = p\<lparr>pd_generation := Some (g\<lparr>g_inFlight := Suc (g_inFlight g)\<rparr>)\<rparr>"
        using assms False Some by (simp_all add: enter_enqueue_def)
      from entered [OF this(1) Some _ _ _ _ this(2)] show thesis using False go by simp
    qed
  qed
qed

lemma on_generation_inv:
  assumes "producer_inv (p, calls)" and "\<And>g. g_id (f g) = g_id g" and "\<And>g. g_inFlight (f g) = g_inFlight g"
  shows "producer_inv (on_generation gid f p, calls)"
  using assms by (auto simp: producer_inv_def on_generation_def split: option.splits)

lemma leave_enqueue_inv:
  assumes "producer_inv (p, calls)" and "gid \<in> set calls"
  shows "producer_inv (leave_enqueue gid p, remove1 gid calls)"
proof -
  have "count_list (remove1 gid calls) i = (if i = gid then count_list calls i - 1 else count_list calls i)" for i
    by (induction calls) auto
  moreover have "set (remove1 gid calls) \<subseteq> set calls" by (rule set_remove1_subset)
  ultimately show ?thesis using assms
    by (auto simp: producer_inv_def leave_enqueue_def on_generation_def split: option.splits)
qed

lemma producer_step_inv:
  assumes "producer_step s s'" and "producer_inv s"
  shows "producer_inv s'"
  using assms
proof (induction rule: producer_step.induct)
  case (entering now creation p gid p' calls)
  from entering(1) show ?case
  proof (cases rule: enter_enqueue_cases)
    case (entered g)
    with entering(2) show ?thesis by (auto simp: producer_inv_def)
  next
    case entered_new
    moreover have "count_list calls (pd_next p) = 0"
      using entering(2) by (auto simp: producer_inv_def count_list_0_iff)
    ultimately show ?thesis using entering(2) by (auto simp: producer_inv_def MAX_PRODUCER_IN_FLIGHT_def less_Suc_eq)
  qed simp
next
  case (refused now creation p e p' calls)
  from refused(1) show ?case by (cases rule: enter_enqueue_cases) (use refused(2) in simp_all)
next
  case (leaving gid calls p)
  then show ?case by (intro leave_enqueue_inv)
next
  case (failing gid calls p)
  then show ?case
    by (intro leave_enqueue_inv) (simp_all add: retireGeneration_def on_generation_inv)
next
  case (retired p g calls now)
  then show ?case by (auto simp: producer_inv_def finishRetirement_def split: option.splits)
next
  case (closing p calls)
  have "producer_inv (p\<lparr>pd_closing := True\<rparr>, calls)" using closing
    by (auto simp: producer_inv_def split: option.splits)
  then show ?case
    by (auto simp: closeService_def Let_def retireGeneration_def on_generation_inv split: option.split)
qed



section \<open>What a call does\<close>

lemma leave_enqueue_generation:
  "pd_generation p = Some g \<Longrightarrow> g_id g = gid \<Longrightarrow>
   leave_enqueue gid (retireGeneration gid p) =
     p\<lparr>pd_generation := Some (g\<lparr>g_inFlight := g_inFlight g - 1, g_retiring := True\<rparr>)\<rparr>"
  by (simp add: producer_defs)

lemma enqueue_refused:
  assumes "enter_enqueue (ef_entered fate) (ef_creation fate) p = (Inl e, p')"
  shows "enqueue ops fate payload (p, q) = (Inl e, (p, q))"
proof -
  have "p' = p" using assms by (auto elim!: enter_enqueue_cases)
  with assms show ?thesis by (simp add: enqueue_def)
qed

lemma enqueue_entered:
  assumes "enter_enqueue (ef_entered fate) (ef_creation fate) p = (Inr gid, p')"
  shows "\<exists>g. pd_generation p' = Some g \<and> g_id g = gid \<and> 0 < g_inFlight g \<and> \<not> g_retiring g \<and> \<not> pd_closing p'"
  using assms by (auto elim!: enter_enqueue_cases)

text \<open>
  An acknowledged order will be processed. When \<open>enqueue\<close> returns on a slot that was free, the
  queue holds under the identifier of this sale and user a waiting job that the worker's
  classification accepts and that carries exactly the payload; the circuit stays closed.
\<close>

lemma enqueue_delivers:
  assumes laws: "queue_laws ops contents" and valid: "valid_payload payload"
    and id: "buildOrdersJobId (p_saleId payload) (p_userId payload) = Inr i" and free: "contents q i = None"
    and run: "enqueue ops fate payload (p, q) = (Inr job, (p', q'))"
  shows "contents q' = (contents q)(i \<mapsto> (job, Job_waiting)) \<and> classifyQueueEntry job = Entry payload
     \<and> (\<exists>g. pd_generation p' = Some g \<and> \<not> g_retiring g)"
proof -
  have pv: "assertOrdersQueueJobPayload (payload_value payload) = Inr payload"
    using payload_check_value valid by blast
  obtain gid p1 where enter: "enter_enqueue (ef_entered fate) (ef_creation fate) p = (Inr gid, p1)"
    using run enqueue_refused [of fate p] by (metis Inl_Inr_False Pair_inject old.sum.exhaust surj_pair)
  obtain g where g: "pd_generation p1 = Some g" "g_id g = gid" "\<not> g_retiring g"
    using enqueue_entered [OF enter] by blast
  have add: "q_add ops PERSIST_ORDER_JOB_NAME (payload_value payload) i ORDERS_JOB_ATTEMPTS q = (Inr job, q')"
    and p': "p' = leave_enqueue gid p1"
    using run enter pv id
    by (auto simp: enqueue_def raced_add_def add_order_def split: readiness_fate.splits add_fate.splits prod.splits
        sum.splits if_splits)
  from queue_lawsD(6) [OF laws add free] have a: "added_job PERSIST_ORDER_JOB_NAME (payload_value payload) i ORDERS_JOB_ATTEMPTS job"
    "contents q' = (contents q)(i \<mapsto> (job, Job_waiting))" by simp_all
  moreover have "classifyQueueEntry job = Entry payload" by (rule added_job_covers [OF valid a(1) id])
  ultimately show ?thesis using g by (simp add: p' producer_defs)
qed

text \<open>
  Whatever becomes of a call, the queue is as it was or holds, on a slot that was free, a waiting
  job that carries the payload.
\<close>

lemma enqueue_effect:
  assumes laws: "queue_laws ops contents" and valid: "valid_payload payload"
    and id: "buildOrdersJobId (p_saleId payload) (p_userId payload) = Inr i"
    and run: "enqueue ops fate payload (p, q) = (r, (p', q'))"
  shows "contents q' = contents q \<or> contents q i = None
     \<and> (\<exists>job. contents q' = (contents q)(i \<mapsto> (job, Job_waiting)) \<and> classifyQueueEntry job = Entry payload)"
proof -
  have pv: "assertOrdersQueueJobPayload (payload_value payload) = Inr payload"
    using payload_check_value valid by blast
  obtain r1 q1 where add: "q_add ops PERSIST_ORDER_JOB_NAME (payload_value payload) i ORDERS_JOB_ATTEMPTS q = (r1, q1)"
    by (cases "q_add ops PERSIST_ORDER_JOB_NAME (payload_value payload) i ORDERS_JOB_ATTEMPTS q")
  have "add_order ops payload q = (r1, q1)" using pv id add by (simp add: add_order_def io_bind_def)
  then have "q' = q \<or> q' = q1"
    using run by (auto simp: enqueue_def raced_add_def split: readiness_fate.splits add_fate.splits prod.splits
        sum.splits if_splits)
  then show ?thesis using q_add_effect [OF laws valid id add] by auto
qed

text \<open>The retirement of the generation in use, if it has begun and ends at \<open>t\<close>.\<close>

definition settle_retirement :: "int option \<Rightarrow> producer \<Rightarrow> producer" where
  "settle_retirement t p =
     (case (t, pd_generation p) of
        (Some now, Some g) \<Rightarrow> if g_retiring g then finishRetirement now (g_id g) p else p
      | _ \<Rightarrow> p)"

text \<open>
  C37: a failed call opens the circuit, so an immediate retry never reaches the queue. After a call
  that was let in and failed, a second call is refused and changes nothing, whether the retirement
  of the generation is still running or has ended less than a second before.
\<close>

theorem retry_is_refused:
  assumes enter: "enter_enqueue (ef_entered first) (ef_creation first) p = (Inr gid, p0)"
    and run: "enqueue ops first payload (p, q) = (Inl e, (p1, q1))"
    and soon: "\<And>t. between = Some t \<Longrightarrow> ef_entered second < t + 1000"
  shows "\<exists>e'. enqueue ops second payload (settle_retirement between p1, q1)
     = (Inl e', (settle_retirement between p1, q1))"
proof -
  obtain g where g: "pd_generation p0 = Some g" "g_id g = gid" using enqueue_entered [OF enter] by blast
  have "p1 = leave_enqueue gid (retireGeneration gid p0)"
    using run enter by (auto simp: enqueue_def split: prod.splits sum.splits readiness_fate.splits)
  then have p1: "pd_generation p1 = Some (g\<lparr>g_inFlight := g_inFlight g - 1, g_retiring := True\<rparr>)"
    using leave_enqueue_generation [OF g] by simp
  have "\<exists>e'. enter_enqueue (ef_entered second) (ef_creation second) (settle_retirement between p1)
      = (Inl e', settle_retirement between p1)"
  proof (cases between)
    case None
    then show ?thesis using p1 by (simp add: settle_retirement_def enter_enqueue_def)
  next
    case (Some t)
    then have "pd_reopenAtMs (settle_retirement between p1) = t + 1000"
      using p1 by (simp add: settle_retirement_def finishRetirement_def PRODUCER_REOPEN_BACKOFF_MS_def)
    then show ?thesis using soon [OF Some] by (simp add: enter_enqueue_def)
  qed
  then obtain e' where "enter_enqueue (ef_entered second) (ef_creation second) (settle_retirement between p1)
      = (Inl e', settle_retirement between p1)" ..
  from enqueue_refused [OF this, of ops payload q1] show ?thesis by (rule exI)
qed

definition sample_fate :: "add_fate \<Rightarrow> enqueue_fate" where
  "sample_fate a = \<lparr>ef_entered = 0, ef_creation = Inr (), ef_ready = Ready, ef_add = a\<rparr>"

definition empty_queue :: mem_queue where
  "empty_queue = \<lparr>mq_jobs = [], mq_paused = False\<rparr>"

lemma sample_enter:
  "enter_enqueue (ef_entered (sample_fate a)) (ef_creation (sample_fate a)) new_producer =
     (Inr 0, \<lparr>pd_generation = Some \<lparr>g_id = 0, g_inFlight = 1, g_retiring = False\<rparr>, pd_reopenAtMs = 0,
        pd_closing = False, pd_next = 1\<rparr>)"
  by (simp add: enter_enqueue_def sample_fate_def new_producer_def createGeneration_def MAX_PRODUCER_IN_FLIGHT_def)

theorem retry_is_refused_witness:
  "\<exists>p1 e'. enqueue mem_ops (sample_fate (Add_deadline True)) (sample_payload ''alice'' CHR ''a'')
       (new_producer, empty_queue) = (Inl enqueue_timed_out, p1)
     \<and> enqueue mem_ops (sample_fate Add_settles) (sample_payload ''alice'' CHR ''a'') p1 = (Inl e', p1)"
proof -
  let ?pay = "sample_payload ''alice'' CHR ''a''"
  obtain p1 q1 where run: "enqueue mem_ops (sample_fate (Add_deadline True)) ?pay (new_producer, empty_queue)
      = (Inl enqueue_timed_out, (p1, q1))"
    using sample_enter [of "Add_deadline True"]
    by (simp add: enqueue_def) (simp add: sample_fate_def raced_add_def)
  have "settle_retirement None p1 = p1" by (simp add: settle_retirement_def)
  with run retry_is_refused [OF sample_enter run, of None "sample_fate Add_settles"] show ?thesis by auto
qed

end
