(* ===== verification/Api_Purchase.thy ===== *)
theory Api_Purchase
  imports Api_Producer Rate_Limit
begin

text \<open>
  The request handlers of the API: apps/api/src/purchase (the purchase path and the status
  lookup), apps/api/src/sale (status and metrics) and their controllers, composed from the guard,
  the pipe, the clock, the store and the producer as the code composes them.
\<close>

section \<open>A pod and what happens to one request\<close>

record 'q api =
  ap_world :: "'q world"
  ap_clock :: anchored_clock
  ap_cache :: snapshot_cache
  ap_producer :: producer
  ap_limiter :: limiter

definition api_redis :: "(redis_server, 'a) io \<Rightarrow> ('q api, 'a) io" where
  "api_redis m = io_part ap_world (\<lambda>w a. a\<lparr>ap_world := w\<rparr>) (on_redis m)"

definition api_producer :: "(producer \<times> 'q, 'a) io \<Rightarrow> ('q api, 'a) io" where
  "api_producer = io_part (\<lambda>a. (ap_producer a, w_queue (ap_world a)))
     (\<lambda>(p, q) a. a\<lparr>ap_producer := p, ap_world := (ap_world a)\<lparr>w_queue := q\<rparr>\<rparr>)"

text \<open>
  What the surroundings decide for one purchase request: the clock readings, the random
  identifiers, the fates of the two enqueue attempts and of the retirement between them.
\<close>

record purchase_run =
  pu_reservationId :: string
  pu_time :: redis_time
  pu_readings :: "int \<times> int \<times> int"
  pu_date_now :: int
  pu_first :: enqueue_fate
  pu_between :: "int option"
  pu_second :: enqueue_fate

section \<open>PurchaseService\<close>

record purchase_decision =
  de_outcome :: attempt_outcome
  de_stockRemaining :: "int option"
  de_serverTimeMs :: int
  de_reservationId :: "string option"

text \<open>One retry, then the failure is only logged; the method never throws.\<close>

definition enqueueConfirmedOrder ::
  "'q bullmq \<Rightarrow> purchase_run \<Rightarrow> orders_payload \<Rightarrow> (producer \<times> 'q, unit) io" where
  "enqueueConfirmedOrder ops pu payload =
     io_catch (io_bind (enqueue ops (pu_first pu) payload) (\<lambda>_. io_return ()))
       (\<lambda>_ pq. io_catch (io_bind (enqueue ops (pu_second pu) payload) (\<lambda>_. io_return ())) (\<lambda>_. io_return ())
          (settle_retirement (pu_between pu) (fst pq), snd pq))"

definition confirmed_payload :: "api_env \<Rightarrow> string \<Rightarrow> string \<Rightarrow> purchase_result \<Rightarrow> orders_payload" where
  "confirmed_payload env userId requestId res =
     \<lparr>p_saleId = API_SALE_ID env, p_userId = userId, p_reservationId = or_empty (pr_reservationId res),
      p_reservedAtMs = pr_serverTimeMs res, p_requestId = requestId\<rparr>"

definition decision_of :: "purchase_result \<Rightarrow> purchase_decision" where
  "decision_of res =
     \<lparr>de_outcome = Decided (pr_outcome res),
      de_stockRemaining = (if pr_outcome res = NOT_INITIALIZED then None else Some (pr_stockRemaining res)),
      de_serverTimeMs = pr_serverTimeMs res, de_reservationId = pr_reservationId res\<rparr>"

definition store_purchase_or_none ::
  "api_env \<Rightarrow> purchase_run \<Rightarrow> string \<Rightarrow> ('q api, purchase_result option) io" where
  "store_purchase_or_none env pu userId =
     io_catch
       (io_bind (api_redis (purchase (pu_reservationId pu) (pu_time pu) (API_SALE_ID env) userId)) (\<lambda>res.
          io_return (Some res)))
       (\<lambda>_. io_return None)"

definition service_purchase ::
  "'q bullmq \<Rightarrow> api_env \<Rightarrow> purchase_run \<Rightarrow> string \<Rightarrow> string \<Rightarrow> ('q api, purchase_decision) io" where
  "service_purchase ops env pu userId requestId a =
     (case evaluateFastPathGuard env (ap_clock a) (ap_cache a) (pu_readings pu) of
        Some g \<Rightarrow>
          io_bind (api_redis (bumpMetric (API_SALE_ID env) (Decided (fp_outcome g)))) (\<lambda>_.
            io_return \<lparr>de_outcome = Decided (fp_outcome g), de_stockRemaining = None,
              de_serverTimeMs = fp_nowMs g, de_reservationId = None\<rparr>) a
      | None \<Rightarrow>
          io_bind (store_purchase_or_none env pu userId) (\<lambda>answer.
            case answer of
              None \<Rightarrow> (\<lambda>a1. (Inr \<lparr>de_outcome = Refused UPSTREAM_UNAVAILABLE, de_stockRemaining = None,
                         de_serverTimeMs = nowMs (pu_date_now pu) (ap_clock a1), de_reservationId = None\<rparr>, a1))
            | Some res \<Rightarrow>
                io_bind (if pr_outcome res = CONFIRMED
                         then api_producer (enqueueConfirmedOrder ops pu (confirmed_payload env userId requestId res))
                         else io_return ()) (\<lambda>_.
                io_bind (api_redis (bumpMetric (API_SALE_ID env) (Decided (pr_outcome res)))) (\<lambda>_.
                  io_return (decision_of res)))) a)"

section \<open>PurchaseController\<close>

definition RETRY_AFTER_SECONDS :: string where "RETRY_AFTER_SECONDS = ''1''"

definition unavailable_headers :: "int \<Rightarrow> (string \<times> string) list" where
  "unavailable_headers httpStatus = (if httpStatus = 503 then [(''retry-after'', RETRY_AFTER_SECONDS)] else [])"

definition render_decision :: "api_env \<Rightarrow> string \<Rightarrow> purchase_decision \<Rightarrow> http_reply" where
  "render_decision env userId decision =
     (let httpStatus = int (PURCHASE_OUTCOME_HTTP_STATUS (de_outcome decision))
      in \<lparr>rp_status = httpStatus, rp_headers = unavailable_headers httpStatus,
          rp_body = buildPurchaseEnvelope (de_outcome decision) userId (API_SALE_ID env)
            (de_stockRemaining decision) (de_serverTimeMs decision)\<rparr>)"

text \<open>
  \<open>POST /api/purchase\<close>: the limiter, then the pipe, then the handler. An exception of the first two
  goes through the filter, after the headers the limiter set.
\<close>

definition post_purchase ::
  "'q bullmq \<Rightarrow> api_env \<Rightarrow> purchase_run \<Rightarrow> string \<Rightarrow> js_value \<Rightarrow> delivery \<Rightarrow> int \<Rightarrow> request \<Rightarrow>
   ('q api, http_reply) io" where
  "post_purchase ops env pu uuid issues limiter_link limiter_now rq a =
     (case canActivate env limiter_link limiter_now rq (ap_limiter a) of (v, lim) \<Rightarrow>
        (let a1 = a\<lparr>ap_limiter := lim\<rparr>; t = nowMs (pu_date_now pu) (ap_clock a1)
         in case v of
              Reject headers e \<Rightarrow>
                (let reply = catch_exception env uuid t rq e
                 in (Inr (reply\<lparr>rp_headers := headers @ rp_headers reply\<rparr>), a1))
            | Allow \<Rightarrow>
                (case zod_transform issues (rq_body rq) of
                   Inl e \<Rightarrow> (Inr (catch_exception env uuid t rq e), a1)
                 | Inr userId \<Rightarrow>
                     io_bind (service_purchase ops env pu userId (requestIdFromFastify uuid rq)) (\<lambda>decision.
                       io_return (render_decision env userId decision)) a1)))"

section \<open>PurchaseStatusService\<close>

text \<open>The lookup of the durable order; \<open>pg_up\<close> is whether Postgres answers.\<close>

definition readPersistedOrder :: "bool \<Rightarrow> string \<Rightarrow> ('q api, order_row option) io" where
  "readPersistedOrder pg_up userId a =
     (Inr (if pg_up then find_user userId (pg_orders (w_pg (ap_world a))) else None), a)"

definition status_body :: "api_env \<Rightarrow> string \<Rightarrow> bool \<Rightarrow> js_value \<Rightarrow> int \<Rightarrow> js_value" where
  "status_body env userId purchased order now =
     JObj [(''userId'', JStr userId), (''saleId'', JStr (API_SALE_ID env)), (''purchased'', JBool purchased),
           (''order'', order), (''serverTime'', JStr (toISOString now)), (''serverTimeMs'', JNum (Fin now))]"

definition order_json :: "order_status \<Rightarrow> int option \<Rightarrow> js_value" where
  "order_json st createdAt =
     JObj [(''status'', JStr (order_status_text st)),
           (''createdAt'', case createdAt of None \<Rightarrow> JNull | Some t \<Rightarrow> JStr (toISOString t))]"

definition getPurchaseStatus ::
  "api_env \<Rightarrow> bool \<Rightarrow> int \<Rightarrow> string \<Rightarrow> string \<Rightarrow> ('q api, int \<times> js_value) io" where
  "getPurchaseStatus env pg_up date_now userId requestId =
     io_bind (readPersistedOrder pg_up userId) (\<lambda>row.
       case row of
         Some r \<Rightarrow> (\<lambda>a. (Inr (200, status_body env userId (or_status r = Persisted)
           (order_json (or_status r) (Some (or_created_at_ms r))) (nowMs date_now (ap_clock a))), a))
       | None \<Rightarrow>
           io_catch
             (io_bind (api_redis (hasPurchased (API_SALE_ID env) userId)) (\<lambda>inRedis a.
               (Inr (200, status_body env userId inRedis
                  (if inRedis then order_json Reserved None else JNull) (nowMs date_now (ap_clock a))), a)))
             (\<lambda>_ a. (Inr (503, buildApiErrorResponse (Attempt (Refused UPSTREAM_UNAVAILABLE))
                  (messageFor (Attempt (Refused UPSTREAM_UNAVAILABLE))) requestId (nowMs date_now (ap_clock a))), a)))"

definition get_purchase ::
  "api_env \<Rightarrow> bool \<Rightarrow> int \<Rightarrow> string \<Rightarrow> js_value \<Rightarrow> request \<Rightarrow> js_value \<Rightarrow> ('q api, http_reply) io" where
  "get_purchase env pg_up date_now uuid issues rq params a =
     (case zod_transform issues params of
        Inl e \<Rightarrow> (Inr (catch_exception env uuid (nowMs date_now (ap_clock a)) rq e), a)
      | Inr userId \<Rightarrow>
          io_bind (getPurchaseStatus env pg_up date_now userId (requestIdFromFastify uuid rq)) (\<lambda>(httpStatus, body).
            io_return \<lparr>rp_status = httpStatus, rp_headers = unavailable_headers httpStatus, rp_body = body\<rparr>) a)"

section \<open>SaleService\<close>

definition servable :: "sale_snapshot \<Rightarrow> bool" where
  "servable snapshot \<longleftrightarrow> \<not> (\<not> ss_initialized snapshot \<or> ss_stockRemaining snapshot < 0)"

definition opt_text :: "string option \<Rightarrow> js_value" where
  "opt_text s = (case s of None \<Rightarrow> JNull | Some t \<Rightarrow> JStr t)"

fun sale_state_text :: "sale_state \<Rightarrow> string" where
  "sale_state_text Upcoming = ''upcoming''"
| "sale_state_text Active = ''active''"
| "sale_state_text Sold_out = ''sold_out''"
| "sale_state_text Ended = ''ended''"

text \<open>The body, or the exception that the filter renders: \<open>NOT_INITIALIZED\<close>, or the store's error.\<close>

definition getSaleStatus :: "api_env \<Rightarrow> redis_time \<Rightarrow> ('q api, thrown + js_value) io" where
  "getSaleStatus env time =
     io_catch
       (io_bind (api_redis (status time (API_SALE_ID env))) (\<lambda>snapshot.
          io_return
            (if \<not> servable snapshot
             then Inl (Http_exception 503 (JObj [(''outcome'', JStr ''NOT_INITIALIZED'')]) False)
             else Inr (JObj [(''saleId'', JStr (ss_saleId snapshot)), (''name'', opt_text (ss_name snapshot)),
                   (''status'', JStr (sale_state_text (ss_state snapshot))),
                   (''startsAt'', opt_text (ss_startsAt snapshot)), (''endsAt'', opt_text (ss_endsAt snapshot)),
                   (''startsAtMs'', JNum (Fin (ss_startsAtMs snapshot))), (''endsAtMs'', JNum (Fin (ss_endsAtMs snapshot))),
                   (''totalStock'', JNum (Fin (ss_totalStock snapshot))),
                   (''stockRemaining'', JNum (Fin (ss_stockRemaining snapshot))),
                   (''serverTime'', JStr (toISOString (ss_serverTimeMs snapshot))),
                   (''serverTimeMs'', JNum (Fin (ss_serverTimeMs snapshot)))]))))
       (\<lambda>e. io_return (Inl (Other_error (error_message e) None)))"

definition getMetrics :: "api_env \<Rightarrow> int \<Rightarrow> ('q api, js_value) io" where
  "getMetrics env now =
     io_bind (api_redis (readMetrics (API_SALE_ID env))) (\<lambda>raw.
       io_return (JObj [(''saleId'', JStr (API_SALE_ID env)),
         (''metrics'', JObj (map (\<lambda>f. (metric_field_text f,
            JNum (case map_of raw (metric_field_text f) of Some v \<Rightarrow> v | None \<Rightarrow> Fin 0))) SALE_METRIC_FIELDS)),
         (''serverTime'', JStr (toISOString now)), (''serverTimeMs'', JNum (Fin now))]))"

definition get_sale_status :: "api_env \<Rightarrow> redis_time \<Rightarrow> string \<Rightarrow> int \<Rightarrow> request \<Rightarrow> ('q api, http_reply) io" where
  "get_sale_status env time uuid date_now rq =
     io_bind (getSaleStatus env time) (\<lambda>answer a.
       (Inr (case answer of
               Inr body \<Rightarrow> \<lparr>rp_status = 200, rp_headers = [], rp_body = body\<rparr>
             | Inl e \<Rightarrow> catch_exception env uuid (nowMs date_now (ap_clock a)) rq e), a))"

section \<open>The purchase path\<close>

lemma api_redis_step:
  "m (w_redis (ap_world a)) = (r, srv) \<Longrightarrow>
   api_redis m a = (r, a\<lparr>ap_world := (ap_world a)\<lparr>w_redis := srv\<rparr>\<rparr>)"
  by (simp add: api_redis_def on_redis_def io_part_def)

lemma enqueueConfirmedOrder_returns: "\<exists>pq'. enqueueConfirmedOrder ops pu payload pq = (Inr (), pq')"
  by (auto simp: enqueueConfirmedOrder_def io_catch_def io_bind_def split: prod.splits sum.splits)

lemma api_producer_step:
  "m (ap_producer a, w_queue (ap_world a)) = (r, (p, q)) \<Longrightarrow>
   api_producer m a = (r, a\<lparr>ap_producer := p, ap_world := (ap_world a)\<lparr>w_queue := q\<rparr>\<rparr>)"
  by (simp add: api_producer_def io_part_def)

text \<open>The effect of counting: the answer is ignored and the books stay.\<close>

lemma api_bump:
  obtains a' where "api_redis (bumpMetric s out) a = (Inr (), a')"
    and "\<And>i. books (sales (w_redis (ap_world a')) i) = books (sales (w_redis (ap_world a)) i)"
    and "w_queue (ap_world a') = w_queue (ap_world a)" and "w_pg (ap_world a') = w_pg (ap_world a)"
    and "ap_producer a' = ap_producer a"
proof -
  obtain srv where b: "bumpMetric s out (w_redis (ap_world a)) = (Inr (), srv)"
    using bumpMetric_books(1) [of s out "w_redis (ap_world a)"] by (cases "bumpMetric s out (w_redis (ap_world a))") simp
  moreover have "books (sales srv i) = books (sales (w_redis (ap_world a)) i)" for i
    using bumpMetric_books(2) [of s out "w_redis (ap_world a)" i] b by simp
  ultimately show thesis using that [OF api_redis_step [of "bumpMetric s out" a, OF b]] by simp
qed

text \<open>The steps of a request that the guard lets through and the store answers.\<close>

lemma service_purchase_answered:
  assumes guard: "evaluateFastPathGuard env (ap_clock a) (ap_cache a) (pu_readings pu) = None"
    and store: "purchase (pu_reservationId pu) (pu_time pu) (API_SALE_ID env) userId (w_redis (ap_world a)) = (Inr res, srv)"
  obtains a' pq where "service_purchase ops env pu userId requestId a = (Inr (decision_of res), a')"
    and "\<And>i. books (sales (w_redis (ap_world a')) i) = books (sales srv i)"
    and "w_pg (ap_world a') = w_pg (ap_world a)" and "(ap_producer a', w_queue (ap_world a')) = pq"
    and "pr_outcome res = CONFIRMED \<Longrightarrow> enqueueConfirmedOrder ops pu (confirmed_payload env userId requestId res)
           (ap_producer a, w_queue (ap_world a)) = (Inr (), pq)"
    and "pr_outcome res \<noteq> CONFIRMED \<Longrightarrow> pq = (ap_producer a, w_queue (ap_world a))"
proof -
  let ?a1 = "a\<lparr>ap_world := (ap_world a)\<lparr>w_redis := srv\<rparr>\<rparr>"
  let ?enq = "enqueueConfirmedOrder ops pu (confirmed_payload env userId requestId res)"
  have one: "store_purchase_or_none env pu userId a = (Inr (Some res), ?a1)"
    using api_redis_step [of "purchase (pu_reservationId pu) (pu_time pu) (API_SALE_ID env) userId" a, OF store]
    by (simp add: store_purchase_or_none_def io_catch_def io_bind_def)
  obtain p q where pq: "?enq (ap_producer a, w_queue (ap_world a)) = (Inr (), (p, q))"
    using enqueueConfirmedOrder_returns [of ops pu _ "(ap_producer a, w_queue (ap_world a))"] by (metis surj_pair)
  let ?a2 = "if pr_outcome res = CONFIRMED
    then ?a1\<lparr>ap_producer := p, ap_world := (ap_world ?a1)\<lparr>w_queue := q\<rparr>\<rparr> else ?a1"
  have two: "(if pr_outcome res = CONFIRMED then api_producer ?enq else io_return ()) ?a1 = (Inr (), ?a2)"
    using api_producer_step [of ?enq ?a1] pq by simp
  obtain a3 where three: "api_redis (bumpMetric (API_SALE_ID env) (Decided (pr_outcome res))) ?a2 = (Inr (), a3)"
    and keep: "\<And>i. books (sales (w_redis (ap_world a3)) i) = books (sales (w_redis (ap_world ?a2)) i)"
      "w_queue (ap_world a3) = w_queue (ap_world ?a2)" "w_pg (ap_world a3) = w_pg (ap_world ?a2)"
      "ap_producer a3 = ap_producer ?a2"
    using api_bump [of "API_SALE_ID env" "Decided (pr_outcome res)" ?a2] by metis
  have "service_purchase ops env pu userId requestId a = (Inr (decision_of res), a3)"
    using guard one two three by (simp add: service_purchase_def io_bind_def split: if_splits)
  then show thesis
    by (rule that [of a3 "(ap_producer a3, w_queue (ap_world a3))"]) (use keep pq in \<open>simp_all split: if_splits\<close>)
qed

lemma service_purchase_guarded:
  assumes guard: "evaluateFastPathGuard env (ap_clock a) (ap_cache a) (pu_readings pu) = Some g"
  obtains a' where "service_purchase ops env pu userId requestId a =
      (Inr \<lparr>de_outcome = Decided (fp_outcome g), de_stockRemaining = None, de_serverTimeMs = fp_nowMs g,
         de_reservationId = None\<rparr>, a')"
    and "\<And>i. books (sales (w_redis (ap_world a')) i) = books (sales (w_redis (ap_world a)) i)"
    and "fp_outcome g \<in> {SALE_NOT_STARTED, SALE_ENDED}"
proof -
  obtain a' where b: "api_redis (bumpMetric (API_SALE_ID env) (Decided (fp_outcome g))) a = (Inr (), a')"
    "\<And>i. books (sales (w_redis (ap_world a')) i) = books (sales (w_redis (ap_world a)) i)"
    using api_bump [of "API_SALE_ID env" "Decided (fp_outcome g)" a] by metis
  obtain f k n where "pu_readings pu = (f, k, n)" by (cases "pu_readings pu")
  then have "fp_outcome g \<in> {SALE_NOT_STARTED, SALE_ENDED}" using guard by (auto elim!: guard_cases)
  with guard b show thesis by (intro that [of a']) (simp_all add: service_purchase_def io_bind_def)
qed


lemma decided_in_script:
  assumes id: "SALE_ID_PATTERN s" and up: "link srv = []" and uuid: "UUID_PATTERN r"
    and run: "purchase r t s u srv = (Inr res, srv1)" and ok: "pr_outcome res = CONFIRMED"
  shows "pr_reservationId res = Some r" "pr_serverTimeMs res = now_ms t"
    "ledger_id (sales srv1 s) u = Some r" "u \<in> set (buyers_key (sales srv1 s))"
    "ledger_id (sales srv s) u = None"
proof -
  let ?s = "sales srv s"
  have code: "purchase_outcome_text (pr_outcome res) = pur_code (fst (purchase_lua t u r ?s))"
    and time: "pr_serverTimeMs res = pur_now (fst (purchase_lua t u r ?s))"
    and rid: "pr_reservationId res = (if pr_outcome res = CONFIRMED then Some r else None)"
    and eff: "sales srv1 = (sales srv)(s := snd (purchase_lua t u r ?s))"
    using store_purchase_delivered [OF id up, of r t u] run by auto
  have now: "pur_now (fst (purchase_lua t u r ?s)) = now_ms t"
    by (auto simp: purchase_lua_def Let_def split: option.splits)
  obtain raw where new: "\<not> HEXISTS (reservations_key ?s) u"
    "snd (purchase_lua t u r ?s) = ?s\<lparr>stock_key := Some (raw - 1), buyers_key := SADD u (buyers_key ?s),
       reservations_key := HSET u (ledger_value r (lua_tostring (now_ms t))) (reservations_key ?s)\<rparr>"
    using code ok by (auto simp: purchase_lua_def Let_def split: option.splits if_splits)
  show "pr_reservationId res = Some r" using rid ok by simp
  show "pr_serverTimeMs res = now_ms t" using time now by simp
  show "ledger_id (sales srv1 s) u = Some r"
    by (simp add: eff new ledger_id_def HGET_def HSET_def AList.update_conv' ledger_id_value [OF uuid])
  show "u \<in> set (buyers_key (sales srv1 s))" by (simp add: eff new SADD_def)
  show "ledger_id ?s u = None" using new(1) by (simp add: ledger_id_def HEXISTS_def HGET_def)
qed

lemma status_201: "PURCHASE_OUTCOME_HTTP_STATUS out = 201 \<longleftrightarrow> out = Decided CONFIRMED"
  by (cases out rule: PURCHASE_OUTCOME_HTTP_STATUS.cases) simp_all

text \<open>A confirmation comes from the store.\<close>

lemma confirmed_decision:
  assumes run: "service_purchase ops env pu u requestId a = (Inr dec, a')" and ok: "de_outcome dec = Decided CONFIRMED"
  obtains res srv pq where
    "purchase (pu_reservationId pu) (pu_time pu) (API_SALE_ID env) u (w_redis (ap_world a)) = (Inr res, srv)"
    and "pr_outcome res = CONFIRMED" and "dec = decision_of res"
    and "\<And>i. books (sales (w_redis (ap_world a')) i) = books (sales srv i)"
    and "w_pg (ap_world a') = w_pg (ap_world a)" and "(ap_producer a', w_queue (ap_world a')) = pq"
    and "enqueueConfirmedOrder ops pu (confirmed_payload env u requestId res)
           (ap_producer a, w_queue (ap_world a)) = (Inr (), pq)"
proof -
  obtain r srv where st: "purchase (pu_reservationId pu) (pu_time pu) (API_SALE_ID env) u (w_redis (ap_world a)) = (r, srv)"
    by (cases "purchase (pu_reservationId pu) (pu_time pu) (API_SALE_ID env) u (w_redis (ap_world a))")
  have none: "evaluateFastPathGuard env (ap_clock a) (ap_cache a) (pu_readings pu) = None"
  proof (rule ccontr)
    assume "evaluateFastPathGuard env (ap_clock a) (ap_cache a) (pu_readings pu) \<noteq> None"
    then obtain g where "evaluateFastPathGuard env (ap_clock a) (ap_cache a) (pu_readings pu) = Some g" by blast
    from service_purchase_guarded [OF this, of ops u requestId] show False using run ok
      by (metis Inr_inject Pair_inject attempt_outcome.inject(1) insertE purchase_decision.select_convs(1)
          purchase_outcome.distinct(5,7) singletonD)
  qed
  have "\<exists>res. r = Inr res"
  proof (cases r)
    case (Inl e)
    then show ?thesis using run ok none
      api_redis_step [of "purchase (pu_reservationId pu) (pu_time pu) (API_SALE_ID env) u" a, OF st]
      by (auto simp: service_purchase_def store_purchase_or_none_def io_catch_def io_bind_def)
  qed simp
  then obtain res where res: "r = Inr res" by blast
  obtain a3 pq where ans: "service_purchase ops env pu u requestId a = (Inr (decision_of res), a3)"
    "\<And>i. books (sales (w_redis (ap_world a3)) i) = books (sales srv i)"
    "w_pg (ap_world a3) = w_pg (ap_world a)" "(ap_producer a3, w_queue (ap_world a3)) = pq"
    "pr_outcome res = CONFIRMED \<Longrightarrow> enqueueConfirmedOrder ops pu (confirmed_payload env u requestId res)
           (ap_producer a, w_queue (ap_world a)) = (Inr (), pq)"
    using service_purchase_answered [OF none st [unfolded res], of ops requestId] by metis
  have "dec = decision_of res" "a' = a3" using run ans(1) by simp_all
  moreover from this ok have "pr_outcome res = CONFIRMED" by (simp add: decision_of_def)
  ultimately show thesis using that [OF st [unfolded res]] ans by simp
qed

text \<open>What the two enqueue attempts of a confirmed purchase leave in a slot that was free.\<close>

lemma enqueueConfirmedOrder_effect:
  assumes laws: "queue_laws ops contents" and valid: "valid_payload payload"
    and id: "buildOrdersJobId (p_saleId payload) (p_userId payload) = Inr i" and free: "contents q i = None"
    and run: "enqueueConfirmedOrder ops pu payload (p, q) = (r, (p', q'))"
  shows "contents q' i = None \<or> (\<exists>job. contents q' i = Some (job, Job_waiting) \<and> classifyQueueEntry job = Entry payload)"
proof -
  obtain r1 p1 q1 where first: "enqueue ops (pu_first pu) payload (p, q) = (r1, (p1, q1))"
    by (metis prod.exhaust)
  obtain r2 p2 q2 where second: "enqueue ops (pu_second pu) payload (settle_retirement (pu_between pu) p1, q1) = (r2, (p2, q2))"
    by (metis prod.exhaust)
  have "q' = q1 \<or> q' = q2"
    using run first second by (cases r1; cases r2) (auto simp: enqueueConfirmedOrder_def io_catch_def io_bind_def)
  moreover note enqueue_effect [OF laws valid id first] enqueue_effect [OF laws valid id second]
  ultimately show ?thesis using free by (metis fun_upd_same)
qed

text \<open>The entry that a confirmed purchase leaves, as the store reads it.\<close>

lemma confirmed_entry:
  assumes id: "SALE_ID_PATTERN s" and up: "link srv = []" and uuid: "UUID_PATTERN r"
    and t: "0 \<le> now_ms t" "now_ms t < 10 ^ 14"
    and run: "purchase r t s u srv = (Inr res, srv1)" and ok: "pr_outcome res = CONFIRMED"
  shows "\<exists>v. HGET (reservations_key (sales srv1 s)) u = Some v
     \<and> parseReservationEntry u v = Inr \<lparr>e_userId = u, e_reservationId = r, e_reservedAtMs = Some (now_ms t)\<rparr>"
proof -
  let ?s = "sales srv s" and ?v = "ledger_value r (lua_tostring (now_ms t))"
  have code: "pur_code (fst (purchase_lua t u r ?s)) = ''CONFIRMED''"
    and eff: "sales srv1 = (sales srv)(s := snd (purchase_lua t u r ?s))"
    using store_purchase_delivered [OF id up, of r t u] run ok by auto
  from code have "HGET (reservations_key (snd (purchase_lua t u r ?s))) u = Some ?v"
    by (auto simp: purchase_lua_def Let_def HGET_def HSET_def update_conv' split: option.splits if_splits)
  moreover have "parseReservationEntry u ?v = Inr \<lparr>e_userId = u, e_reservationId = r, e_reservedAtMs = Some (now_ms t)\<rparr>"
    using parse_ledger_value [OF uuid, of "nat (now_ms t)" u] t by (simp add: lua_tostring_dec max_safe_integer_def)
  ultimately show ?thesis by (simp add: eff)
qed

text \<open>Responses of the filter are never a success.\<close>

lemma filter_not_201:
  "rp_status (catch_exception env uuid t rq (Http_exception 422 r False)) \<noteq> 201"
  "rp_status (catch_exception env uuid t rq (Http_exception 429 r False)) \<noteq> 201"
  by (simp_all add: catch_exception_def Let_def respond_def sendApiError_def split: option.splits)

text \<open>Only the handler behind the limiter and the pipe answers 201, and only for a confirmation of the store.\<close>

lemma created_backed:
  assumes id: "SALE_ID_PATTERN (API_SALE_ID env)" and up: "link (w_redis (ap_world a)) = []"
    and uuid: "UUID_PATTERN (pu_reservationId pu)"
    and run: "post_purchase ops env pu rid issues d now rq a = (Inr reply, a')" and created: "rp_status reply = 201"
  shows "\<exists>u. userIdSchema (js_get (rq_body rq) ''userId'') = Some u
     \<and> ledger_id (sales (w_redis (ap_world a)) (API_SALE_ID env)) u = None
     \<and> ledger_id (sales (w_redis (ap_world a')) (API_SALE_ID env)) u = Some (pu_reservationId pu)
     \<and> u \<in> set (buyers_key (sales (w_redis (ap_world a')) (API_SALE_ID env)))
     \<and> js_get (rp_body reply) ''status'' = JStr ''CONFIRMED'' \<and> js_get (rp_body reply) ''userId'' = JStr u"
proof -
  obtain v lim where act: "canActivate env d now rq (ap_limiter a) = (v, lim)" by (cases "canActivate env d now rq (ap_limiter a)")
  let ?a1 = "a\<lparr>ap_limiter := lim\<rparr>"
  have "v = Allow"
  proof (cases v)
    case (Reject h e)
    then have "\<exists>r. e = Http_exception 429 r False"
      using act by (auto simp: canActivate_def reject_def split: option.splits prod.splits sum.splits if_splits)
    then show ?thesis using run created act Reject filter_not_201(2) by (auto simp: post_purchase_def Let_def)
  qed simp
  with run act created obtain u where u: "zod_transform issues (rq_body rq) = Inr u"
    by (cases "zod_transform issues (rq_body rq)")
      (auto simp: post_purchase_def Let_def zod_transform_def filter_not_201 split: option.splits)
  then have schema: "userIdSchema (js_get (rq_body rq) ''userId'') = Some u"
    by (auto simp: zod_transform_def purchaseRequestSchema_def split: option.splits js_value.splits if_splits)
  obtain dec where dec: "service_purchase ops env pu u (requestIdFromFastify rid rq) ?a1 = (Inr dec, a')"
    and reply: "reply = render_decision env u dec"
    using run act u \<open>v = Allow\<close> by (auto simp: post_purchase_def Let_def io_bind_Inr)
  have conf: "de_outcome dec = Decided CONFIRMED"
    using created reply status_201 [of "de_outcome dec"] by (simp add: render_decision_def Let_def)
  obtain res srv where st: "purchase (pu_reservationId pu) (pu_time pu) (API_SALE_ID env) u (w_redis (ap_world ?a1)) = (Inr res, srv)"
    and ok: "pr_outcome res = CONFIRMED"
    and books: "\<And>i. books (sales (w_redis (ap_world a')) i) = books (sales srv i)"
    using confirmed_decision [OF dec conf] by metis
  note led = decided_in_script [OF id _ uuid st ok]
  have "ledger_id (sales (w_redis (ap_world a')) i) = ledger_id (sales srv i)"
    "buyers_key (sales (w_redis (ap_world a')) i) = buyers_key (sales srv i)" for i
    using books [of i] by (simp_all add: books_def ledger_id_def fun_eq_iff)
  with led up schema conf reply show ?thesis
    by (intro exI [of _ u]) (simp add: render_decision_def buildPurchaseEnvelope_def Let_def)
qed

text \<open>
  C9: a 201 is backed by the ledger. When the link to Redis is up, a purchase request answered with
  201 came with a valid user identifier, that user had no reservation before, and the ledger of
  the sale now holds for that user exactly the reservation made for this request, also when both
  enqueue attempts failed; the body says \<open>CONFIRMED\<close> and names that user.
\<close>

theorem created_response_is_backed:
  assumes id: "SALE_ID_PATTERN (API_SALE_ID env)" and up: "link (w_redis (ap_world a)) = []"
    and uuid: "UUID_PATTERN (pu_reservationId pu)"
    and run: "post_purchase ops env pu rid issues d now rq a = (Inr reply, a')" and created: "rp_status reply = 201"
  shows "\<exists>u. userIdSchema (js_get (rq_body rq) ''userId'') = Some u
     \<and> ledger_id (sales (w_redis (ap_world a)) (API_SALE_ID env)) u = None
     \<and> ledger_id (sales (w_redis (ap_world a')) (API_SALE_ID env)) u = Some (pu_reservationId pu)
     \<and> u \<in> set (buyers_key (sales (w_redis (ap_world a')) (API_SALE_ID env)))
     \<and> js_get (rp_body reply) ''status'' = JStr ''CONFIRMED'' \<and> js_get (rp_body reply) ''userId'' = JStr u"
  using assms by (rule created_backed)

definition sample_run_fates :: purchase_run where
  "sample_run_fates = \<lparr>pu_reservationId = sample_uuid CHR ''a'', pu_time = (2, 0), pu_readings = (0, 0, 0), pu_date_now = 0,
     pu_first = sample_fate (Add_deadline False), pu_between = None, pu_second = sample_fate Add_settles\<rparr>"

definition sample_api :: "mem_queue api" where
  "sample_api = \<lparr>ap_world = \<lparr>w_redis = sample_server, w_pg = sample_pg [] [], w_queue = empty_queue\<rparr>,
     ap_clock = new_clock, ap_cache = None, ap_producer = new_producer, ap_limiter = (\<lambda>_. None)\<rparr>"

lemma sample_server_sale: "sales sample_server i = sample_sale"
  by (rule sample_server_facts(3))

lemma sample_purchase_confirmed:
  "pur_code (fst (purchase_lua (2, 0) ''bob'' (sample_uuid CHR ''a'') sample_sale)) = ''CONFIRMED''"
proof -
  note f = sale_inv_facts [OF sample_server_facts(4)]
  have users: "\<not> SISMEMBER (buyers_key sample_sale) ''bob''" "\<not> HEXISTS (reservations_key sample_sale) ''bob''"
    using f(4) sample_server_facts(5) ledger_users_alt [of "''bob''" sample_sale] by (simp_all add: SISMEMBER_def)
  have stock: "stock_key sample_sale = Some 1" using f(5) sample_server_facts(6) by simp
  show ?thesis using seeded_fields [OF f(1)] users stock by (simp add: purchase_lua_def now_ms_def Let_def)
qed

lemma sample_confirms:
  obtains res a' where "service_purchase mem_ops sample_api_env sample_run_fates ''bob'' requestId (sample_api\<lparr>ap_limiter := lim\<rparr>)
      = (Inr (decision_of res), a')" and "pr_outcome res = CONFIRMED"
proof -
  let ?env = sample_api_env and ?pu = sample_run_fates and ?a = "sample_api\<lparr>ap_limiter := lim\<rparr>"
  have none: "evaluateFastPathGuard ?env (ap_clock ?a) (ap_cache ?a) (pu_readings ?pu) = None"
    by (simp add: evaluateFastPathGuard_def isFresh_def sample_api_def new_clock_def split: prod.split)
  obtain res srv where st: "purchase (pu_reservationId ?pu) (pu_time ?pu) (API_SALE_ID ?env) ''bob'' (w_redis (ap_world ?a)) = (Inr res, srv)"
    and "purchase_outcome_text (pr_outcome res) = ''CONFIRMED''"
    using store_purchase_delivered [of "API_SALE_ID ?env" "w_redis (ap_world ?a)" "pu_reservationId ?pu" "pu_time ?pu" "''bob''"]
      sample_server_facts(1,2) sample_purchase_confirmed sample_server_sale
    by (auto simp: sample_run_fates_def sample_api_def sample_api_env_def)
  then have "pr_outcome res = CONFIRMED" by (metis purchase_outcome_text.simps(1) purchase_outcome_text_inject)
  then show thesis using that service_purchase_answered [OF none st, of mem_ops requestId] by metis
qed

lemma sample_post_confirms:
  assumes candidate: "extractRateLimitCandidateUserId (rq_body rq) = Some ''bob''"
    and zod: "zod_transform JNull (rq_body rq) = Inr ''bob''"
  obtains res a' where "post_purchase mem_ops sample_api_env sample_run_fates (sample_uuid CHR ''b'') JNull Delivered 0
      rq sample_api = (Inr (render_decision sample_api_env ''bob'' (decision_of res)), a')"
    and "pr_outcome res = CONFIRMED"
proof -
  let ?env = sample_api_env and ?pu = sample_run_fates
  have "PTTL 0 (ap_limiter sample_api) k < 0" for k by (simp add: PTTL_def sample_api_def)
  then obtain lim where act: "canActivate ?env Delivered 0 rq (ap_limiter sample_api) = (Allow, lim)"
    using open_window [OF candidate refl, of 0 "ap_limiter sample_api" ?env] by (auto simp: sample_api_env_def)
  let ?a = "sample_api\<lparr>ap_limiter := lim\<rparr>" and ?rid = "requestIdFromFastify (sample_uuid CHR ''b'') rq"
  obtain res a' where dec: "service_purchase mem_ops ?env ?pu ''bob'' ?rid ?a = (Inr (decision_of res), a')"
    and ok: "pr_outcome res = CONFIRMED"
    by (rule sample_confirms)
  have "post_purchase mem_ops ?env ?pu (sample_uuid CHR ''b'') JNull Delivered 0 rq sample_api
      = (Inr (render_decision ?env ''bob'' (decision_of res)), a')"
    using act zod dec by (simp add: post_purchase_def Let_def io_bind_def)
  then show thesis using ok by (rule that)
qed

lemma sample_post_facts:
  "SALE_ID_PATTERN (API_SALE_ID sample_api_env)" "API_SALE_ID sample_api_env = ''flash-2026''"
  "link (w_redis (ap_world sample_api)) = []" "UUID_PATTERN (pu_reservationId sample_run_fates)"
  "pu_reservationId sample_run_fates = sample_uuid CHR ''a''"
  using sample_server_facts(1)
  by (simp_all add: sample_api_env_def sample_api_def sample_server_facts(2) sample_run_fates_def sample_uuids(1))

theorem created_response_is_backed_witness:
  "\<exists>reply a'. post_purchase mem_ops sample_api_env sample_run_fates (sample_uuid CHR ''b'') JNull Delivered 0
       sample_request sample_api = (Inr reply, a')
     \<and> rp_status reply = 201
     \<and> ledger_id (sales (w_redis (ap_world a')) ''flash-2026'') ''bob'' = Some (sample_uuid CHR ''a'')
     \<and> js_get (rp_body reply) ''userId'' = JStr ''bob''"
proof -
  note f = sample_post_facts
  have zod: "zod_transform JNull (rq_body sample_request) = Inr ''bob''" by code_simp
  obtain res a' where run: "post_purchase mem_ops sample_api_env sample_run_fates (sample_uuid CHR ''b'') JNull Delivered 0
      sample_request sample_api = (Inr (render_decision sample_api_env ''bob'' (decision_of res)), a')"
    and ok: "pr_outcome res = CONFIRMED"
    using sample_post_confirms [OF sample_candidate] zod by metis
  have c: "rp_status (render_decision sample_api_env ''bob'' (decision_of res)) = 201"
    using ok by (simp add: render_decision_def decision_of_def Let_def)
  moreover have "userIdSchema (js_get (rq_body sample_request) ''userId'') = Some ''bob''" by code_simp
  ultimately show ?thesis using run created_response_is_backed [OF f(1,3,4) run c] f(2,5) by auto
qed

section \<open>The status of a purchase\<close>

text \<open>
  The status lookup prefers the tables, falls back on Redis and never guesses. It never throws
  and changes nothing. An order in a reachable database decides the answer, and counts as
  purchased exactly when it is persisted; without one, the buyers set of the sale decides, with the
  order shown as reserved; only when neither can be asked is the answer 503, with \<open>retry-after\<close>.
\<close>

lemma purchase_status_precedence:
  assumes valid: "zod_transform issues params = Inr u" and id: "SALE_ID_PATTERN (API_SALE_ID env)"
  shows "\<exists>reply a' ms. get_purchase env pg_up date_now uuid issues rq params a = (Inr reply, a')
     \<and> sales (w_redis (ap_world a')) = sales (w_redis (ap_world a)) \<and> w_pg (ap_world a') = w_pg (ap_world a)
     \<and> (case (if pg_up then find_user u (pg_orders (w_pg (ap_world a))) else None) of
          Some r \<Rightarrow> rp_status reply = 200 \<and> rp_body reply = status_body env u (or_status r = Persisted)
            (order_json (or_status r) (Some (or_created_at_ms r))) ms
        | None \<Rightarrow>
            (case link (w_redis (ap_world a)) of
               Lost_before # _ \<Rightarrow> rp_status reply = 503 \<and> map_of (rp_headers reply) ''retry-after'' = Some ''1''
             | Lost_after # _ \<Rightarrow> rp_status reply = 503 \<and> map_of (rp_headers reply) ''retry-after'' = Some ''1''
             | _ \<Rightarrow> (let bought = u \<in> set (buyers_key (sales (w_redis (ap_world a)) (API_SALE_ID env)))
                     in rp_status reply = 200 \<and> rp_body reply = status_body env u bought
                          (if bought then order_json Reserved None else JNull) ms)))"
proof (cases "if pg_up then find_user u (pg_orders (w_pg (ap_world a))) else None")
  case (Some r)
  then have "readPersistedOrder pg_up u a = (Inr (Some r), a)" by (simp add: readPersistedOrder_def)
  then show ?thesis using Some valid
    by (simp add: get_purchase_def getPurchaseStatus_def io_bind_def del: if_split) blast
next
  case None
  then have none: "readPersistedOrder pg_up u a = (Inr None, a)" by (simp add: readPersistedOrder_def)
  obtain k where k: "saleKeys (API_SALE_ID env) = Inr k" using saleKeys_valid [OF id] by blast
  let ?srv = "w_redis (ap_world a)"
  have ask: "hasPurchased (API_SALE_ID env) u ?srv
      = redis_call (read_sale (API_SALE_ID env) (\<lambda>s. SISMEMBER (buyers_key s) u)) ?srv"
    by (simp add: hasPurchased_def id k)
  obtain r srv where call: "hasPurchased (API_SALE_ID env) u ?srv = (r, srv)" by (cases "hasPurchased (API_SALE_ID env) u ?srv")
  have srv: "sales srv = sales ?srv"
    "case link ?srv of Lost_before # _ \<Rightarrow> \<exists>e. r = Inl e | Lost_after # _ \<Rightarrow> \<exists>e. r = Inl e
     | _ \<Rightarrow> r = Inr (u \<in> set (buyers_key (sales ?srv (API_SALE_ID env))))"
    using call unfolding ask
    by (auto simp: redis_call_def read_sale_def on_sale_def SISMEMBER_def split: list.splits delivery.splits)
  show ?thesis
    using None srv valid api_redis_step [of "hasPurchased (API_SALE_ID env) u" a, OF call]
    by (cases r; cases "link ?srv")
      (auto simp: get_purchase_def getPurchaseStatus_def io_bind_def none io_catch_def unavailable_headers_def
        RETRY_AFTER_SECONDS_def Let_def split: delivery.splits)
qed

end
