(* ===== verification/Api_Health.thy ===== *)
theory Api_Health
  imports Api_Purchase
begin

text \<open>
  Readiness of the API: apps/api/src/health/health.service.ts with its controller, and the queue
  observer of apps/api/src/infra/queue-depth-probe.ts behind one of its checks. The outcome of a
  race against a deadline is an argument; the checks run one after the other here, since each
  touches its own connection.
\<close>

section \<open>QueueDepthProbe\<close>

record queue_depth =
  qd_waiting :: nat
  qd_active :: nat
  qd_delayed :: nat
  qd_failed :: nat

record probe =
  pb_generation :: "nat option"
  pb_next :: nat
  pb_closing :: bool

definition new_probe :: probe where
  "new_probe = \<lparr>pb_generation = None, pb_next = 0, pb_closing = False\<rparr>"

definition or_zero :: "nat option \<Rightarrow> nat" where
  "or_zero n = (case n of None \<Rightarrow> 0 | Some k \<Rightarrow> k)"

text \<open>The counts BullMQ reports; a state it does not mention is \<open>None\<close>.\<close>

type_synonym raw_counts = "nat option \<times> nat option \<times> nat option \<times> nat option"

definition disposeGeneration :: "nat \<Rightarrow> probe \<Rightarrow> probe" where
  "disposeGeneration gid p = (if pb_generation p = Some gid then p\<lparr>pb_generation := None\<rparr> else p)"

text \<open>\<open>runDepth\<close>: \<open>None\<close> is the deadline winning the race against the command.\<close>

definition runDepth :: "raw_counts result option \<Rightarrow> (probe, queue_depth) io" where
  "runDepth raced p =
     (let (gid, p1) = (case pb_generation p of Some g \<Rightarrow> (g, p)
        | None \<Rightarrow> (pb_next p, p\<lparr>pb_generation := Some (pb_next p), pb_next := Suc (pb_next p)\<rparr>))
      in case raced of
           None \<Rightarrow> (Inl (GenericError ''queue depth observation timed out''), disposeGeneration gid p1)
         | Some (Inl e) \<Rightarrow> (Inl e, disposeGeneration gid p1)
         | Some (Inr (w, a, d, f)) \<Rightarrow>
             (Inr \<lparr>qd_waiting = or_zero w, qd_active = or_zero a, qd_delayed = or_zero d, qd_failed = or_zero f\<rparr>, p1))"

definition depth :: "raw_counts result option \<Rightarrow> (probe, queue_depth) io" where
  "depth raced p =
     (if pb_closing p then (Inl (GenericError ''queue depth probe is closing''), p) else runDepth raced p)"

definition close_probe :: "probe \<Rightarrow> probe" where
  "close_probe p =
     (if pb_closing p then p
      else (let p1 = p\<lparr>pb_closing := True\<rparr>
            in case pb_generation p1 of None \<Rightarrow> p1 | Some g \<Rightarrow> disposeGeneration g p1))"

section \<open>Checks\<close>

record latency_check =
  lc_ok :: bool
  lc_latencyMs :: "int option"

record clock_check =
  cc_ok :: bool
  cc_offsetMs :: int
  cc_rttMs :: int
  cc_ageMs :: js_num

record sale_check =
  sc_ok :: bool
  sc_initialized :: bool
  sc_stockKeyPresent :: bool

record queue_check =
  qc_ok :: bool
  qc_depth :: queue_depth

definition no_depth :: queue_depth where
  "no_depth = \<lparr>qd_waiting = 0, qd_active = 0, qd_delayed = 0, qd_failed = 0\<rparr>"

definition TIMED_OUT :: latency_check where
  "TIMED_OUT = \<lparr>lc_ok = False, lc_latencyMs = None\<rparr>"

definition TIMED_OUT_SALE :: sale_check where
  "TIMED_OUT_SALE = \<lparr>sc_ok = False, sc_initialized = False, sc_stockKeyPresent = False\<rparr>"

definition TIMED_OUT_QUEUE :: queue_check where
  "TIMED_OUT_QUEUE = \<lparr>qc_ok = False, qc_depth = no_depth\<rparr>"

record 'q pod =
  pod_api :: "'q api"
  pod_probe :: probe

definition in_api :: "('q api, 'a) io \<Rightarrow> ('q pod, 'a) io" where
  "in_api = io_part pod_api (\<lambda>a p. p\<lparr>pod_api := a\<rparr>)"

text \<open>Each check catches its own errors. A pair of stamps times the ones that report a latency.\<close>

definition checkRedis :: "int \<Rightarrow> int \<Rightarrow> ('q pod, latency_check) io" where
  "checkRedis start stop =
     io_catch
       (io_bind (in_api (api_redis ping)) (\<lambda>ok. io_return \<lparr>lc_ok = ok, lc_latencyMs = Some (stop - start)\<rparr>))
       (\<lambda>_. io_return \<lparr>lc_ok = False, lc_latencyMs = Some (stop - start)\<rparr>)"

definition checkPostgres :: "bool \<Rightarrow> int \<Rightarrow> int \<Rightarrow> ('q pod, latency_check) io" where
  "checkPostgres pg_up start stop = io_return \<lparr>lc_ok = pg_up, lc_latencyMs = Some (stop - start)\<rparr>"

definition checkClock :: "api_env \<Rightarrow> int \<Rightarrow> ('q pod, clock_check) io" where
  "checkClock env date_now p =
     (let c = ap_clock (pod_api p)
      in (Inr \<lparr>cc_ok = isFresh env date_now c, cc_offsetMs = offsetMs c, cc_rttMs = rttMs c,
               cc_ageMs = ageMs date_now c\<rparr>, p))"

definition checkSale :: "api_env \<Rightarrow> redis_time \<Rightarrow> ('q pod, sale_check) io" where
  "checkSale env time =
     io_catch
       (io_bind (in_api (api_redis (status time (API_SALE_ID env)))) (\<lambda>snapshot.
          let stockKeyPresent = ss_initialized snapshot \<and> ss_stockRemaining snapshot \<ge> 0
          in io_return \<lparr>sc_ok = stockKeyPresent, sc_initialized = ss_initialized snapshot,
               sc_stockKeyPresent = stockKeyPresent\<rparr>))
       (\<lambda>_. io_return \<lparr>sc_ok = False, sc_initialized = False, sc_stockKeyPresent = False\<rparr>)"

definition checkQueue :: "raw_counts result option \<Rightarrow> ('q pod, queue_check) io" where
  "checkQueue raced =
     io_catch
       (io_bind (io_part pod_probe (\<lambda>b p. p\<lparr>pod_probe := b\<rparr>) (depth raced)) (\<lambda>d.
          io_return \<lparr>qc_ok = True, qc_depth = d\<rparr>))
       (\<lambda>_. io_return \<lparr>qc_ok = False, qc_depth = no_depth\<rparr>)"

text \<open>The check runs on; its answer counts unless the budget was over first.\<close>

definition withBudget :: "bool \<Rightarrow> ('s, 'a) io \<Rightarrow> 'a \<Rightarrow> ('s, 'a) io" where
  "withBudget late m fallback s = (case m s of (r, s1) \<Rightarrow> (if late then Inr fallback else r, s1))"

text \<open>\<open>Promise.allSettled\<close> with \<open>settledOrDefault\<close>: a check that threw counts as its fallback.\<close>

definition settledOrDefault :: "('s, 'a) io \<Rightarrow> 'a \<Rightarrow> ('s, 'a) io" where
  "settledOrDefault m fallback = io_catch m (\<lambda>_. io_return fallback)"

record readiness_checks =
  rc_redis :: latency_check
  rc_postgres :: latency_check
  rc_clock :: clock_check
  rc_sale :: sale_check
  rc_queue :: queue_check

text \<open>What the surroundings decide: the stamps, what is late, Postgres, and the queue's answer.\<close>

record readiness_run =
  rr_date_now :: int
  rr_stamps :: "int \<times> int"
  rr_late :: "bool \<times> bool \<times> bool \<times> bool"
  rr_pg_up :: bool
  rr_time :: redis_time
  rr_queue :: "raw_counts result option"

definition getReadiness :: "api_env \<Rightarrow> readiness_run \<Rightarrow> ('q pod, bool \<times> readiness_checks) io" where
  "getReadiness env run =
     (case (rr_stamps run, rr_late run) of ((start, stop), (late_redis, late_pg, late_sale, late_queue)) \<Rightarrow>
        io_bind (settledOrDefault (withBudget late_redis (checkRedis start stop) TIMED_OUT) TIMED_OUT) (\<lambda>redis.
        io_bind (settledOrDefault (withBudget late_pg (checkPostgres (rr_pg_up run) start stop) TIMED_OUT) TIMED_OUT) (\<lambda>postgres.
        io_bind (settledOrDefault (checkClock env (rr_date_now run))
            \<lparr>cc_ok = False, cc_offsetMs = 0, cc_rttMs = 0, cc_ageMs = PosInf\<rparr>) (\<lambda>clk.
        io_bind (settledOrDefault (withBudget late_sale (checkSale env (rr_time run)) TIMED_OUT_SALE) TIMED_OUT_SALE) (\<lambda>sale.
        io_bind (settledOrDefault (withBudget late_queue (checkQueue (rr_queue run)) TIMED_OUT_QUEUE) TIMED_OUT_QUEUE) (\<lambda>queue.
          io_return (lc_ok redis \<and> cc_ok clk \<and> sc_ok sale,
            \<lparr>rc_redis = redis, rc_postgres = postgres, rc_clock = clk, rc_sale = sale, rc_queue = queue\<rparr>)))))))"

text \<open>\<open>GET /api/health/ready\<close>: the status and whether \<open>retry-after\<close> is sent.\<close>

definition get_ready :: "api_env \<Rightarrow> readiness_run \<Rightarrow> ('q pod, int \<times> (string \<times> string) list \<times> readiness_checks) io" where
  "get_ready env run =
     io_bind (getReadiness env run) (\<lambda>(healthy, checks).
       io_return (if healthy then 200 else 503, if healthy then [] else [(''retry-after'', ''1'')], checks))"

section \<open>Facts\<close>

lemma check_returns:
  "\<exists>x s'. checkRedis start stop s = (Inr x, s') \<and> ap_clock (pod_api s') = ap_clock (pod_api s)"
  "\<exists>x s'. checkSale env time s = (Inr x, s')"
  "\<exists>x s'. checkQueue raced s = (Inr x, s')"
  by (auto simp: checkRedis_def checkSale_def checkQueue_def io_catch_def io_bind_def Let_def in_api_def io_part_def
      api_redis_def on_redis_def split: prod.splits sum.splits)

text \<open>
  Only Redis, the clock and the sale can take a pod out of rotation. The readiness probe always
  answers; it answers 200 exactly when the Redis check, the clock check and the sale check passed
  in time, and 503 with \<open>retry-after\<close> otherwise, whatever Postgres and the queue report.
\<close>

lemma readiness_rule:
  "\<exists>checks p'. get_ready env run p =
      (Inr (if lc_ok (rc_redis checks) \<and> isFresh env (rr_date_now run) (ap_clock (pod_api p)) \<and> sc_ok (rc_sale checks)
            then (200, [], checks) else (503, [(''retry-after'', ''1'')], checks)), p')
     \<and> rc_postgres checks = (if fst (snd (rr_late run)) then TIMED_OUT
         else \<lparr>lc_ok = rr_pg_up run, lc_latencyMs = Some (snd (rr_stamps run) - fst (rr_stamps run))\<rparr>)
     \<and> (rr_queue run = None \<longrightarrow> \<not> qc_ok (rc_queue checks))"
proof -
  obtain start stop where st: "rr_stamps run = (start, stop)" by (cases "rr_stamps run")
  obtain l1 l2 l3 l4 where late: "rr_late run = (l1, l2, l3, l4)" by (cases "rr_late run")
  obtain redis s1 where r: "checkRedis start stop p = (Inr redis, s1)" "ap_clock (pod_api s1) = ap_clock (pod_api p)"
    using check_returns(1) by metis
  obtain sale s2 where s: "checkSale env (rr_time run) s1 = (Inr sale, s2)" using check_returns(2) by metis
  obtain q s3 where q: "checkQueue (rr_queue run) s2 = (Inr q, s3)" using check_returns(3) by metis
  have "\<not> qc_ok q" if "rr_queue run = None"
    using q that by (auto simp: checkQueue_def io_catch_def io_bind_def io_part_def depth_def runDepth_def Let_def
        split: prod.splits sum.splits if_splits option.splits)
  let ?clk = "ap_clock (pod_api p)"
  let ?checks = "\<lparr>rc_redis = if l1 then TIMED_OUT else redis,
     rc_postgres = if l2 then TIMED_OUT else \<lparr>lc_ok = rr_pg_up run, lc_latencyMs = Some (stop - start)\<rparr>,
     rc_clock = \<lparr>cc_ok = isFresh env (rr_date_now run) ?clk, cc_offsetMs = offsetMs ?clk, cc_rttMs = rttMs ?clk,
       cc_ageMs = ageMs (rr_date_now run) ?clk\<rparr>,
     rc_sale = if l3 then TIMED_OUT_SALE else sale, rc_queue = if l4 then TIMED_OUT_QUEUE else q\<rparr>"
  have "getReadiness env run p = (Inr (lc_ok (rc_redis ?checks) \<and> isFresh env (rr_date_now run) ?clk
      \<and> sc_ok (rc_sale ?checks), ?checks), s3)"
    by (simp add: getReadiness_def st late checkPostgres_def checkClock_def settledOrDefault_def withBudget_def
        io_catch_def io_bind_def Let_def r s q del: if_split)
  then have "get_ready env run p = (Inr (if lc_ok (rc_redis ?checks) \<and> isFresh env (rr_date_now run) ?clk
      \<and> sc_ok (rc_sale ?checks) then (200, [], ?checks) else (503, [(''retry-after'', ''1'')], ?checks)), s3)"
    by (simp add: get_ready_def io_bind_def)
  moreover have "rr_queue run = None \<longrightarrow> \<not> qc_ok (rc_queue ?checks)"
    using \<open>rr_queue run = None \<Longrightarrow> \<not> qc_ok q\<close> by (simp add: TIMED_OUT_QUEUE_def)
  moreover have "rc_postgres ?checks = (if fst (snd (rr_late run)) then TIMED_OUT
      else \<lparr>lc_ok = rr_pg_up run, lc_latencyMs = Some (snd (rr_stamps run) - fst (rr_stamps run))\<rparr>)"
    by (simp add: st late)
  ultimately show ?thesis by (intro exI [of _ ?checks] exI [of _ s3] conjI)
qed

text \<open>
  The probe and the status route agree on whether the sale can be served. At the same clock
  reading and state of Redis the sale check passes exactly when the status route answers with a
  body; when the stock key is lost both refuse, and the route's refusal is rendered as 503.
\<close>

lemma sale_check_agrees:
  "\<exists>x p' answer a'. checkSale env time p = (Inr x, p') \<and> getSaleStatus env time (pod_api p) = (Inr answer, a')
     \<and> (sc_ok x \<longleftrightarrow> (\<exists>body. answer = Inr body))
     \<and> (case answer of
          Inr body \<Rightarrow> \<exists>n. js_get body ''stockRemaining'' = JNum (Fin n) \<and> 0 \<le> n
        | Inl e \<Rightarrow> rp_status (catch_exception env uuid t rq e) \<in> {500, 503})"
proof -
  obtain r srv where st: "status time (API_SALE_ID env) (w_redis (ap_world (pod_api p))) = (r, srv)"
    by (cases "status time (API_SALE_ID env) (w_redis (ap_world (pod_api p)))")
  note call = api_redis_step [of "status time (API_SALE_ID env)" "pod_api p", OF st]
  have out: "parse_attempt_outcome (JStr ''NOT_INITIALIZED'') = Some (Decided NOT_INITIALIZED)"
    using parse_outcome_text [of "Decided NOT_INITIALIZED"] by simp
  show ?thesis
  proof (cases r)
    case (Inl e)
    then show ?thesis
      by (simp add: checkSale_def getSaleStatus_def io_catch_def io_bind_def in_api_def io_part_def call
          catch_exception_def isBodyParseFailure_def sendApiError_def Let_def)
  next
    case (Inr snap)
    then show ?thesis
      by (cases "servable snap")
        (auto simp: checkSale_def getSaleStatus_def io_catch_def io_bind_def in_api_def io_part_def call servable_def
          catch_exception_def isBodyParseFailure_def extractOutcomePayload_def out respond_def Let_def)
  qed
qed

end
