(* ===== verification/Web_Client.thy ===== *)
theory Web_Client
  imports Api_Health Complex_Main
begin

text \<open>
  The browser's side of the interface, apps/web/src: the decoders of api/decoders.ts, the client of
  api/client.ts, and lib/user-id.ts and lib/time.ts. A decoder gives back the value it accepts, as
  the code does. Numbers are those of \<^typ>\<open>js_value\<close>: the API sends integers only, and a fraction in
  a body is outside the model. \<open>Date.parse\<close>, whose answer on arbitrary text the language leaves to
  the implementation, is an argument; \<open>fetch\<close> is the network, also an argument.
\<close>

section \<open>Decoders\<close>

type_synonym date_parse = "string \<Rightarrow> js_num"

definition is_object :: "js_value \<Rightarrow> bool" where
  "is_object v = (case v of JObj _ \<Rightarrow> True | _ \<Rightarrow> False)"

definition is_string :: "js_value \<Rightarrow> bool" where
  "is_string v = (case v of JStr _ \<Rightarrow> True | _ \<Rightarrow> False)"

definition is_bool :: "js_value \<Rightarrow> bool" where
  "is_bool v = (case v of JBool _ \<Rightarrow> True | _ \<Rightarrow> False)"

definition finite_number :: "js_value \<Rightarrow> bool" where
  "finite_number v = (case v of JNum n \<Rightarrow> is_finite n | _ \<Rightarrow> False)"

definition js_number :: "js_value \<Rightarrow> js_num" where
  "js_number v = (case v of JNum n \<Rightarrow> n | _ \<Rightarrow> NaN)"

definition is_integer :: "js_value \<Rightarrow> bool" where
  "is_integer v \<longleftrightarrow> finite_number v"

definition is_count :: "js_value \<Rightarrow> bool" where
  "is_count v \<longleftrightarrow> is_integer v \<and> js_le (Fin 0) (js_number v)"

definition nullableCount :: "js_value \<Rightarrow> bool" where
  "nullableCount v \<longleftrightarrow> v = JNull \<or> is_count v"

definition is_iso :: "date_parse \<Rightarrow> js_value \<Rightarrow> bool" where
  "is_iso parse v = (case v of JStr s \<Rightarrow> is_finite (parse s) | _ \<Rightarrow> False)"

definition is_member :: "string list \<Rightarrow> js_value \<Rightarrow> bool" where
  "is_member vals v = (case v of JStr s \<Rightarrow> s \<in> set vals | _ \<Rightarrow> False)"

definition SALE_STATES :: "string list" where
  "SALE_STATES = map sale_state_text [Upcoming, Active, Sold_out, Ended]"

definition ORDER_STATUSES :: "string list" where
  "ORDER_STATUSES = map order_status_text [Reserved, Persisted, Compensated]"

definition accept :: "bool \<Rightarrow> js_value \<Rightarrow> js_value option" where
  "accept ok v = (if ok then Some v else None)"

definition decodeSaleStatus :: "date_parse \<Rightarrow> js_value \<Rightarrow> js_value option" where
  "decodeSaleStatus parse v =
     accept (is_object v
       \<and> is_string (js_get v ''saleId'') \<and> is_string (js_get v ''name'')
       \<and> is_member SALE_STATES (js_get v ''status'')
       \<and> is_iso parse (js_get v ''startsAt'') \<and> is_iso parse (js_get v ''endsAt'')
       \<and> is_integer (js_get v ''startsAtMs'') \<and> is_integer (js_get v ''endsAtMs'')
       \<and> is_count (js_get v ''totalStock'') \<and> is_count (js_get v ''stockRemaining'')
       \<and> \<not> js_lt (js_number (js_get v ''totalStock'')) (js_number (js_get v ''stockRemaining''))
       \<and> is_iso parse (js_get v ''serverTime'') \<and> is_integer (js_get v ''serverTimeMs'')) v"

definition decodePurchase :: "date_parse \<Rightarrow> js_value \<Rightarrow> js_value option" where
  "decodePurchase parse v =
     accept (is_object v
       \<and> is_member (map outcome_text ATTEMPT_OUTCOMES) (js_get v ''status'')
       \<and> is_string (js_get v ''userId'') \<and> is_string (js_get v ''saleId'')
       \<and> nullableCount (js_get v ''stockRemaining'')
       \<and> is_iso parse (js_get v ''serverTime'') \<and> is_integer (js_get v ''serverTimeMs'')
       \<and> (js_get v ''message'' = JUndefined \<or> is_string (js_get v ''message''))) v"

text \<open>An order is shown only together with the flag that its status calls for.\<close>

definition decode_order :: "date_parse \<Rightarrow> js_value \<Rightarrow> js_value \<Rightarrow> bool" where
  "decode_order parse purchased order =
     (if order \<noteq> JNull then
        is_object order \<and> is_member ORDER_STATUSES (js_get order ''status'')
        \<and> (js_get order ''createdAt'' = JNull \<or> is_iso parse (js_get order ''createdAt''))
        \<and> (if js_get order ''status'' = JStr ''compensated'' then purchased \<noteq> JBool True else purchased = JBool True)
      else purchased \<noteq> JBool True)"

definition decodePurchaseStatus :: "date_parse \<Rightarrow> js_value \<Rightarrow> js_value option" where
  "decodePurchaseStatus parse v =
     accept (is_object v \<and> is_string (js_get v ''userId'') \<and> is_string (js_get v ''saleId'')
       \<and> is_bool (js_get v ''purchased'')
       \<and> is_iso parse (js_get v ''serverTime'') \<and> is_integer (js_get v ''serverTimeMs'')
       \<and> decode_order parse (js_get v ''purchased'') (js_get v ''order'')) v"

definition decodeApiError :: "date_parse \<Rightarrow> js_value \<Rightarrow> js_value option" where
  "decodeApiError parse v =
     accept (is_object v \<and> is_string (js_get v ''error'') \<and> is_string (js_get v ''message'')
       \<and> is_string (js_get v ''requestId'')
       \<and> is_iso parse (js_get v ''serverTime'') \<and> is_integer (js_get v ''serverTimeMs'')) v"

definition decodeSaleMetrics :: "date_parse \<Rightarrow> js_value \<Rightarrow> js_value option" where
  "decodeSaleMetrics parse v =
     accept (is_object v \<and> is_string (js_get v ''saleId'') \<and> is_object (js_get v ''metrics'')
       \<and> list_all (\<lambda>f. is_count (js_get (js_get v ''metrics'') (metric_field_text f))) SALE_METRIC_FIELDS
       \<and> is_iso parse (js_get v ''serverTime'') \<and> is_integer (js_get v ''serverTimeMs'')) v"

definition latency :: "js_value \<Rightarrow> bool" where
  "latency v \<longleftrightarrow> v = JNull \<or> finite_number v \<and> js_le (Fin 0) (js_number v)"

definition decode_checks :: "js_value \<Rightarrow> bool" where
  "decode_checks c \<longleftrightarrow> is_object c
     \<and> (let redis = js_get c ''redis'' in is_object redis \<and> is_bool (js_get redis ''ok'') \<and> latency (js_get redis ''latencyMs''))
     \<and> (let pg = js_get c ''postgres'' in is_object pg \<and> is_bool (js_get pg ''ok'') \<and> latency (js_get pg ''latencyMs''))
     \<and> (let clock = js_get c ''clock'' in is_object clock \<and> is_bool (js_get clock ''ok'')
          \<and> finite_number (js_get clock ''offsetMs'') \<and> finite_number (js_get clock ''rttMs'')
          \<and> finite_number (js_get clock ''ageMs''))
     \<and> (let sale = js_get c ''sale'' in is_object sale \<and> is_bool (js_get sale ''ok'')
          \<and> is_bool (js_get sale ''initialized'') \<and> is_bool (js_get sale ''stockKeyPresent''))
     \<and> (let q = js_get c ''queue'' in is_object q \<and> is_bool (js_get q ''ok'')
          \<and> is_count (js_get q ''waiting'') \<and> is_count (js_get q ''active'')
          \<and> is_count (js_get q ''delayed'') \<and> is_count (js_get q ''failed''))"

definition decodeReadiness :: "date_parse \<Rightarrow> js_value \<Rightarrow> js_value option" where
  "decodeReadiness parse v =
     accept (is_object v \<and> is_member [''ok'', ''degraded''] (js_get v ''status'')
       \<and> js_get v ''service'' = JStr ''api''
       \<and> is_string (js_get v ''version'') \<and> finite_number (js_get v ''uptimeSeconds'')
       \<and> \<not> js_lt (js_number (js_get v ''uptimeSeconds'')) (Fin 0)
       \<and> is_string (js_get v ''requestId'')
       \<and> is_iso parse (js_get v ''serverTime'') \<and> is_integer (js_get v ''serverTimeMs'')
       \<and> decode_checks (js_get v ''checks'')) v"

section \<open>The client\<close>

datatype error_kind = Network | Timeout | Invalid_response | Http

datatype client_error = ApiClientError error_kind string "int option"

record timed =
  t_data :: js_value
  t_sentAtMs :: int
  t_receivedAtMs :: int
  t_retryAfterSeconds :: "int option"

text \<open>\<open>/^[0-9]+$/\<close>, a safe integer, clamped to ten seconds.\<close>

definition parseRetryAfter :: "string option \<Rightarrow> int option" where
  "parseRetryAfter value =
     (case value of
        None \<Rightarrow> None
      | Some s \<Rightarrow>
          (case parse_digits s of
             None \<Rightarrow> None
           | Some n \<Rightarrow> if is_safe_integer (Fin (int n)) then Some (min 10 (max 0 (int n))) else None))"

text \<open>\<open>Headers.get\<close>: the values of all headers of that name, joined; \<open>Response.ok\<close>.\<close>

fun join_values :: "string list \<Rightarrow> string" where
  "join_values [] = []"
| "join_values [v] = v"
| "join_values (v # w # vs) = v @ '', '' @ join_values (w # vs)"

definition header_get :: "(string \<times> string) list \<Rightarrow> string \<Rightarrow> string option" where
  "header_get headers name =
     (case filter (\<lambda>(k, _). k = name) headers of [] \<Rightarrow> None | hs \<Rightarrow> Some (join_values (map snd hs)))"

definition response_ok :: "int \<Rightarrow> bool" where
  "response_ok st \<longleftrightarrow> 200 \<le> st \<and> st \<le> 299"

text \<open>
  What becomes of one call of \<open>fetch\<close>: it rejects, with the timer of \<open>abortSignals\<close> fired or not; or
  the response arrives and its body cannot be read as JSON; or it can.
\<close>

datatype fetch_fate = Fetch_rejects bool | Unreadable | Responds http_reply

record api_call =
  ac_method :: string
  ac_url :: string
  ac_body :: "js_value option"
  ac_timeoutMs :: "int option"

text \<open>\<open>abortSignals\<close>: without a timeout there is no timer that could have fired.\<close>

definition timedOut :: "int option \<Rightarrow> bool \<Rightarrow> bool" where
  "timedOut timeoutMs fired \<longleftrightarrow> timeoutMs \<noteq> None \<and> fired"

definition unexpected_response :: client_error where
  "unexpected_response = ApiClientError Invalid_response ''The server returned an unexpected response.'' None"

definition read_response ::
  "date_parse \<Rightarrow> (js_value \<Rightarrow> js_value option) \<Rightarrow> bool \<Rightarrow> int \<times> int \<Rightarrow> http_reply \<Rightarrow> client_error + timed" where
  "read_response parse decoder is_purchase stamps response =
     (let body = rp_body response;
          retryAfterSeconds = parseRetryAfter (header_get (rp_headers response) ''retry-after'');
          data = decoder body;
          failed = (if \<not> response_ok (rp_status response) \<and> decodeApiError parse body \<noteq> None
                    then ApiClientError Http ''The service is temporarily unavailable.'' retryAfterSeconds
                    else unexpected_response)
      in case data of
           None \<Rightarrow> Inl failed
         | Some d \<Rightarrow>
             if is_purchase \<and> js_get d ''status'' = JStr ''CONFIRMED''
                \<and> rp_status response \<noteq> int (PURCHASE_OUTCOME_HTTP_STATUS (Decided CONFIRMED))
             then Inl unexpected_response
             else if response_ok (rp_status response) \<or> is_purchase
             then Inr \<lparr>t_data = d, t_sentAtMs = fst stamps, t_receivedAtMs = snd stamps,
                       t_retryAfterSeconds = retryAfterSeconds\<rparr>
             else Inl failed)"

definition request_api ::
  "date_parse \<Rightarrow> (js_value \<Rightarrow> js_value option) \<Rightarrow> bool \<Rightarrow> (api_call \<Rightarrow> fetch_fate) \<Rightarrow> int \<times> int \<Rightarrow> api_call \<Rightarrow>
   client_error + timed" where
  "request_api parse decoder is_purchase fetch stamps call =
     (case fetch call of
        Fetch_rejects fired \<Rightarrow>
          Inl (if timedOut (ac_timeoutMs call) fired then ApiClientError Timeout ''The request timed out.'' None
               else ApiClientError Network ''The service could not be reached.'' None)
      | Unreadable \<Rightarrow> Inl (ApiClientError Invalid_response ''The server returned an unreadable response.'' None)
      | Responds response \<Rightarrow> read_response parse decoder is_purchase stamps response)"

text \<open>\<open>baseUrl.replace(/\/+$/, '')\<close>, and \<open>encodeURIComponent\<close> on code units below 256.\<close>

definition strip_slashes :: "string \<Rightarrow> string" where
  "strip_slashes url = rev (dropWhile (\<lambda>c. c = CHR ''/'') (rev url))"

definition hex_digit_char :: "nat \<Rightarrow> char" where
  "hex_digit_char d = ''0123456789ABCDEF'' ! d"

definition percent_byte :: "nat \<Rightarrow> string" where
  "percent_byte b = [CHR ''%'', hex_digit_char (b div 16), hex_digit_char (b mod 16)]"

definition is_unreserved :: "char \<Rightarrow> bool" where
  "is_unreserved c \<longleftrightarrow> is_lower c \<or> is_upper c \<or> is_digit c \<or> c \<in> set ''-_.!~*()'' \<or> (of_char c :: nat) = 39"

definition encodeURIComponent :: "string \<Rightarrow> string" where
  "encodeURIComponent s =
     concat (map (\<lambda>c. if is_unreserved c then [c]
                      else if (of_char c :: nat) < 128 then percent_byte (of_char c)
                      else percent_byte (192 + of_char c div 64) @ percent_byte (128 + of_char c mod 64)) s)"

definition get_call :: "string \<Rightarrow> string \<Rightarrow> api_call" where
  "get_call baseUrl path =
     \<lparr>ac_method = ''GET'', ac_url = strip_slashes baseUrl @ path, ac_body = None, ac_timeoutMs = Some 4000\<rparr>"

definition purchase_call :: "string \<Rightarrow> string \<Rightarrow> api_call" where
  "purchase_call baseUrl userId =
     \<lparr>ac_method = ''POST'', ac_url = strip_slashes baseUrl @ ''/purchase'',
      ac_body = Some (JObj [(''userId'', JStr (js_trim userId))]), ac_timeoutMs = None\<rparr>"

text \<open>The five operations of the client; \<open>stamps\<close> are its two readings of the clock.\<close>

definition client_getSaleStatus ::
  "date_parse \<Rightarrow> string \<Rightarrow> (api_call \<Rightarrow> fetch_fate) \<Rightarrow> int \<times> int \<Rightarrow> client_error + timed" where
  "client_getSaleStatus parse baseUrl fetch stamps =
     request_api parse (decodeSaleStatus parse) False fetch stamps (get_call baseUrl ''/sale/status'')"

definition client_purchase ::
  "date_parse \<Rightarrow> string \<Rightarrow> (api_call \<Rightarrow> fetch_fate) \<Rightarrow> int \<times> int \<Rightarrow> string \<Rightarrow> client_error + timed" where
  "client_purchase parse baseUrl fetch stamps userId =
     request_api parse (decodePurchase parse) True fetch stamps (purchase_call baseUrl userId)"

definition client_getPurchaseStatus ::
  "date_parse \<Rightarrow> string \<Rightarrow> (api_call \<Rightarrow> fetch_fate) \<Rightarrow> int \<times> int \<Rightarrow> string \<Rightarrow> client_error + timed" where
  "client_getPurchaseStatus parse baseUrl fetch stamps userId =
     request_api parse (decodePurchaseStatus parse) False fetch stamps
       (get_call baseUrl (''/purchase/'' @ encodeURIComponent userId))"

definition client_getSaleMetrics ::
  "date_parse \<Rightarrow> string \<Rightarrow> (api_call \<Rightarrow> fetch_fate) \<Rightarrow> int \<times> int \<Rightarrow> client_error + timed" where
  "client_getSaleMetrics parse baseUrl fetch stamps =
     request_api parse (decodeSaleMetrics parse) False fetch stamps (get_call baseUrl ''/sale/metrics'')"

definition client_getReadiness ::
  "date_parse \<Rightarrow> string \<Rightarrow> (api_call \<Rightarrow> fetch_fate) \<Rightarrow> int \<times> int \<Rightarrow> client_error + timed" where
  "client_getReadiness parse baseUrl fetch stamps =
     request_api parse (decodeReadiness parse) False fetch stamps (get_call baseUrl ''/health/ready'')"

section \<open>The readiness report on the wire\<close>

text \<open>
  The body of \<open>GET /api/health/ready\<close> as JSON, in which a number that is not finite becomes
  \<open>null\<close>; \<open>uptimeSeconds\<close> is counted in whole seconds here.
\<close>

definition json_number :: "js_num \<Rightarrow> js_value" where
  "json_number n = (if is_finite n then JNum n else JNull)"

definition latency_json :: "latency_check \<Rightarrow> js_value" where
  "latency_json c = JObj [(''ok'', JBool (lc_ok c)), (''latencyMs'', nullable (lc_latencyMs c))]"

definition checks_json :: "readiness_checks \<Rightarrow> js_value" where
  "checks_json c =
     JObj [(''redis'', latency_json (rc_redis c)), (''postgres'', latency_json (rc_postgres c)),
           (''clock'', JObj [(''ok'', JBool (cc_ok (rc_clock c))), (''offsetMs'', JNum (Fin (cc_offsetMs (rc_clock c)))),
              (''rttMs'', JNum (Fin (cc_rttMs (rc_clock c)))), (''ageMs'', json_number (cc_ageMs (rc_clock c)))]),
           (''sale'', JObj [(''ok'', JBool (sc_ok (rc_sale c))), (''initialized'', JBool (sc_initialized (rc_sale c))),
              (''stockKeyPresent'', JBool (sc_stockKeyPresent (rc_sale c)))]),
           (''queue'', JObj [(''ok'', JBool (qc_ok (rc_queue c))),
              (''waiting'', JNum (Fin (int (qd_waiting (qc_depth (rc_queue c)))))),
              (''active'', JNum (Fin (int (qd_active (qc_depth (rc_queue c)))))),
              (''delayed'', JNum (Fin (int (qd_delayed (qc_depth (rc_queue c)))))),
              (''failed'', JNum (Fin (int (qd_failed (qc_depth (rc_queue c))))))])]"

definition readiness_body :: "nat \<Rightarrow> string \<Rightarrow> int \<Rightarrow> bool \<Rightarrow> readiness_checks \<Rightarrow> js_value" where
  "readiness_body uptime requestId serverTimeMs healthy checks =
     JObj [(''status'', JStr (if healthy then ''ok'' else ''degraded'')), (''service'', JStr ''api''),
           (''version'', JStr ''0.0.0''), (''uptimeSeconds'', JNum (Fin (int uptime))),
           (''checks'', checks_json checks), (''requestId'', JStr requestId),
           (''serverTime'', JStr (toISOString serverTimeMs)), (''serverTimeMs'', JNum (Fin serverTimeMs))]"

section \<open>User identifiers and time\<close>

definition normalizeUserId :: "string \<Rightarrow> string" where
  "normalizeUserId raw = js_trim raw"

definition validateUserId :: "string \<Rightarrow> string option" where
  "validateUserId raw =
     (let value = normalizeUserId raw
      in if length value < USER_ID_MIN_LENGTH \<or> length value > USER_ID_MAX_LENGTH \<or> \<not> USER_ID_PATTERN value
         then None else Some value)"

text \<open>
  Halves of milliseconds make the offset rational; the fractions that occur, halves of integers below
  \<open>2 ^ 52\<close>, are exact in a double.
\<close>

definition calculateServerOffset :: "int \<Rightarrow> int \<Rightarrow> int \<Rightarrow> rat" where
  "calculateServerOffset sentAtMs receivedAtMs serverTimeMs =
     of_int serverTimeMs - (of_int sentAtMs + of_int (receivedAtMs - sentAtMs) / 2)"

definition derivePresentationState :: "int \<Rightarrow> int \<Rightarrow> int \<Rightarrow> rat \<Rightarrow> sale_state" where
  "derivePresentationState starts ends stock serverNowMs =
     (if serverNowMs < of_int starts then Upcoming
      else if serverNowMs \<ge> of_int ends then Ended
      else if stock \<le> 0 then Sold_out
      else Active)"

definition countdownSeconds :: "int \<Rightarrow> rat \<Rightarrow> int" where
  "countdownSeconds targetMs serverNowMs = max 0 \<lceil>(of_int targetMs - serverNowMs) / 1000\<rceil>"

definition padStart2 :: "int \<Rightarrow> string" where
  "padStart2 n = (let t = dec_int n in replicate (2 - length t) CHR ''0'' @ t)"

definition formatCountdown :: "int \<Rightarrow> string \<times> string \<times> string" where
  "formatCountdown seconds =
     (let safe = max 0 seconds
      in (padStart2 (safe div 3600), padStart2 (safe mod 3600 div 60), padStart2 (safe mod 60)))"

section \<open>Reading what the API sends\<close>

named_theorems decode_defs \<open>the tests of the decoders\<close>

lemmas [decode_defs] = accept_def is_object_def is_string_def is_bool_def finite_number_def js_number_def
  is_integer_def is_count_def nullableCount_def is_iso_def is_member_def

text \<open>The form and the API accept the same identifiers and normalise them alike.\<close>

lemma validateUserId_schema: "validateUserId raw = userIdSchema (JStr raw)"
  by (auto simp: validateUserId_def normalizeUserId_def userIdSchema_def Let_def)

lemma validateUserId_valid: "validateUserId raw = Some u \<Longrightarrow> valid_user_id u \<and> u = js_trim raw"
  by (auto simp: validateUserId_def normalizeUserId_def valid_user_id_def Let_def split: if_splits)

text \<open>The page's state is the one the API derives, at the page's estimate of the API's clock.\<close>

lemma presentation_agrees:
  assumes "starts < ends"
  shows "deriveSaleState (sale_input now starts ends stock) = Inr (derivePresentationState starts ends stock (of_int now))"
  using assms by (simp add: deriveSaleState_Fin derivePresentationState_def)

text \<open>A reading of the offset is wrong by at most half the round trip.\<close>

lemma server_offset_bound:
  assumes "sent \<le> stamped" "stamped \<le> received" "serverTimeMs = stamped + offset"
  shows "\<bar>calculateServerOffset sent received serverTimeMs - of_int offset\<bar> \<le> of_int (received - sent) / 2"
proof -
  have "(of_int sent :: rat) \<le> of_int stamped" "(of_int stamped :: rat) \<le> of_int received" using assms by simp_all
  then show ?thesis using assms(3) by (simp add: calculateServerOffset_def abs_le_iff field_simps)
qed

lemma parseRetryAfter_range: "parseRetryAfter v = Some n \<Longrightarrow> 0 \<le> n \<and> n \<le> 10"
  by (auto simp: parseRetryAfter_def split: option.splits if_splits)

lemma known_outcome: "outcome_text out \<in> set (map outcome_text ATTEMPT_OUTCOMES)"
  using ATTEMPT_OUTCOMES_complete [of out] by simp

lemma decode_envelope:
  assumes "is_finite (parse (toISOString t))" and "case stock of None \<Rightarrow> True | Some n \<Rightarrow> 0 \<le> n"
  shows "decodePurchase parse (buildPurchaseEnvelope out u s stock t) = Some (buildPurchaseEnvelope out u s stock t)"
  using assms known_outcome [of out]
  by (cases stock) (simp_all add: decodePurchase_def buildPurchaseEnvelope_def nullable_def decode_defs)

lemma decode_outcome_body:
  assumes "is_finite (parse (toISOString t))"
  shows "decodePurchase parse (outcome_body env out PURCHASE_ROUTE_PATH rid t u)
     = Some (outcome_body env out PURCHASE_ROUTE_PATH rid t u)"
  using assms known_outcome [of out] by (simp add: decodePurchase_def outcome_body_def decode_defs)

lemma decode_error_body:
  assumes "is_finite (parse (toISOString t))"
  shows "decodeApiError parse (buildApiErrorResponse code m rid t) = Some (buildApiErrorResponse code m rid t)"
  using assms by (simp add: decodeApiError_def buildApiErrorResponse_def decode_defs)

text \<open>A stock that the purchase script reports for a decided attempt is never negative.\<close>

lemma redis_call_Inr:
  assumes "redis_call cmd srv = (Inr v, srv1)"
  obtains srv0 where "cmd srv0 = (Inr v, srv1)"
  using assms that by (auto simp: redis_call_def split: list.splits delivery.splits)

lemma runScript_value:
  assumes "runScript script keys saleId body srv = (Inr v, srv1)"
  shows "\<exists>s. v = fst (body s)"
proof -
  have on: "\<exists>s. v = fst (body s)" if "on_sale saleId body srv0 = (Inr v, srv1)" for srv0
    using that by (cases "body (sales srv0 saleId)") (auto simp: on_sale_def intro: exI [of _ "sales srv0 saleId"])
  obtain r srv0 where first: "redis_call (EVALSHA script (on_sale saleId body)) srv = (r, srv0)"
    by (cases "redis_call (EVALSHA script (on_sale saleId body)) srv")
  show ?thesis
  proof (cases r)
    case (Inr w)
    with first assms have "redis_call (EVALSHA script (on_sale saleId body)) srv = (Inr v, srv1)"
      by (auto simp: runScript_def io_catch_def split: if_splits)
    then show ?thesis by (rule redis_call_Inr) (auto simp: EVALSHA_def on split: if_splits)
  next
    case (Inl e)
    with first assms have "redis_call (EVAL script (on_sale saleId body)) srv0 = (Inr v, srv1)"
      by (auto simp: runScript_def io_catch_def split: if_splits)
    then show ?thesis by (rule redis_call_Inr) (auto simp: EVAL_def on)
  qed
qed

lemma purchase_lua_stock: "pur_code (fst (purchase_lua t u r s)) = ''NOT_INITIALIZED'' \<or> 0 \<le> pur_stock (fst (purchase_lua t u r s))"
  by (auto simp: purchase_lua_def Let_def split: option.splits)

lemma purchase_stock:
  assumes run: "purchase r t saleId u srv = (Inr res, srv1)" and init: "pr_outcome res \<noteq> NOT_INITIALIZED"
  shows "0 \<le> pr_stockRemaining res"
proof -
  have "\<exists>(k :: sale_keys) raw. runScript PURCHASE_SCRIPT [k_config k, k_stock k, k_buyers k, k_reservations k] saleId
      (purchase_lua t u r) srv = (Inr raw, srv1) \<and> assertMember (pur_code raw) purchase_codes = Inr (pr_outcome res)
      \<and> pr_stockRemaining res = pur_stock raw"
    using run by (auto simp: purchase_def io_bind_def split: prod.splits sum.splits) blast
  then obtain s where s: "assertMember (pur_code (fst (purchase_lua t u r s))) purchase_codes = Inr (pr_outcome res)"
    "pr_stockRemaining res = pur_stock (fst (purchase_lua t u r s))"
    using runScript_value by metis
  obtain p where "pur_code (fst (purchase_lua t u r s)) = purchase_outcome_text p"
    using purchase_lua_code by blast
  with s(1) have "pur_code (fst (purchase_lua t u r s)) = purchase_outcome_text (pr_outcome res)"
    by (simp add: assertMember_purchase)
  with purchase_lua_stock [of t u r s] init s(2) show ?thesis by (cases "pr_outcome res") auto
qed

text \<open>Every decision of the purchase service can be shown: its stock is absent or not negative.\<close>

lemma decision_stock:
  assumes "service_purchase ops env pu u rid a = (Inr d, a')"
  shows "case de_stockRemaining d of None \<Rightarrow> True | Some n \<Rightarrow> 0 \<le> n"
proof (cases "evaluateFastPathGuard env (ap_clock a) (ap_cache a) (pu_readings pu)")
  case (Some g)
  from service_purchase_guarded [OF Some, of ops u rid] have "de_stockRemaining d = None"
    using assms by (metis Inr_inject Pair_inject purchase_decision.select_convs(2))
  then show ?thesis by simp
next
  case None
  obtain r srv where st: "purchase (pu_reservationId pu) (pu_time pu) (API_SALE_ID env) u (w_redis (ap_world a)) = (r, srv)"
    by (cases "purchase (pu_reservationId pu) (pu_time pu) (API_SALE_ID env) u (w_redis (ap_world a))")
  show ?thesis
  proof (cases r)
    case (Inl e)
    then show ?thesis using None assms
      api_redis_step [of "purchase (pu_reservationId pu) (pu_time pu) (API_SALE_ID env) u" a, OF st]
      by (auto simp: service_purchase_def store_purchase_or_none_def io_catch_def io_bind_def)
  next
    case (Inr res)
    from service_purchase_answered [OF None st [unfolded Inr], of ops rid] have "d = decision_of res"
      using assms by (metis Inr_inject Pair_inject)
    then show ?thesis using purchase_stock [OF st [unfolded Inr]] by (simp add: decision_of_def)
  qed
qed

text \<open>The replies of the purchase route, each with its outcome.\<close>

definition route_reply :: "api_env \<Rightarrow> attempt_outcome \<Rightarrow> int \<Rightarrow> http_reply \<Rightarrow> bool" where
  "route_reply env out t reply \<longleftrightarrow> rp_status reply = int (PURCHASE_OUTCOME_HTTP_STATUS out)
     \<and> ((\<exists>u stock. rp_body reply = buildPurchaseEnvelope out u (API_SALE_ID env) stock t
            \<and> (case stock of None \<Rightarrow> True | Some n \<Rightarrow> 0 \<le> n))
        \<or> (\<exists>rid u. rp_body reply = outcome_body env out PURCHASE_ROUTE_PATH rid t u))"

lemma route_replyI:
  assumes "rp_status reply = int (PURCHASE_OUTCOME_HTTP_STATUS out)"
    and "rp_body reply = outcome_body env out PURCHASE_ROUTE_PATH rid t u"
  shows "route_reply env out t reply"
  using assms unfolding route_reply_def by blast

lemma post_purchase_reply:
  assumes route: "requestPath rq = PURCHASE_ROUTE_PATH"
    and run: "post_purchase ops env pu rid issues d now rq a = (Inr reply, a')"
  shows "\<exists>out t. route_reply env out t reply"
proof -
  obtain v lim where act: "canActivate env d now rq (ap_limiter a) = (v, lim)" by (cases "canActivate env d now rq (ap_limiter a)")
  show ?thesis
  proof (cases v)
    case (Reject h e)
    then obtain c where e: "e = Http_exception 429 (JObj [(''outcome'', JStr ''RATE_LIMITED''), (''userId'', JStr c)]) False"
      using act by (auto simp: canActivate_def reject_def split: option.splits prod.splits sum.splits if_splits)
    have "parse_attempt_outcome (JStr ''RATE_LIMITED'') = Some (Refused RATE_LIMITED)"
      using parse_outcome_text [of "Refused RATE_LIMITED"] by simp
    with run act Reject e route show ?thesis
      by (intro exI [of _ "Refused RATE_LIMITED"] exI [of _ "nowMs (pu_date_now pu) (ap_clock a)"] route_replyI)
        (auto simp: post_purchase_def Let_def catch_exception_def isBodyParseFailure_def extractOutcomePayload_def
          respond_def)
  next
    case Allow
    show ?thesis
    proof (cases "zod_transform issues (rq_body rq)")
      case (Inl e)
      then have "catch_exception env rid t rq e = respond env 422 (Refused INVALID_USER_ID) PURCHASE_ROUTE_PATH
          (requestIdFromFastify rid rq) t (sanitizeUserIdEcho (extractRawUserId (rq_body rq)))" for t
        using invalid_body_is_422 [where issues = issues and v = "rq_body rq" and env = env and uuid = rid and t = t and rq = rq] route by simp
      with run act Allow Inl show ?thesis
        by (intro exI [of _ "Refused INVALID_USER_ID"] exI [of _ "nowMs (pu_date_now pu) (ap_clock a)"] route_replyI)
          (auto simp: post_purchase_def Let_def respond_def)
    next
      case (Inr u)
      with run act Allow obtain dec a1 where
        dec: "service_purchase ops env pu u (requestIdFromFastify rid rq) a1 = (Inr dec, a')"
        "reply = render_decision env u dec"
        by (auto simp: post_purchase_def Let_def io_bind_Inr)
      then show ?thesis using decision_stock [OF dec(1)]
        by (intro exI [of _ "de_outcome dec"] exI [of _ "de_serverTimeMs dec"])
          (auto simp: route_reply_def render_decision_def Let_def)
    qed
  qed
qed

lemma reply_fields:
  assumes "route_reply env out t reply"
  shows "js_get (rp_body reply) ''status'' = JStr (outcome_text out)"
    "js_get (rp_body reply) ''serverTimeMs'' = JNum (Fin t)"
  using assms by (auto simp: route_reply_def buildPurchaseEnvelope_def outcome_body_def)

lemma reply_is_decoded:
  assumes "route_reply env out t reply" "is_finite (parse (toISOString t))"
  shows "decodePurchase parse (rp_body reply) = Some (rp_body reply)"
  using assms by (auto simp: route_reply_def decode_envelope decode_outcome_body)

section \<open>Properties\<close>

text \<open>
  What the decoders rely on: \<open>Date.parse\<close> reads back every instant of the years 1970 to 9999 that
  \<open>toISOString\<close> writes.
\<close>

definition date_laws :: "date_parse \<Rightarrow> bool" where
  "date_laws parse \<longleftrightarrow> (\<forall>t. 0 \<le> t \<and> t < 253402300800000 \<longrightarrow> is_finite (parse (toISOString t)))"

lemma date_lawsD: "date_laws parse \<Longrightarrow> 0 \<le> t \<Longrightarrow> t < 253402300800000 \<Longrightarrow> is_finite (parse (toISOString t))"
  by (simp add: date_laws_def)

text \<open>The client reads a reply of the purchase route as the data it is.\<close>

lemma client_reads_reply:
  assumes rep: "route_reply env out t reply" and iso: "is_finite (parse (toISOString t))"
    and net: "fetch (purchase_call baseUrl userId) = Responds reply"
  shows "client_purchase parse baseUrl fetch stamps userId = Inr \<lparr>t_data = rp_body reply, t_sentAtMs = fst stamps,
      t_receivedAtMs = snd stamps,
      t_retryAfterSeconds = parseRetryAfter (header_get (rp_headers reply) ''retry-after'')\<rparr>"
proof -
  note dec = reply_is_decoded [of env out t reply parse, OF rep iso] and st = reply_fields(1) [OF rep]
  have code: "rp_status reply = int (PURCHASE_OUTCOME_HTTP_STATUS out)" using rep by (simp add: route_reply_def)
  have "out = Decided CONFIRMED" if "outcome_text out = ''CONFIRMED''"
    using that outcome_text_inject [of out "Decided CONFIRMED"] by simp
  then show ?thesis using net dec st code
    by (auto simp: client_purchase_def request_api_def read_response_def Let_def)
qed

text \<open>The 201 gate: data that says \<open>CONFIRMED\<close> came with status 201.\<close>

lemma told_confirmed:
  assumes run: "client_purchase parse baseUrl fetch stamps userId = Inr told"
    and says: "js_get (t_data told) ''status'' = JStr ''CONFIRMED''"
  obtains reply where "fetch (purchase_call baseUrl userId) = Responds reply"
    and "t_data told = rp_body reply" and "rp_status reply = 201"
proof -
  from run obtain reply where r: "fetch (purchase_call baseUrl userId) = Responds reply"
    "read_response parse (decodePurchase parse) True stamps reply = Inr told"
    by (auto simp: client_purchase_def request_api_def split: fetch_fate.splits)
  from r(2) says have "t_data told = rp_body reply" "rp_status reply = 201"
    by (auto simp: read_response_def Let_def decodePurchase_def accept_def split: option.splits if_splits)
  with r(1) show thesis by (rule that)
qed

text \<open>
  C10: the page never claims a card that the sale does not hold. Suppose the network hands the
  client either the API's own reply to the request that the client sent, or no readable reply at
  all. When the client then reports a purchase as \<open>CONFIRMED\<close>, the identifier typed in is valid
  once trimmed, that user held nothing before, and the ledger now holds the reservation made for
  this request; the data name the same user.
\<close>

theorem told_confirmed_is_backed:
  assumes id: "SALE_ID_PATTERN (API_SALE_ID env)" and up: "link (w_redis (ap_world a)) = []"
    and uuid: "UUID_PATTERN (pu_reservationId pu)"
    and body: "ac_body (purchase_call baseUrl userId) = Some (rq_body rq)"
    and served: "post_purchase ops env pu rid issues d now rq a = (Inr reply, a')"
    and net: "fetch (purchase_call baseUrl userId) \<in> {Fetch_rejects True, Fetch_rejects False, Unreadable, Responds reply}"
    and told: "client_purchase parse baseUrl fetch stamps userId = Inr told"
      "js_get (t_data told) ''status'' = JStr ''CONFIRMED''"
  shows "validateUserId userId = Some (js_trim userId)
     \<and> ledger_id (sales (w_redis (ap_world a)) (API_SALE_ID env)) (js_trim userId) = None
     \<and> ledger_id (sales (w_redis (ap_world a')) (API_SALE_ID env)) (js_trim userId) = Some (pu_reservationId pu)
     \<and> js_get (t_data told) ''userId'' = JStr (js_trim userId)"
proof -
  obtain r where r: "fetch (purchase_call baseUrl userId) = Responds r" "t_data told = rp_body r" "rp_status r = 201"
    by (rule told_confirmed [OF told])
  with net have "r = reply" by auto
  with r obtain u where u: "userIdSchema (js_get (rq_body rq) ''userId'') = Some u"
    "ledger_id (sales (w_redis (ap_world a)) (API_SALE_ID env)) u = None"
    "ledger_id (sales (w_redis (ap_world a')) (API_SALE_ID env)) u = Some (pu_reservationId pu)"
    "js_get (t_data told) ''userId'' = JStr u"
    using created_backed [OF id up uuid served] by auto
  have "rq_body rq = JObj [(''userId'', JStr (js_trim userId))]" using body by (simp add: purchase_call_def)
  then have "js_get (rq_body rq) ''userId'' = JStr (js_trim userId)" by simp
  with u(1) have "validateUserId (js_trim userId) = Some u" by (simp add: validateUserId_schema)
  with validateUserId_valid [OF this] have "u = js_trim userId" "validateUserId userId = Some u"
    by (simp_all add: validateUserId_def normalizeUserId_def)
  with u show ?thesis by simp
qed

text \<open>
  C35: whatever the purchase route answers, the client understands. Each reply of the route, be it
  a decision, a rejected body or a refusal of the limiter, is read back as the same object, with an
  outcome of the shared table whose status code is that of the reply; the client never mistakes
  one for an unreadable answer, and a retry delay it passes on is between 0 and 10 seconds.
\<close>

theorem client_understands_purchase:
  assumes laws: "date_laws parse" and route: "requestPath rq = PURCHASE_ROUTE_PATH"
    and served: "post_purchase ops env pu rid issues d now rq a = (Inr reply, a')"
    and year: "js_get (rp_body reply) ''serverTimeMs'' = JNum (Fin t)" "0 \<le> t" "t < 253402300800000"
    and net: "fetch (purchase_call baseUrl userId) = Responds reply"
  shows "\<exists>told out. client_purchase parse baseUrl fetch stamps userId = Inr told \<and> t_data told = rp_body reply
     \<and> js_get (t_data told) ''status'' = JStr (outcome_text out)
     \<and> rp_status reply = int (PURCHASE_OUTCOME_HTTP_STATUS out)
     \<and> (\<forall>n. t_retryAfterSeconds told = Some n \<longrightarrow> 0 \<le> n \<and> n \<le> 10)"
proof -
  obtain out t' where rep: "route_reply env out t' reply" using post_purchase_reply [OF route served] by blast
  with year(1) have "t' = t" using reply_fields(2) by fastforce
  with rep have "client_purchase parse baseUrl fetch stamps userId = Inr \<lparr>t_data = rp_body reply, t_sentAtMs = fst stamps,
      t_receivedAtMs = snd stamps,
      t_retryAfterSeconds = parseRetryAfter (header_get (rp_headers reply) ''retry-after'')\<rparr>"
    using client_reads_reply date_lawsD [OF laws year(2,3)] net by blast
  moreover have "rp_status reply = int (PURCHASE_OUTCOME_HTTP_STATUS out)" using rep by (simp add: route_reply_def)
  ultimately show ?thesis using reply_fields(1) [OF rep] parseRetryAfter_range by auto
qed

definition sample_parse :: date_parse where
  "sample_parse s = (if s = [] then NaN else Fin 0)"

lemma sample_date_laws: "date_laws sample_parse"
  by (simp add: date_laws_def sample_parse_def toISOString_def Let_def split: prod.split)

definition web_request :: "string \<Rightarrow> request" where
  "web_request userId = sample_request\<lparr>rq_body := JObj [(''userId'', JStr userId)]\<rparr>"

lemma web_request_route: "requestPath (web_request u) = PURCHASE_ROUTE_PATH"
  by (simp add: web_request_def sample_request_def requestPath_def PURCHASE_ROUTE_PATH_def)

theorem told_confirmed_is_backed_witness:
  "\<exists>reply a' told. post_purchase mem_ops sample_api_env sample_run_fates (sample_uuid CHR ''b'') JNull Delivered 0
       (web_request ''bob'') sample_api = (Inr reply, a')
     \<and> client_purchase sample_parse ''http://localhost:3000/api/'' (\<lambda>_. Responds reply) (0, 4) '' bob '' = Inr told
     \<and> ledger_id (sales (w_redis (ap_world a')) ''flash-2026'') ''bob'' = Some (sample_uuid CHR ''a'')
     \<and> js_get (t_data told) ''userId'' = JStr ''bob''"
proof -
  note f = sample_post_facts
  have c: "extractRateLimitCandidateUserId (rq_body (web_request ''bob'')) = Some ''bob''"
    and z: "zod_transform JNull (rq_body (web_request ''bob'')) = Inr ''bob''"
    and trim: "js_trim '' bob '' = ''bob''"
    by code_simp+
  obtain res a' where run: "post_purchase mem_ops sample_api_env sample_run_fates (sample_uuid CHR ''b'') JNull Delivered 0
      (web_request ''bob'') sample_api = (Inr (render_decision sample_api_env ''bob'' (decision_of res)), a')"
      (is "_ = (Inr ?reply, _)") and ok: "pr_outcome res = CONFIRMED"
    by (rule sample_post_confirms [OF c z])
  obtain out t where rep: "route_reply sample_api_env out t ?reply"
    using post_purchase_reply [OF web_request_route run] by blast
  have "is_finite (sample_parse (toISOString t))" by (simp add: sample_parse_def toISOString_def Let_def split: prod.split)
  with rep obtain told where
    told: "client_purchase sample_parse ''http://localhost:3000/api/'' (\<lambda>_. Responds ?reply) (0, 4) '' bob '' = Inr told"
    and data: "t_data told = rp_body ?reply"
    using client_reads_reply [where fetch = "\<lambda>_. Responds ?reply" and stamps = "(0, 4)"] by fastforce
  have "js_get (t_data told) ''status'' = JStr ''CONFIRMED''"
    using data ok by (simp add: render_decision_def decision_of_def buildPurchaseEnvelope_def Let_def)
  moreover have "ac_body (purchase_call ''http://localhost:3000/api/'' '' bob '') = Some (rq_body (web_request ''bob''))"
    by (simp add: purchase_call_def web_request_def trim)
  ultimately show ?thesis
    using told run told_confirmed_is_backed [OF f(1,3,4) _ run _ told] f(2,5) trim by auto
qed

theorem client_understands_purchase_witness:
  "\<exists>reply a' told. post_purchase mem_ops sample_api_env sample_run_fates (sample_uuid CHR ''b'') JNull Delivered 0
       (web_request ''x'') sample_api = (Inr reply, a')
     \<and> client_purchase sample_parse ''http://localhost:3000/api'' (\<lambda>_. Responds reply) (0, 4) ''x'' = Inr told
     \<and> t_data told = rp_body reply \<and> rp_status reply = 422"
proof -
  have act: "canActivate sample_api_env Delivered 0 (web_request ''x'') lim = (Allow, lim)" for lim
  proof -
    have "extractRateLimitCandidateUserId (rq_body (web_request ''x'')) = None" by code_simp
    then show ?thesis by (simp add: canActivate_def)
  qed
  obtain e where z: "zod_transform JNull (rq_body (web_request ''x'')) = Inl e"
  proof -
    have "purchaseRequestSchema (rq_body (web_request ''x'')) = None" by code_simp
    then show thesis using that by (simp add: zod_transform_def)
  qed
  define reply where "reply = respond sample_api_env 422 (Refused INVALID_USER_ID) PURCHASE_ROUTE_PATH
    (requestIdFromFastify (sample_uuid CHR ''b'') (web_request ''x'')) 0 (sanitizeUserIdEcho (extractRawUserId (rq_body (web_request ''x''))))"
  have "catch_exception sample_api_env (sample_uuid CHR ''b'') 0 (web_request ''x'') e = reply"
    using invalid_body_is_422 [where issues = JNull and v = "rq_body (web_request ''x'')" and env = sample_api_env
        and uuid = "sample_uuid CHR ''b''" and t = 0 and rq = "web_request ''x''"] z
    by (simp add: reply_def web_request_route)
  then have run: "post_purchase mem_ops sample_api_env sample_run_fates (sample_uuid CHR ''b'') JNull Delivered 0
      (web_request ''x'') sample_api = (Inr reply, sample_api\<lparr>ap_limiter := ap_limiter sample_api\<rparr>)"
    using act z by (simp add: post_purchase_def Let_def nowMs_def offsetMs_def sample_run_fates_def sample_api_def new_clock_def)
  have "js_get (rp_body reply) ''serverTimeMs'' = JNum (Fin 0)" by (simp add: reply_def respond_def outcome_body_def)
  from client_understands_purchase [OF sample_date_laws web_request_route run this, of "\<lambda>_. Responds reply"
      "''http://localhost:3000/api''" "''x''" "(0, 4)"]
  show ?thesis using run by (auto simp: reply_def respond_def)
qed

text \<open>The checks of a readiness report: both latencies come from the stamps, and a healthy pod has a finite age.\<close>

lemma latency_checks:
  "checkRedis start stop s = (Inr x, s') \<Longrightarrow> lc_latencyMs x = Some (stop - start)"
  by (auto simp: checkRedis_def io_catch_def io_bind_def split: prod.splits sum.splits)

lemma readiness_report:
  assumes "get_ready env run p = (Inr (st, headers, checks), p')"
  obtains healthy where "st = (if healthy then 200 else 503)"
    and "lc_latencyMs (rc_redis checks) \<in> {None, Some (snd (rr_stamps run) - fst (rr_stamps run))}"
    and "lc_latencyMs (rc_postgres checks) \<in> {None, Some (snd (rr_stamps run) - fst (rr_stamps run))}"
    and "healthy \<Longrightarrow> is_finite (cc_ageMs (rc_clock checks))"
    and "healthy \<Longrightarrow> isFresh env (rr_date_now run) (ap_clock (pod_api p))"
proof -
  obtain start stop where st: "rr_stamps run = (start, stop)" by (cases "rr_stamps run")
  obtain l1 l2 l3 l4 where late: "rr_late run = (l1, l2, l3, l4)" by (cases "rr_late run")
  obtain redis s1 where r: "checkRedis start stop p = (Inr redis, s1)" "ap_clock (pod_api s1) = ap_clock (pod_api p)"
    using check_returns(1) by metis
  obtain sale s2 where s: "checkSale env (rr_time run) s1 = (Inr sale, s2)" using check_returns(2) by metis
  obtain q s3 where q: "checkQueue (rr_queue run) s2 = (Inr q, s3)" using check_returns(3) by metis
  let ?clk = "ap_clock (pod_api p)"
  have fresh: "is_finite (ageMs (rr_date_now run) ?clk)" if "isFresh env (rr_date_now run) ?clk"
    using that by (auto simp: isFresh_def ageMs_def split: option.splits)
  show thesis
    by (rule that [of "st = 200"])
      (use assms r s q fresh latency_checks [OF r(1)] in \<open>auto simp: get_ready_def getReadiness_def st late checkPostgres_def
        checkClock_def settledOrDefault_def withBudget_def io_catch_def io_bind_def TIMED_OUT_def Let_def split: if_splits\<close>)
qed

lemma readiness_is_decoded:
  assumes "is_finite (parse (toISOString t))" "is_finite (cc_ageMs (rc_clock checks))"
    and "\<And>n. lc_latencyMs (rc_redis checks) = Some n \<Longrightarrow> 0 \<le> n"
    and "\<And>n. lc_latencyMs (rc_postgres checks) = Some n \<Longrightarrow> 0 \<le> n"
  shows "decodeReadiness parse (readiness_body up rid t healthy checks) = Some (readiness_body up rid t healthy checks)"
  using assms
  by (cases "lc_latencyMs (rc_redis checks)"; cases "lc_latencyMs (rc_postgres checks)")
    (simp_all add: decodeReadiness_def readiness_body_def decode_checks_def checks_json_def latency_json_def latency_def
      nullable_def json_number_def decode_defs)

text \<open>
  C38: the page cannot tell a degraded API from a broken one. The readiness report of a healthy pod
  reaches the page as it was sent. A degraded pod sends the same kind of report with status 503,
  and although the decoder accepts the word \<open>degraded\<close>, the client turns every such reply into the
  error of an unexpected response: no state of the system makes the client return a report that
  says \<open>degraded\<close>.
\<close>

theorem degraded_readiness_is_an_error:
  assumes laws: "date_laws parse" and year: "0 \<le> t" "t < 253402300800000"
    and stamps: "fst (rr_stamps run) \<le> snd (rr_stamps run)"
    and served: "get_ready env run p = (Inr (st, headers, checks), p')"
    and net: "fetch (get_call baseUrl ''/health/ready'')
       = Responds \<lparr>rp_status = st, rp_headers = headers, rp_body = readiness_body up rid t (st = 200) checks\<rparr>"
  shows "client_getReadiness parse baseUrl fetch clock =
     (if st = 200
      then Inr \<lparr>t_data = readiness_body up rid t True checks, t_sentAtMs = fst clock, t_receivedAtMs = snd clock,
                t_retryAfterSeconds = parseRetryAfter (header_get headers ''retry-after'')\<rparr>
      else Inl unexpected_response)"
proof -
  obtain healthy where st: "st = (if healthy then 200 else 503)"
    and lat: "lc_latencyMs (rc_redis checks) \<in> {None, Some (snd (rr_stamps run) - fst (rr_stamps run))}"
      "lc_latencyMs (rc_postgres checks) \<in> {None, Some (snd (rr_stamps run) - fst (rr_stamps run))}"
    and age: "healthy \<Longrightarrow> is_finite (cc_ageMs (rc_clock checks))"
    using readiness_report [OF served] by blast
  have dec: "decodeReadiness parse (readiness_body up rid t True checks) = Some (readiness_body up rid t True checks)"
    if healthy using date_lawsD [OF laws year] age [OF that] lat stamps by (intro readiness_is_decoded) auto
  have none: "decodeApiError parse (readiness_body up rid t b checks) = None" for b
    by (simp add: decodeApiError_def readiness_body_def decode_defs)
  show ?thesis
    using st net dec none
    by (auto simp: client_getReadiness_def request_api_def read_response_def Let_def response_ok_def split: option.splits)
qed

lemma get_ready_returns: "\<exists>st headers checks p'. get_ready env run p = (Inr (st, headers, checks), p')"
proof -
  obtain start stop where st: "rr_stamps run = (start, stop)" by (cases "rr_stamps run")
  obtain l1 l2 l3 l4 where late: "rr_late run = (l1, l2, l3, l4)" by (cases "rr_late run")
  obtain redis s1 where r: "checkRedis start stop p = (Inr redis, s1)" using check_returns(1) by metis
  obtain sale s2 where s: "checkSale env (rr_time run) s1 = (Inr sale, s2)" using check_returns(2) by metis
  obtain q s3 where "checkQueue (rr_queue run) s2 = (Inr q, s3)" using check_returns(3) by metis
  with r s show ?thesis
    by (simp add: get_ready_def getReadiness_def st late checkPostgres_def checkClock_def settledOrDefault_def
        withBudget_def io_catch_def io_bind_def Let_def)
qed

theorem degraded_readiness_is_an_error_witness:
  "\<exists>checks p'. get_ready sample_api_env \<lparr>rr_date_now = 0, rr_stamps = (0, 1), rr_late = (False, False, False, False),
       rr_pg_up = True, rr_time = (2, 0), rr_queue = None\<rparr> \<lparr>pod_api = sample_api, pod_probe = new_probe\<rparr>
     = (Inr (503, [(''retry-after'', ''1'')], checks), p')
     \<and> client_getReadiness sample_parse ''/api'' (\<lambda>_. Responds \<lparr>rp_status = 503, rp_headers = [(''retry-after'', ''1'')],
         rp_body = readiness_body 0 ''r1'' 0 False checks\<rparr>) (0, 4) = Inl unexpected_response"
proof -
  let ?run = "\<lparr>rr_date_now = 0, rr_stamps = (0, 1), rr_late = (False, False, False, False),
       rr_pg_up = True, rr_time = (2, 0), rr_queue = None\<rparr>" and ?p = "\<lparr>pod_api = sample_api, pod_probe = new_probe\<rparr>"
  obtain st headers checks p' where run: "get_ready sample_api_env ?run ?p = (Inr (st, headers, checks), p')"
    using get_ready_returns by blast
  have st: "st = 503"
    by (rule readiness_report [OF run]) (auto simp: isFresh_def sample_api_def new_clock_def split: if_splits)
  moreover have "headers = [(''retry-after'', ''1'')]"
    using run st by (auto simp: get_ready_def io_bind_def split: prod.splits sum.splits if_splits)
  ultimately show ?thesis
    using run degraded_readiness_is_an_error [OF sample_date_laws _ _ _ run, of 0 "\<lambda>_. Responds \<lparr>rp_status = 503,
       rp_headers = [(''retry-after'', ''1'')], rp_body = readiness_body 0 ''r1'' 0 False checks\<rparr>" "''/api''" 0 "''r1''" "(0, 4)"]
    by auto
qed

end
