(* ===== verification/Web_Poll.thy ===== *)
theory Web_Poll
  imports Web_Client
begin

text \<open>
  The two polling hooks of the page, apps/web/src/hooks/useSaleStatus.ts and useOpsSnapshot.ts, with
  the delays of lib/polling.ts. A poll is split at its awaits: what it does up to the request, and
  what it does with the answer. The events of a hook are its mounting and unmounting, the page
  becoming visible or hidden, a timer, a request for a refresh, and an answer; any interleaving is
  a list of events. Delays are computed with exact fractions where the code uses doubles, and the
  two readings of \<open>Date.now()\<close> in one synchronous stretch are one. The references that the hooks
  keep (\<open>useRef\<close>) are fields of the state; a timer that has fired is gone, since clearing it again
  does nothing.
\<close>

section \<open>Delays\<close>

definition js_round :: "rat \<Rightarrow> int" where
  "js_round x = \<lfloor>x + 1 / 2\<rfloor>"

definition jitter :: "int \<Rightarrow> rat \<Rightarrow> int \<Rightarrow> int" where
  "jitter baseMs r capMs = min capMs (js_round (of_int baseMs * (7 / 10 + r * (6 / 10))))"

definition saleSuccessDelay :: "rat \<Rightarrow> rat \<Rightarrow> int" where
  "saleSuccessDelay untilStartMs r =
     (if 0 < untilStartMs \<and> untilStartMs \<le> 10000 then 1000 else jitter 2000 r 10000)"

definition saleFailureDelay :: "nat \<Rightarrow> rat \<Rightarrow> int" where
  "saleFailureDelay failure r = jitter (min 10000 (2000 * 2 ^ (failure - 1))) r 10000"

definition opsSuccessDelay :: "rat \<Rightarrow> int" where
  "opsSuccessDelay r = jitter 5000 r 6500"

definition opsFailureDelay :: "nat \<Rightarrow> rat \<Rightarrow> int" where
  "opsFailureDelay failure r = jitter (min 15000 (5000 * max 1 (int failure))) r 15000"

section \<open>useSaleStatus\<close>

record sale_view =
  sv_sale :: "js_value option"
  sv_offsetMs :: rat
  sv_unavailable :: bool
  sv_failureCount :: nat
  sv_lastResponseAtMs :: "int option"

text \<open>A request under way: its abort controller, the generation that sent it, and whether it was aborted.\<close>

record flight =
  fl_controller :: nat
  fl_generation :: nat
  fl_aborted :: bool

record sale_poll =
  sp_view :: sale_view
  sp_visible :: bool
  sp_mounted :: bool
  sp_generation :: nat
  sp_timer :: "int option"
  sp_inFlight :: bool
  sp_queued :: bool
  sp_controller :: "nat option"
  sp_fresh :: nat
  sp_flights :: "flight list"

definition new_sale_poll :: sale_poll where
  "new_sale_poll =
     \<lparr>sp_view = \<lparr>sv_sale = None, sv_offsetMs = 0, sv_unavailable = False, sv_failureCount = 0, sv_lastResponseAtMs = None\<rparr>,
      sp_visible = True, sp_mounted = False, sp_generation = 0, sp_timer = None, sp_inFlight = False,
      sp_queued = False, sp_controller = None, sp_fresh = 0, sp_flights = []\<rparr>"

definition sale_poll_begin :: "sale_poll \<Rightarrow> sale_poll" where
  "sale_poll_begin s =
     (if \<not> sp_visible s \<or> sp_inFlight s then s\<lparr>sp_queued := True\<rparr>
      else s\<lparr>sp_inFlight := True, sp_queued := False, sp_controller := Some (sp_fresh s), sp_fresh := sp_fresh s + 1,
             sp_flights := \<lparr>fl_controller = sp_fresh s, fl_generation = sp_generation s, fl_aborted = False\<rparr> # sp_flights s\<rparr>)"

text \<open>The \<open>finally\<close> block.\<close>

definition sale_poll_finally :: "flight \<Rightarrow> int \<Rightarrow> sale_poll \<Rightarrow> sale_poll" where
  "sale_poll_finally f delay s =
     (let ownsFlight = (sp_controller s = Some (fl_controller f));
          s1 = (if ownsFlight then s\<lparr>sp_inFlight := False, sp_controller := None\<rparr> else s)
      in if ownsFlight \<and> fl_generation f = sp_generation s
         then s1\<lparr>sp_timer := Some (if sp_queued s then 0 else delay)\<rparr>
         else s1)"

definition int_field :: "js_value \<Rightarrow> string \<Rightarrow> int" where
  "int_field v k = (case js_get v k of JNum (Fin n) \<Rightarrow> n | _ \<Rightarrow> 0)"

definition sale_answer :: "timed \<Rightarrow> int \<Rightarrow> rat \<Rightarrow> sale_view \<times> int" where
  "sale_answer result date_now r =
     (let d = t_data result;
          offset = calculateServerOffset (t_sentAtMs result) (t_receivedAtMs result) (int_field d ''serverTimeMs'');
          now = of_int date_now + offset;
          presentation = derivePresentationState (int_field d ''startsAtMs'') (int_field d ''endsAtMs'')
            (int_field d ''stockRemaining'') now
      in (\<lparr>sv_sale = Some d, sv_offsetMs = offset, sv_unavailable = False, sv_failureCount = 0,
           sv_lastResponseAtMs = Some date_now\<rparr>,
          saleSuccessDelay (if presentation = Upcoming then of_int (int_field d ''startsAtMs'') - now else 0) r))"

text \<open>
  The answer to a request. On a failure the code computes the delay inside the function that it
  hands to \<open>setState\<close>; React may call that function at once or only at the next rendering, after the
  timer was set, and \<open>eager\<close> says which.
\<close>

definition sale_poll_settles :: "nat \<Rightarrow> client_error + timed \<Rightarrow> int \<Rightarrow> rat \<Rightarrow> bool \<Rightarrow> sale_poll \<Rightarrow> sale_poll" where
  "sale_poll_settles c answer date_now r eager s =
     (case find (\<lambda>f. fl_controller f = c) (sp_flights s) of
        None \<Rightarrow> s
      | Some f \<Rightarrow>
          (let s0 = s\<lparr>sp_flights := remove1 f (sp_flights s)\<rparr>; v = sp_view s
           in case answer of
                Inr result \<Rightarrow>
                  if fl_generation f \<noteq> sp_generation s then sale_poll_finally f 2000 s0
                  else (case sale_answer result date_now r of (v1, delay) \<Rightarrow>
                    sale_poll_finally f delay (s0\<lparr>sp_view := v1\<rparr>))
              | Inl _ \<Rightarrow>
                  if fl_generation f \<noteq> sp_generation s \<or> fl_aborted f then sale_poll_finally f 2000 s0
                  else sale_poll_finally f (if eager then saleFailureDelay (sv_failureCount v + 1) r else 2000)
                    (s0\<lparr>sp_view := v\<lparr>sv_unavailable := True, sv_failureCount := sv_failureCount v + 1\<rparr>\<rparr>)))"

definition sale_refresh :: "sale_poll \<Rightarrow> sale_poll" where
  "sale_refresh s = sale_poll_begin (s\<lparr>sp_queued := True, sp_timer := None\<rparr>)"

definition json_set :: "string \<Rightarrow> js_value \<Rightarrow> js_value \<Rightarrow> js_value" where
  "json_set k v d = (case d of JObj ps \<Rightarrow> JObj (AList.update k v ps) | _ \<Rightarrow> d)"

definition applySnapshot :: "string \<Rightarrow> int \<Rightarrow> int \<Rightarrow> int \<Rightarrow> int \<Rightarrow> int \<Rightarrow> sale_poll \<Rightarrow> sale_poll" where
  "applySnapshot saleId stock serverTimeMs sentAtMs receivedAtMs date_now s =
     (case sv_sale (sp_view s) of
        Some d \<Rightarrow>
          if js_get d ''saleId'' = JStr saleId
          then s\<lparr>sp_view := (sp_view s)\<lparr>sv_sale := Some (json_set ''stockRemaining'' (JNum (Fin stock)) d),
                 sv_offsetMs := calculateServerOffset sentAtMs receivedAtMs serverTimeMs,
                 sv_lastResponseAtMs := Some date_now\<rparr>\<rparr>
          else s
      | None \<Rightarrow> s)"

definition sale_mount :: "sale_poll \<Rightarrow> sale_poll" where
  "sale_mount s = sale_poll_begin (s\<lparr>sp_generation := sp_generation s + 1, sp_mounted := True\<rparr>)"

definition abort_flight :: "nat option \<Rightarrow> flight list \<Rightarrow> flight list" where
  "abort_flight c fs = map (\<lambda>f. if c = Some (fl_controller f) then f\<lparr>fl_aborted := True\<rparr> else f) fs"

definition sale_unmount :: "sale_poll \<Rightarrow> sale_poll" where
  "sale_unmount s =
     s\<lparr>sp_generation := sp_generation s + 1, sp_timer := None,
       sp_flights := abort_flight (sp_controller s) (sp_flights s), sp_controller := None,
       sp_inFlight := False, sp_queued := False, sp_mounted := False\<rparr>"

definition sale_visibility :: "bool \<Rightarrow> sale_poll \<Rightarrow> sale_poll" where
  "sale_visibility visible s =
     (let s1 = s\<lparr>sp_visible := visible\<rparr> in if sp_mounted s \<and> visible then sale_refresh s1 else s1)"

datatype sale_event =
    Sale_mount | Sale_unmount | Sale_visibility bool | Sale_timer | Sale_refresh
  | Sale_settles nat "client_error + timed" int rat bool
  | Sale_snapshot string int int int int int

fun sale_step :: "sale_event \<Rightarrow> sale_poll \<Rightarrow> sale_poll" where
  "sale_step Sale_mount s = (if sp_mounted s then s else sale_mount s)"
| "sale_step Sale_unmount s = (if sp_mounted s then sale_unmount s else s)"
| "sale_step (Sale_visibility v) s = sale_visibility v s"
| "sale_step Sale_timer s = (if sp_timer s = None then s else sale_poll_begin (s\<lparr>sp_timer := None\<rparr>))"
| "sale_step Sale_refresh s = (if sp_mounted s then sale_refresh s else s)"
| "sale_step (Sale_settles c answer date_now r eager) s = sale_poll_settles c answer date_now r eager s"
| "sale_step (Sale_snapshot i k t snt rcv now) s = applySnapshot i k t snt rcv now s"

section \<open>useOpsSnapshot\<close>

record ops_resource =
  rs_value :: "js_value option"
  rs_stale :: bool
  rs_failures :: nat
  rs_updatedAt :: "int option"
  rs_dueAt :: int

definition initial_resource :: ops_resource where
  "initial_resource = \<lparr>rs_value = None, rs_stale = False, rs_failures = 0, rs_updatedAt = None, rs_dueAt = 0\<rparr>"

text \<open>A poll under way also knows which of its two requests are unanswered.\<close>

record ops_flight = flight +
  of_metrics :: bool
  of_readiness :: bool

record ops_poll =
  op_metrics :: ops_resource
  op_readiness :: ops_resource
  op_visible :: bool
  op_mounted :: bool
  op_generation :: nat
  op_timer :: "int option"
  op_running :: bool
  op_controller :: "nat option"
  op_fresh :: nat
  op_flights :: "ops_flight list"

definition new_ops_poll :: ops_poll where
  "new_ops_poll =
     \<lparr>op_metrics = initial_resource, op_readiness = initial_resource, op_visible = True, op_mounted = False,
      op_generation = 0, op_timer = None, op_running = False, op_controller = None, op_fresh = 0, op_flights = []\<rparr>"

definition ops_poll_begin :: "bool \<Rightarrow> int \<Rightarrow> ops_poll \<Rightarrow> ops_poll" where
  "ops_poll_begin force now s =
     (if \<not> op_visible s \<or> op_running s then s
      else s\<lparr>op_running := True, op_controller := Some (op_fresh s), op_fresh := op_fresh s + 1,
             op_flights := \<lparr>fl_controller = op_fresh s, fl_generation = op_generation s, fl_aborted = False,
               of_metrics = (force \<or> rs_dueAt (op_metrics s) \<le> now),
               of_readiness = (force \<or> rs_dueAt (op_readiness s) \<le> now)\<rparr> # op_flights s\<rparr>)"

definition ownsPoll :: "ops_flight \<Rightarrow> ops_poll \<Rightarrow> bool" where
  "ownsPoll f s \<longleftrightarrow> fl_generation f = op_generation s \<and> op_controller s = Some (fl_controller f) \<and> \<not> fl_aborted f"

definition resource_answer :: "client_error + timed \<Rightarrow> int \<Rightarrow> rat \<Rightarrow> ops_resource \<Rightarrow> ops_resource" where
  "resource_answer answer date_now r res =
     (case answer of
        Inr result \<Rightarrow> \<lparr>rs_value = Some (t_data result), rs_stale = False, rs_failures = 0, rs_updatedAt = Some date_now,
                       rs_dueAt = date_now + opsSuccessDelay r\<rparr>
      | Inl _ \<Rightarrow> res\<lparr>rs_stale := True, rs_failures := rs_failures res + 1,
                     rs_dueAt := date_now + opsFailureDelay (rs_failures res + 1) r\<rparr>)"

definition ops_metrics_settles :: "nat \<Rightarrow> client_error + timed \<Rightarrow> int \<Rightarrow> rat \<Rightarrow> ops_poll \<Rightarrow> ops_poll" where
  "ops_metrics_settles c answer date_now r s =
     (case find (\<lambda>f. fl_controller f = c \<and> of_metrics f) (op_flights s) of
        None \<Rightarrow> s
      | Some f \<Rightarrow>
          (let s0 = s\<lparr>op_flights := map (\<lambda>g. if g = f then g\<lparr>of_metrics := False\<rparr> else g) (op_flights s)\<rparr>
           in if ownsPoll f s then s0\<lparr>op_metrics := resource_answer answer date_now r (op_metrics s)\<rparr> else s0))"

definition ops_readiness_settles :: "nat \<Rightarrow> client_error + timed \<Rightarrow> int \<Rightarrow> rat \<Rightarrow> ops_poll \<Rightarrow> ops_poll" where
  "ops_readiness_settles c answer date_now r s =
     (case find (\<lambda>f. fl_controller f = c \<and> of_readiness f) (op_flights s) of
        None \<Rightarrow> s
      | Some f \<Rightarrow>
          (let s0 = s\<lparr>op_flights := map (\<lambda>g. if g = f then g\<lparr>of_readiness := False\<rparr> else g) (op_flights s)\<rparr>
           in if ownsPoll f s then s0\<lparr>op_readiness := resource_answer answer date_now r (op_readiness s)\<rparr> else s0))"

text \<open>After \<open>Promise.allSettled\<close>.\<close>

definition ops_joined :: "nat \<Rightarrow> int \<Rightarrow> ops_poll \<Rightarrow> ops_poll" where
  "ops_joined c date_now s =
     (case find (\<lambda>f. fl_controller f = c \<and> \<not> of_metrics f \<and> \<not> of_readiness f) (op_flights s) of
        None \<Rightarrow> s
      | Some f \<Rightarrow>
          (let s0 = s\<lparr>op_flights := remove1 f (op_flights s)\<rparr>
           in if ownsPoll f s
              then s0\<lparr>op_running := False, op_controller := None,
                      op_timer := Some (max 0 (min (rs_dueAt (op_metrics s)) (rs_dueAt (op_readiness s)) - date_now))\<rparr>
              else s0))"

definition ops_refresh :: "int \<Rightarrow> ops_poll \<Rightarrow> ops_poll" where
  "ops_refresh now s = ops_poll_begin True now (s\<lparr>op_timer := None\<rparr>)"

definition ops_mount :: "int \<Rightarrow> ops_poll \<Rightarrow> ops_poll" where
  "ops_mount now s = ops_poll_begin True now (s\<lparr>op_generation := op_generation s + 1, op_mounted := True\<rparr>)"

definition ops_unmount :: "ops_poll \<Rightarrow> ops_poll" where
  "ops_unmount s =
     s\<lparr>op_generation := op_generation s + 1, op_timer := None,
       op_flights := map (\<lambda>f. if op_controller s = Some (fl_controller f) then f\<lparr>fl_aborted := True\<rparr> else f) (op_flights s),
       op_controller := None, op_running := False, op_mounted := False\<rparr>"

definition ops_visibility :: "bool \<Rightarrow> int \<Rightarrow> ops_poll \<Rightarrow> ops_poll" where
  "ops_visibility visible now s =
     (let s1 = s\<lparr>op_visible := visible\<rparr> in if op_mounted s \<and> visible then ops_refresh now s1 else s1)"

datatype ops_event =
    Ops_mount int | Ops_unmount | Ops_visibility bool int | Ops_timer int | Ops_refresh int
  | Ops_metrics nat "client_error + timed" int rat | Ops_readiness nat "client_error + timed" int rat
  | Ops_joined nat int

fun ops_step :: "ops_event \<Rightarrow> ops_poll \<Rightarrow> ops_poll" where
  "ops_step (Ops_mount now) s = (if op_mounted s then s else ops_mount now s)"
| "ops_step Ops_unmount s = (if op_mounted s then ops_unmount s else s)"
| "ops_step (Ops_visibility v now) s = ops_visibility v now s"
| "ops_step (Ops_timer now) s = (if op_timer s = None then s else ops_poll_begin False now (s\<lparr>op_timer := None\<rparr>))"
| "ops_step (Ops_refresh now) s = (if op_mounted s then ops_refresh now s else s)"
| "ops_step (Ops_metrics c answer now r) s = ops_metrics_settles c answer now r s"
| "ops_step (Ops_readiness c answer now r) s = ops_readiness_settles c answer now r s"
| "ops_step (Ops_joined c now) s = ops_joined c now s"

section \<open>The loop that both hooks run\<close>

text \<open>
  What a polling loop promises: started and stepped by legal events it stays well-formed, a
  well-formed loop has at most one request of its own under way and then no timer, and while it is
  attended (mounted, on a visible page) it has the one or the other.
\<close>

locale polling =
  fixes step :: "'e \<Rightarrow> 's \<Rightarrow> 's" and start :: 's and legal :: "'e \<Rightarrow> bool" and ok :: "'s \<Rightarrow> bool"
    and live :: "'s \<Rightarrow> nat" and timer :: "'s \<Rightarrow> int option" and attended :: "'s \<Rightarrow> bool"
  assumes start_ok: "ok start"
    and step_ok: "legal e \<Longrightarrow> ok s \<Longrightarrow> ok (step e s)"
    and single: "ok s \<Longrightarrow> live s \<le> 1"
    and exclusive: "ok s \<Longrightarrow> live s = 1 \<Longrightarrow> timer s = None"
    and alive: "ok s \<Longrightarrow> attended s \<Longrightarrow> live s = 1 \<or> timer s \<noteq> None"
begin

lemma fold_ok: "list_all legal es \<Longrightarrow> ok s \<Longrightarrow> ok (fold step es s)"
  by (induction es arbitrary: s) (simp_all add: step_ok)

lemma run_ok: "list_all legal es \<Longrightarrow> ok (fold step es start)"
  by (rule fold_ok [OF _ start_ok])

lemma one_loop:
  assumes "list_all legal es" and "s = fold step es start"
  shows "live s \<le> 1" and "live s = 1 \<Longrightarrow> timer s = None"
    and "attended s \<Longrightarrow> (live s = 1) \<noteq> (timer s \<noteq> None)"
proof -
  have ok: "ok s" using run_ok assms by simp
  show "live s \<le> 1" by (rule single [OF ok])
  show ex: "live s = 1 \<Longrightarrow> timer s = None" by (rule exclusive [OF ok])
  show "(live s = 1) \<noteq> (timer s \<noteq> None)" if "attended s"
    using ex alive [OF ok that] by metis
qed

end

text \<open>
  The references that both hooks keep: the flights, the generation, the supply of controllers, the
  controller that owns the loop, the timer, and whether the hook is attended and mounted.
\<close>

definition loop_ok ::
  "'a flight_scheme list \<Rightarrow> nat \<Rightarrow> nat \<Rightarrow> nat option \<Rightarrow> int option \<Rightarrow> bool \<Rightarrow> bool \<Rightarrow> bool" where
  "loop_ok fs g n c t visible mounted \<longleftrightarrow>
     distinct (map fl_controller fs)
     \<and> (\<forall>f \<in> set fs. fl_controller f < n \<and> fl_generation f \<le> g
          \<and> (fl_generation f = g \<longrightarrow> c = Some (fl_controller f) \<and> \<not> fl_aborted f))
     \<and> (\<forall>k. c = Some k \<longrightarrow> t = None \<and> (\<exists>f \<in> set fs. fl_controller f = k \<and> fl_generation f = g))
     \<and> (mounted \<and> visible \<longrightarrow> c \<noteq> None \<or> t \<noteq> None)
     \<and> (\<not> mounted \<longrightarrow> c = None \<and> t = None)"

definition live_flights :: "'a flight_scheme list \<Rightarrow> nat \<Rightarrow> nat" where
  "live_flights fs g = length (filter (\<lambda>f. fl_generation f = g) fs)"

lemma loop_okD:
  assumes "loop_ok fs g n c t visible mounted"
  shows "distinct fs" "distinct (map fl_controller fs)"
    and "f \<in> set fs \<Longrightarrow> fl_controller f < n \<and> fl_generation f \<le> g"
    and "f \<in> set fs \<Longrightarrow> fl_generation f = g \<Longrightarrow> c = Some (fl_controller f) \<and> \<not> fl_aborted f"
    and "c = Some k \<Longrightarrow> t = None \<and> (\<exists>f \<in> set fs. fl_controller f = k \<and> fl_generation f = g)"
    and "c \<noteq> None \<Longrightarrow> mounted"
  using assms by (auto simp: loop_ok_def distinct_map)

lemma loop_same:
  assumes "loop_ok fs g n c t visible mounted" "f \<in> set fs" "f' \<in> set fs" "fl_controller f = fl_controller f'"
  shows "f = f'"
  using loop_okD(2) [OF assms(1)] assms(2-4) by (simp add: distinct_map inj_on_def)

lemma loop_live:
  assumes ok: "loop_ok fs g n c t visible mounted"
  shows "live_flights fs g = (if c = None then 0 else 1)"
proof (cases c)
  case None
  with loop_okD(4) [OF ok] have "filter (\<lambda>f. fl_generation f = g) fs = []" by (auto simp: filter_empty_conv)
  with None show ?thesis by (simp add: live_flights_def)
next
  case (Some k)
  then obtain f where f: "f \<in> set fs" "fl_controller f = k" "fl_generation f = g" using loop_okD(5) [OF ok] by blast
  have "f' = f" if "f' \<in> set fs" "fl_generation f' = g" for f'
  proof (rule loop_same [OF ok that(1) f(1)])
    show "fl_controller f' = fl_controller f" using loop_okD(4) [OF ok that] Some f(2) by simp
  qed
  then have "set (filter (\<lambda>f. fl_generation f = g) fs) = {f}" unfolding set_filter using f by blast
  moreover have "distinct (filter (\<lambda>f. fl_generation f = g) fs)" by (simp add: loop_okD(1) [OF ok])
  ultimately have "length (filter (\<lambda>f. fl_generation f = g) fs) = 1"
    using distinct_card [of "filter (\<lambda>f. fl_generation f = g) fs"] by simp
  with Some show ?thesis by (simp add: live_flights_def)
qed

lemma loop_begin:
  assumes "loop_ok fs g n None t visible' True" "fl_controller f = n" "fl_generation f = g" "\<not> fl_aborted f"
  shows "loop_ok (f # fs) g (Suc n) (Some n) None visible True"
  using assms by (fastforce simp: loop_ok_def)

lemma loop_hide: "loop_ok fs g n c t visible mounted \<Longrightarrow> loop_ok fs g n c t False mounted"
  by (auto simp: loop_ok_def)

lemma loop_pause: "loop_ok fs g n c t visible mounted \<Longrightarrow> loop_ok fs g n c None False mounted"
  by (auto simp: loop_ok_def)

lemma loop_show:
  "loop_ok fs g n c t visible mounted \<Longrightarrow> c \<noteq> None \<or> \<not> mounted \<Longrightarrow> loop_ok fs g n c None visible' mounted"
  by (auto simp: loop_ok_def)

lemma loop_unmounted: "loop_ok fs g n c t visible False \<Longrightarrow> loop_ok fs g n c t visible' False"
  by (auto simp: loop_ok_def)

lemma loop_timer: "loop_ok fs g n c (Some d) visible mounted \<Longrightarrow> c = None \<and> mounted"
  by (cases c) (auto simp: loop_ok_def)

lemma loop_mount:
  assumes "loop_ok fs g n c t visible False"
  shows "loop_ok fs (Suc g) n None None False True"
  using assms by (fastforce simp: loop_ok_def)

lemma loop_land:
  assumes ok: "loop_ok fs g n c t visible mounted" and f: "f \<in> set fs"
  shows "c = Some (fl_controller f) \<Longrightarrow> fl_generation f = g \<and> loop_ok (remove1 f fs) g n None (Some d) visible mounted"
    and "c \<noteq> Some (fl_controller f) \<Longrightarrow> fl_generation f \<noteq> g \<and> loop_ok (remove1 f fs) g n c t visible mounted"
proof -
  have rest: "set (remove1 f fs) = set fs - {f}" by (rule set_remove1_eq [OF loop_okD(1) [OF ok]])
  have d: "distinct (map fl_controller (remove1 f fs))"
    using loop_okD(1,2) [OF ok] rest by (auto simp: distinct_map inj_on_def)
  note old = loop_okD(3,4) [OF ok]
  show "fl_generation f = g \<and> loop_ok (remove1 f fs) g n None (Some d) visible mounted" if c: "c = Some (fl_controller f)"
  proof -
    obtain f' where "f' \<in> set fs" "fl_controller f' = fl_controller f" "fl_generation f' = g"
      using loop_okD(5) [OF ok c] by blast
    then have gen: "fl_generation f = g" using loop_same [OF ok f, of f'] by simp
    have "fl_generation f' \<noteq> g" if "f' \<in> set fs - {f}" for f'
      using old(2) [of f'] that c loop_same [OF ok, of f' f] f by auto
    with gen old(1) d rest loop_okD(6) [OF ok] c show ?thesis by (auto simp: loop_ok_def)
  qed
  show "fl_generation f \<noteq> g \<and> loop_ok (remove1 f fs) g n c t visible mounted" if c: "c \<noteq> Some (fl_controller f)"
  proof -
    have "fl_generation f \<noteq> g" using old(2) [OF f] c by blast
    moreover have "t = None \<and> (\<exists>f' \<in> set fs - {f}. fl_controller f' = k \<and> fl_generation f' = g)" if "c = Some k" for k
      using loop_okD(5) [OF ok that] c that by auto
    moreover have "(mounted \<and> visible \<longrightarrow> c \<noteq> None \<or> t \<noteq> None) \<and> (\<not> mounted \<longrightarrow> c = None \<and> t = None)"
      using ok by (simp add: loop_ok_def)
    ultimately show ?thesis using old d rest by (simp add: loop_ok_def)
  qed
qed

lemma loop_unmount:
  assumes "loop_ok fs g n c t visible mounted"
    and "map fl_controller fs' = map fl_controller fs" "map fl_generation fs' = map fl_generation fs"
  shows "loop_ok fs' (Suc g) n None None visible' False"
proof -
  have "\<forall>f \<in> set fs'. fl_controller f < n \<and> fl_generation f \<le> g"
  proof
    fix f assume "f \<in> set fs'"
    then have "fl_controller f \<in> set (map fl_controller fs')" "fl_generation f \<in> set (map fl_generation fs')" by auto
    then show "fl_controller f < n \<and> fl_generation f \<le> g" using assms by (auto simp: loop_ok_def)
  qed
  then show ?thesis using assms(1,2) by (fastforce simp: loop_ok_def)
qed

section \<open>The sale is polled by one loop\<close>

definition sale_legal :: "sale_event \<Rightarrow> bool" where
  "sale_legal e = (case e of Sale_settles _ _ _ r _ \<Rightarrow> 0 \<le> r \<and> r < 1 | _ \<Rightarrow> True)"

definition sale_loop :: "sale_poll \<Rightarrow> bool" where
  "sale_loop s \<longleftrightarrow> loop_ok (sp_flights s) (sp_generation s) (sp_fresh s) (sp_controller s) (sp_timer s) (sp_visible s) (sp_mounted s)
     \<and> (sp_inFlight s \<longleftrightarrow> sp_controller s \<noteq> None) \<and> (\<forall>d. sp_timer s = Some d \<longrightarrow> 0 \<le> d \<and> d \<le> 10000)"

lemma jitter_range:
  assumes "0 \<le> base" "0 \<le> cap" "0 \<le> r"
  shows "0 \<le> jitter base r cap" "jitter base r cap \<le> cap"
proof -
  have "0 \<le> of_int base * (7 / 10 + r * (6 / 10)) + (1 / 2 :: rat)" using assms by simp
  then have "0 \<le> js_round (of_int base * (7 / 10 + r * (6 / 10)))" by (simp add: js_round_def)
  then show "0 \<le> jitter base r cap" using assms(2) by (simp add: jitter_def)
  show "jitter base r cap \<le> cap" by (simp add: jitter_def)
qed

lemma sale_delays:
  assumes "0 \<le> r"
  shows "0 \<le> saleSuccessDelay u r \<and> saleSuccessDelay u r \<le> 10000" "0 \<le> saleFailureDelay k r \<and> saleFailureDelay k r \<le> 10000"
  using assms jitter_range [of _ 10000 r] by (simp_all add: saleSuccessDelay_def saleFailureDelay_def)

text \<open>A poll may begin in a mounted hook whose timer is gone; hidden or busy it only leaves a note.\<close>

lemma sale_begin_loop:
  assumes "loop_ok (sp_flights s) (sp_generation s) (sp_fresh s) (sp_controller s) None False True"
    and "sp_timer s = None" "sp_mounted s" "sp_inFlight s \<longleftrightarrow> sp_controller s \<noteq> None"
  shows "sale_loop (sale_poll_begin s)"
proof (cases "sp_controller s")
  case None
  with assms show ?thesis by (auto simp: sale_poll_begin_def sale_loop_def intro: loop_begin)
next
  case (Some k)
  with assms show ?thesis using loop_show [OF assms(1)] by (simp add: sale_poll_begin_def sale_loop_def)
qed

lemma sale_refresh_loop:
  assumes "sale_loop (s\<lparr>sp_visible := v\<rparr>)" "sp_mounted s"
  shows "sale_loop (sale_refresh s)"
  unfolding sale_refresh_def
  by (rule sale_begin_loop) (use assms in \<open>auto simp: sale_loop_def intro: loop_pause\<close>)

lemma sale_finally_loop:
  assumes ok: "sale_loop s" and f: "f \<in> set (sp_flights s)" and d: "0 \<le> d" "d \<le> 10000"
    and same: "sp_flights s1 = remove1 f (sp_flights s)" "sp_generation s1 = sp_generation s" "sp_fresh s1 = sp_fresh s"
      "sp_controller s1 = sp_controller s" "sp_timer s1 = sp_timer s" "sp_visible s1 = sp_visible s"
      "sp_mounted s1 = sp_mounted s" "sp_inFlight s1 = sp_inFlight s"
  shows "sale_loop (sale_poll_finally f d s1)"
proof -
  note land = loop_land [OF conjunct1 [OF ok [unfolded sale_loop_def]] f]
  show ?thesis
  proof (cases "sp_controller s = Some (fl_controller f)")
    case True
    then show ?thesis using land(1) [OF True] d same by (simp add: sale_poll_finally_def sale_loop_def Let_def)
  next
    case False
    then show ?thesis using land(2) [OF False] ok same by (simp add: sale_poll_finally_def sale_loop_def Let_def)
  qed
qed

lemma sale_settles_loop:
  assumes ok: "sale_loop s" and r: "0 \<le> r"
  shows "sale_loop (sale_poll_settles c answer now r eager s)"
proof (cases "find (\<lambda>f. fl_controller f = c) (sp_flights s)")
  case None
  then show ?thesis using ok by (simp add: sale_poll_settles_def)
next
  case (Some f)
  then have f: "f \<in> set (sp_flights s)" by (auto simp: find_Some_iff)
  have fin: "sale_loop (sale_poll_finally f d (s\<lparr>sp_flights := remove1 f (sp_flights s), sp_view := v\<rparr>))"
    "sale_loop (sale_poll_finally f d (s\<lparr>sp_flights := remove1 f (sp_flights s)\<rparr>))" if "0 \<le> d" "d \<le> 10000" for d v
    by (rule sale_finally_loop [OF ok f that]; simp)+
  show ?thesis
    using Some fin sale_delays [OF r]
    by (auto simp: sale_poll_settles_def sale_answer_def Let_def split: sum.split)
qed

lemma sale_step_loop:
  assumes "sale_legal e" "sale_loop s"
  shows "sale_loop (sale_step e s)"
proof (cases e)
  case Sale_mount
  show ?thesis
  proof (cases "sp_mounted s")
    case False
    with assms have "loop_ok (sp_flights s) (sp_generation s) (sp_fresh s) (sp_controller s) (sp_timer s) (sp_visible s) False"
      by (simp add: sale_loop_def)
    with loop_mount [OF this] loop_okD(6) [OF this] have "sale_loop (sale_mount s)"
      unfolding sale_mount_def using assms False by (intro sale_begin_loop) (auto simp: sale_loop_def loop_ok_def)
    with False Sale_mount show ?thesis by simp
  qed (use assms Sale_mount in simp)
next
  case Sale_unmount
  then show ?thesis using assms
    by (auto simp: sale_loop_def sale_unmount_def abort_flight_def intro!: loop_unmount map_idI)
next
  case (Sale_visibility v)
  then show ?thesis using assms sale_refresh_loop [where s = "s\<lparr>sp_visible := v\<rparr>" and v = "sp_visible s"]
    by (auto simp: sale_visibility_def Let_def sale_loop_def intro: loop_hide loop_unmounted)
next
  case Sale_timer
  show ?thesis
  proof (cases "sp_timer s")
    case (Some d)
    with assms(2) have "sp_controller s = None \<and> sp_mounted s" unfolding sale_loop_def by (metis loop_timer)
    with assms have "sale_loop (sale_poll_begin (s\<lparr>sp_timer := None\<rparr>))"
      by (intro sale_begin_loop) (auto simp: sale_loop_def intro: loop_pause)
    with Some Sale_timer show ?thesis by simp
  qed (use assms Sale_timer in simp)
next
  case Sale_refresh
  then show ?thesis using assms sale_refresh_loop [where s = s and v = "sp_visible s"] by simp
next
  case (Sale_settles c answer now r eager)
  then show ?thesis using assms sale_settles_loop by (simp add: sale_legal_def)
next
  case (Sale_snapshot i k t snt rcv now)
  then show ?thesis using assms by (simp add: applySnapshot_def sale_loop_def split: option.split)
qed

lemma loop_one_live:
  assumes "loop_ok fs g n c t visible mounted"
  shows "live_flights fs g \<le> 1" and "live_flights fs g = 1 \<Longrightarrow> t = None"
    and "mounted \<and> visible \<Longrightarrow> live_flights fs g = 1 \<or> t \<noteq> None"
proof -
  note l = loop_live [OF assms]
  have t: "c = Some k \<Longrightarrow> t = None" for k using loop_okD(5) [OF assms] by blast
  show "live_flights fs g \<le> 1" using l by simp
  show "t = None" if "live_flights fs g = 1" using l that t by (cases c) simp_all
  show "live_flights fs g = 1 \<or> t \<noteq> None" if "mounted \<and> visible"
    using l assms that unfolding loop_ok_def by (cases c) auto
qed

interpretation sale: polling sale_step new_sale_poll sale_legal sale_loop
  "\<lambda>s. live_flights (sp_flights s) (sp_generation s)" sp_timer "\<lambda>s. sp_mounted s \<and> sp_visible s"
proof
  show "sale_loop new_sale_poll" by (simp add: sale_loop_def new_sale_poll_def loop_ok_def)
next
  fix e s assume "sale_legal e" "sale_loop s"
  then show "sale_loop (sale_step e s)" by (rule sale_step_loop)
next
  fix s assume "sale_loop s"
  then have l: "loop_ok (sp_flights s) (sp_generation s) (sp_fresh s) (sp_controller s) (sp_timer s) (sp_visible s) (sp_mounted s)"
    by (simp add: sale_loop_def)
  show "live_flights (sp_flights s) (sp_generation s) \<le> 1" by (rule loop_one_live [OF l])
  show "sp_timer s = None" if "live_flights (sp_flights s) (sp_generation s) = 1" by (rule loop_one_live(2) [OF l that])
  show "live_flights (sp_flights s) (sp_generation s) = 1 \<or> sp_timer s \<noteq> None" if "sp_mounted s \<and> sp_visible s"
    by (rule loop_one_live(3) [OF l that])
qed

section \<open>So are metrics and readiness\<close>

definition ops_loop :: "ops_poll \<Rightarrow> bool" where
  "ops_loop s \<longleftrightarrow> loop_ok (op_flights s) (op_generation s) (op_fresh s) (op_controller s) (op_timer s) (op_visible s) (op_mounted s)
     \<and> (op_running s \<longleftrightarrow> op_controller s \<noteq> None)"

lemma ops_begin_loop:
  assumes "loop_ok (op_flights s) (op_generation s) (op_fresh s) (op_controller s) None False True"
    and "op_timer s = None" "op_mounted s" "op_running s \<longleftrightarrow> op_controller s \<noteq> None"
  shows "ops_loop (ops_poll_begin force now s)"
proof (cases "op_controller s")
  case None
  with assms show ?thesis by (auto simp: ops_poll_begin_def ops_loop_def intro: loop_begin)
next
  case (Some k)
  with assms show ?thesis using loop_show [OF assms(1)] by (simp add: ops_poll_begin_def ops_loop_def)
qed

text \<open>Noting that one of the two requests is answered changes neither controllers nor generations.\<close>

lemma loop_map:
  assumes ok: "loop_ok fs g n c t visible mounted"
    and h: "\<And>f. fl_controller (h f) = fl_controller f \<and> fl_generation (h f) = fl_generation f \<and> fl_aborted (h f) = fl_aborted f"
  shows "loop_ok (map h fs) g n c t visible mounted"
proof -
  have same: "map fl_controller (map h fs) = map fl_controller fs" using h by simp
  show ?thesis using ok h unfolding loop_ok_def same by simp
qed

lemma ops_answer_loop:
  assumes "ops_loop s"
  shows "ops_loop (ops_metrics_settles c answer now r s)" "ops_loop (ops_readiness_settles c answer now r s)"
  using assms
  by (auto simp: ops_metrics_settles_def ops_readiness_settles_def ops_loop_def Let_def intro!: loop_map split: option.split if_splits)

lemma ops_joined_loop:
  assumes ok: "ops_loop s"
  shows "ops_loop (ops_joined c now s)"
proof (cases "find (\<lambda>f. fl_controller f = c \<and> \<not> of_metrics f \<and> \<not> of_readiness f) (op_flights s)")
  case None
  then show ?thesis using ok by (simp add: ops_joined_def)
next
  case (Some f)
  then have f: "f \<in> set (op_flights s)" by (auto simp: find_Some_iff)
  note l = conjunct1 [OF ok [unfolded ops_loop_def]]
  show ?thesis
  proof (cases "op_controller s = Some (fl_controller f)")
    case True
    with loop_land(1) [OF l f True] loop_okD(4) [OF l f] show ?thesis
      using Some by (simp add: ops_joined_def ops_loop_def ownsPoll_def Let_def)
  next
    case False
    with loop_land(2) [OF l f False] ok show ?thesis
      using Some by (simp add: ops_joined_def ops_loop_def ownsPoll_def Let_def)
  qed
qed

lemma ops_refresh_loop:
  assumes "ops_loop (s\<lparr>op_visible := v\<rparr>)" "op_mounted s"
  shows "ops_loop (ops_refresh now s)"
  unfolding ops_refresh_def
  by (rule ops_begin_loop) (use assms in \<open>auto simp: ops_loop_def intro: loop_pause\<close>)

lemma ops_step_loop:
  assumes "ops_loop s"
  shows "ops_loop (ops_step e s)"
proof (cases e)
  case (Ops_mount now)
  show ?thesis
  proof (cases "op_mounted s")
    case False
    with assms have "loop_ok (op_flights s) (op_generation s) (op_fresh s) (op_controller s) (op_timer s) (op_visible s) False"
      by (simp add: ops_loop_def)
    with loop_mount [OF this] have "ops_loop (ops_mount now s)"
      unfolding ops_mount_def using assms False by (intro ops_begin_loop) (auto simp: ops_loop_def loop_ok_def)
    with False Ops_mount show ?thesis by simp
  qed (use assms Ops_mount in simp)
next
  case Ops_unmount
  then show ?thesis using assms by (auto simp: ops_loop_def ops_unmount_def intro!: loop_unmount map_idI)
next
  case (Ops_visibility v now)
  then show ?thesis using assms ops_refresh_loop [where s = "s\<lparr>op_visible := v\<rparr>" and v = "op_visible s"]
    by (auto simp: ops_visibility_def Let_def ops_loop_def intro: loop_hide loop_unmounted)
next
  case (Ops_timer now)
  show ?thesis
  proof (cases "op_timer s")
    case (Some d)
    with assms have "op_controller s = None \<and> op_mounted s" unfolding ops_loop_def by (metis loop_timer)
    with assms have "ops_loop (ops_poll_begin False now (s\<lparr>op_timer := None\<rparr>))"
      by (intro ops_begin_loop) (auto simp: ops_loop_def intro: loop_pause)
    with Some Ops_timer show ?thesis by simp
  qed (use assms Ops_timer in simp)
next
  case (Ops_refresh now)
  then show ?thesis using assms ops_refresh_loop [where s = s and v = "op_visible s"] by simp
qed (use assms ops_answer_loop ops_joined_loop in simp_all)

interpretation ops: polling ops_step new_ops_poll "\<lambda>_. True" ops_loop
  "\<lambda>s. live_flights (op_flights s) (op_generation s)" op_timer "\<lambda>s. op_mounted s \<and> op_visible s"
proof
  show "ops_loop new_ops_poll" by (simp add: ops_loop_def new_ops_poll_def loop_ok_def)
next
  fix e s assume "ops_loop s"
  then show "ops_loop (ops_step e s)" by (rule ops_step_loop)
next
  fix s assume "ops_loop s"
  then have l: "loop_ok (op_flights s) (op_generation s) (op_fresh s) (op_controller s) (op_timer s) (op_visible s) (op_mounted s)"
    by (simp add: ops_loop_def)
  show "live_flights (op_flights s) (op_generation s) \<le> 1" by (rule loop_one_live [OF l])
  show "op_timer s = None" if "live_flights (op_flights s) (op_generation s) = 1" by (rule loop_one_live(2) [OF l that])
  show "live_flights (op_flights s) (op_generation s) = 1 \<or> op_timer s \<noteq> None" if "op_mounted s \<and> op_visible s"
    by (rule loop_one_live(3) [OF l that])
qed

section \<open>Properties\<close>

text \<open>A request that the current loop did not send cannot change what the page shows.\<close>

lemma stale_answer_ignored:
  assumes "\<And>f. f \<in> set (sp_flights s) \<Longrightarrow> fl_controller f = c \<Longrightarrow> fl_generation f \<noteq> sp_generation s"
  shows "sp_view (sale_poll_settles c answer now r eager s) = sp_view s"
  using assms
  by (auto simp: sale_poll_settles_def sale_poll_finally_def Let_def find_Some_iff split: option.split sum.split) 



end
