(* ===== verification/Web_App.thy ===== *)
theory Web_App
  imports Web_Poll
begin

text \<open>
  The page, apps/web/src/App.tsx: what a buyer types, the submission of a purchase, the lookup of a
  reservation, and the feedback for each, on top of the two polling hooks. A handler is split at its
  await. The controls that the components disable (the input and both buttons) are guards of the
  step relation. Of the feedback the tone and the heading are modelled; running text, which has
  characters outside Latin-1, is not, and a status line is a constructor with what the line
  mentions. Handlers see the state of the latest rendering, taken to be current.
\<close>

section \<open>Outcomes as the page shows them\<close>

datatype interaction =
    Idle | Submitting | Confirmed | Duplicate | Sold_out_seen | Not_started | Ended_seen | Rate_limited
  | Invalid | Unavailable | Unknown

datatype tone = Tone_success | Tone_warning | Tone_error | Tone_info

type_synonym feedback = "tone \<times> string"

fun outcomeFeedback :: "attempt_outcome \<Rightarrow> interaction \<times> feedback" where
  "outcomeFeedback (Decided CONFIRMED) = (Confirmed, Tone_success, ''Card secured'')"
| "outcomeFeedback (Decided ALREADY_PURCHASED) = (Duplicate, Tone_warning, ''You already hold a reservation'')"
| "outcomeFeedback (Decided SOLD_OUT) = (Sold_out_seen, Tone_error, ''Sold out'')"
| "outcomeFeedback (Decided SALE_NOT_STARTED) = (Not_started, Tone_info, ''Not open yet'')"
| "outcomeFeedback (Decided SALE_ENDED) = (Ended_seen, Tone_error, ''This drop is closed'')"
| "outcomeFeedback (Decided NOT_INITIALIZED) = (Unavailable, Tone_warning, ''Sale temporarily unavailable'')"
| "outcomeFeedback (Refused INVALID_USER_ID) = (Invalid, Tone_error, ''Check your identifier'')"
| "outcomeFeedback (Refused RATE_LIMITED) = (Rate_limited, Tone_warning, ''Too many attempts'')"
| "outcomeFeedback (Refused UPSTREAM_UNAVAILABLE) = (Unavailable, Tone_warning, ''Service temporarily unavailable'')"

datatype status_copy =
    Copy_reserved | Copy_persisted "string option" | Copy_released bool | Copy_none string bool | Copy_unavailable

definition statusCopy :: "js_value \<Rightarrow> bool \<Rightarrow> status_copy" where
  "statusCopy result active =
     (let purchased = (js_get result ''purchased'' = JBool True); order = js_get result ''order'';
          st = js_get order ''status''
      in if purchased \<and> st = JStr ''reserved'' then Copy_reserved
         else if purchased \<and> st = JStr ''persisted'' then
           Copy_persisted (case js_get order ''createdAt'' of JStr (c # cs) \<Rightarrow> Some (c # cs) | _ \<Rightarrow> None)
         else if \<not> purchased \<and> st = JStr ''compensated'' then Copy_released active
         else Copy_none (case js_get result ''userId'' of JStr u \<Rightarrow> u | _ \<Rightarrow> []) active)"

section \<open>The state of the page\<close>

record lookup =
  lk_controller :: nat
  lk_generation :: nat
  lk_userId :: string
  lk_active :: bool
  lk_aborted :: bool

record app =
  ui_sale :: sale_poll
  ui_ops :: ops_poll
  ui_tick :: int
  ui_userId :: string
  ui_attemptedId :: "string option"
  ui_interaction :: interaction
  ui_feedback :: "feedback option"
  ui_error :: bool
  ui_checkBusy :: bool
  ui_checkResult :: "(string \<times> status_copy) option"
  ui_rateUntil :: int
  ui_fresh :: nat
  ui_purchases :: "(nat \<times> string \<times> bool) list"
  ui_purchaseController :: "nat option"
  ui_lookups :: "lookup list"
  ui_statusController :: "nat option"
  ui_statusGeneration :: nat
  ui_currentNormalizedUserId :: string

definition new_app :: "int \<Rightarrow> app" where
  "new_app now =
     \<lparr>ui_sale = new_sale_poll, ui_ops = new_ops_poll, ui_tick = now, ui_userId = [], ui_attemptedId = None,
      ui_interaction = Idle, ui_feedback = None, ui_error = False, ui_checkBusy = False, ui_checkResult = None,
      ui_rateUntil = 0, ui_fresh = 0, ui_purchases = [], ui_purchaseController = None, ui_lookups = [],
      ui_statusController = None, ui_statusGeneration = 0, ui_currentNormalizedUserId = []\<rparr>"

definition page_state :: "app \<Rightarrow> sale_state option" where
  "page_state s =
     (case sv_sale (sp_view (ui_sale s)) of
        None \<Rightarrow> None
      | Some d \<Rightarrow> Some (derivePresentationState (int_field d ''startsAtMs'') (int_field d ''endsAtMs'')
          (int_field d ''stockRemaining'') (of_int (ui_tick s) + sv_offsetMs (sp_view (ui_sale s)))))"

definition rateSeconds :: "app \<Rightarrow> int" where
  "rateSeconds s = max 0 ((ui_rateUntil s - ui_tick s + 999) div 1000)"

datatype button_label =
    Loading_sale | Securing | Card_secured | Try_again_in int | Opens_soon | Button_sold_out | Sale_ended | Secure_your_card

definition button :: "app \<Rightarrow> button_label" where
  "button s =
     (if sv_sale (sp_view (ui_sale s)) = None then Loading_sale
      else if ui_interaction s = Submitting then Securing
      else if ui_interaction s = Confirmed \<and> ui_attemptedId s = Some (normalizeUserId (ui_userId s)) then Card_secured
      else if rateSeconds s > 0 then Try_again_in (rateSeconds s)
      else if page_state s = Some Upcoming then Opens_soon
      else if page_state s = Some Sold_out then Button_sold_out
      else if page_state s = Some Ended then Sale_ended
      else Secure_your_card)"

definition shown_check :: "app \<Rightarrow> status_copy option" where
  "shown_check s =
     (case ui_checkResult s of
        Some (u, copy) \<Rightarrow> if u = normalizeUserId (ui_userId s) then Some copy else None
      | None \<Rightarrow> None)"

section \<open>Handlers\<close>

definition abort_lookup :: "nat option \<Rightarrow> lookup list \<Rightarrow> lookup list" where
  "abort_lookup c ls = map (\<lambda>l. if c = Some (lk_controller l) then l\<lparr>lk_aborted := True\<rparr> else l) ls"

definition abort_purchase :: "nat option \<Rightarrow> (nat \<times> string \<times> bool) list \<Rightarrow> (nat \<times> string \<times> bool) list" where
  "abort_purchase c ps = map (\<lambda>(i, u, ab). (i, u, ab \<or> c = Some i)) ps"

definition changeUserId :: "string \<Rightarrow> app \<Rightarrow> app" where
  "changeUserId value s =
     (let normalized = normalizeUserId value;
          s1 = (if normalized \<noteq> ui_currentNormalizedUserId s
                then s\<lparr>ui_currentNormalizedUserId := normalized, ui_statusGeneration := ui_statusGeneration s + 1,
                       ui_lookups := abort_lookup (ui_statusController s) (ui_lookups s),
                       ui_statusController := None, ui_checkResult := None, ui_checkBusy := False\<rparr>
                else s);
          s2 = s1\<lparr>ui_userId := value, ui_error := False\<rparr>
      in if ui_attemptedId s \<noteq> None \<and> ui_attemptedId s \<noteq> Some normalized
         then s2\<lparr>ui_interaction := Idle, ui_feedback := None, ui_checkResult := None\<rparr>
         else s2)"

definition submit :: "app \<Rightarrow> app" where
  "submit s =
     (if ui_interaction s = Submitting then s
      else case validateUserId (ui_userId s) of
             None \<Rightarrow> s\<lparr>ui_error := True, ui_interaction := Invalid\<rparr>
           | Some u \<Rightarrow>
               s\<lparr>ui_error := False, ui_attemptedId := Some u, ui_interaction := Submitting, ui_feedback := None,
                 ui_fresh := ui_fresh s + 1, ui_purchaseController := Some (ui_fresh s),
                 ui_purchases := (ui_fresh s, u, False) # ui_purchases s\<rparr>)"

definition submit_finally :: "nat \<Rightarrow> app \<Rightarrow> app" where
  "submit_finally c s =
     (if ui_purchaseController s = Some c then s\<lparr>ui_purchaseController := None\<rparr> else s)"

definition submit_failed :: "bool \<Rightarrow> app \<Rightarrow> app" where
  "submit_failed ambiguous s =
     s\<lparr>ui_interaction := Unknown,
       ui_feedback := Some (Tone_warning, if ambiguous then ''Result unknown'' else ''We could not verify the result'')\<rparr>"

text \<open>What an answer to the purchase changes besides the feedback.\<close>

definition after_outcome :: "attempt_outcome \<Rightarrow> timed \<Rightarrow> int \<Rightarrow> app \<Rightarrow> app" where
  "after_outcome out response date_now s =
     (let d = t_data response; retry = (case t_retryAfterSeconds response of None \<Rightarrow> 0 | Some n \<Rightarrow> n);
          s1 = (if out = Refused INVALID_USER_ID then s\<lparr>ui_error := True\<rparr> else s);
          s2 = (if out = Refused RATE_LIMITED then s1\<lparr>ui_rateUntil := date_now + retry * 1000\<rparr> else s1);
          s3 = (if js_get d ''stockRemaining'' \<noteq> JNull
                then s2\<lparr>ui_sale := applySnapshot (case js_get d ''saleId'' of JStr i \<Rightarrow> i | _ \<Rightarrow> []) (int_field d ''stockRemaining'')
                       (int_field d ''serverTimeMs'') (t_sentAtMs response) (t_receivedAtMs response) date_now (ui_sale s2)\<rparr>
                else s2);
          s4 = (if out \<notin> {Decided ALREADY_PURCHASED, Refused INVALID_USER_ID, Refused RATE_LIMITED}
                then s3\<lparr>ui_sale := sale_refresh (ui_sale s3)\<rparr> else s3)
      in s4\<lparr>ui_ops := ops_refresh date_now (ui_ops s4)\<rparr>)"

text \<open>
  The answer. A status that the table of outcomes does not have would make the lookup in the table
  throw, and end in the \<open>catch\<close> block.
\<close>

definition purchase_settles :: "nat \<Rightarrow> client_error + timed \<Rightarrow> int \<Rightarrow> app \<Rightarrow> app" where
  "purchase_settles c answer date_now s =
     (case find (\<lambda>(i, _, _). i = c) (ui_purchases s) of
        None \<Rightarrow> s
      | Some (i, u, aborted) \<Rightarrow>
          (let s0 = s\<lparr>ui_purchases := remove1 (i, u, aborted) (ui_purchases s)\<rparr>
           in submit_finally c
                (case answer of
                   Inr response \<Rightarrow>
                     (case parse_attempt_outcome (js_get (t_data response) ''status'') of
                        Some out \<Rightarrow>
                          (case outcomeFeedback out of (next, fb) \<Rightarrow>
                             after_outcome out response date_now (s0\<lparr>ui_interaction := next, ui_feedback := Some fb\<rparr>))
                      | None \<Rightarrow> if aborted then s0 else submit_failed False s0)
                 | Inl (ApiClientError kind _ _) \<Rightarrow>
                     if aborted then s0 else submit_failed (kind = Network \<or> kind = Timeout) s0)))"

definition ownsLookup :: "lookup \<Rightarrow> app \<Rightarrow> bool" where
  "ownsLookup l s \<longleftrightarrow> lk_generation l = ui_statusGeneration s \<and> ui_statusController s = Some (lk_controller l)
     \<and> \<not> lk_aborted l \<and> ui_currentNormalizedUserId s = lk_userId l"

definition check :: "app \<Rightarrow> app" where
  "check s =
     (case validateUserId (ui_userId s) of
        None \<Rightarrow> s\<lparr>ui_error := True\<rparr>
      | Some u \<Rightarrow>
          s\<lparr>ui_statusGeneration := ui_statusGeneration s + 1, ui_fresh := ui_fresh s + 1,
            ui_lookups := \<lparr>lk_controller = ui_fresh s, lk_generation = ui_statusGeneration s + 1, lk_userId = u,
              lk_active = (page_state s = Some Active), lk_aborted = False\<rparr> # abort_lookup (ui_statusController s) (ui_lookups s),
            ui_statusController := Some (ui_fresh s), ui_currentNormalizedUserId := u,
            ui_checkBusy := True, ui_checkResult := None\<rparr>)"

definition lookup_copy :: "lookup \<Rightarrow> client_error + timed \<Rightarrow> status_copy" where
  "lookup_copy l answer =
     (case answer of
        Inr response \<Rightarrow>
          (case js_get (t_data response) ''userId'' of
             JStr u \<Rightarrow> if normalizeUserId u = lk_userId l then statusCopy (t_data response) (lk_active l) else Copy_unavailable
           | _ \<Rightarrow> Copy_unavailable)
      | Inl _ \<Rightarrow> Copy_unavailable)"

definition lookup_settles :: "nat \<Rightarrow> client_error + timed \<Rightarrow> app \<Rightarrow> app" where
  "lookup_settles c answer s =
     (case find (\<lambda>l. lk_controller l = c) (ui_lookups s) of
        None \<Rightarrow> s
      | Some l \<Rightarrow>
          (let s0 = s\<lparr>ui_lookups := remove1 l (ui_lookups s)\<rparr>
           in if ownsLookup l s
              then s0\<lparr>ui_checkResult := Some (lk_userId l, lookup_copy l answer), ui_statusController := None, ui_checkBusy := False\<rparr>
              else s0))"

text \<open>The effects: the clock tick, the end of a rate limit, and the clean-up at unmounting.\<close>

definition rate_effect :: "app \<Rightarrow> app" where
  "rate_effect s = (if ui_interaction s = Rate_limited \<and> rateSeconds s = 0 then s\<lparr>ui_interaction := Idle\<rparr> else s)"

definition cleanup :: "app \<Rightarrow> app" where
  "cleanup s =
     s\<lparr>ui_statusGeneration := ui_statusGeneration s + 1,
       ui_purchases := abort_purchase (ui_purchaseController s) (ui_purchases s), ui_purchaseController := None,
       ui_lookups := abort_lookup (ui_statusController s) (ui_lookups s), ui_statusController := None\<rparr>"

section \<open>Runs of the page\<close>

datatype app_event =
    Change string | Submit | Check | Purchase_settles nat "client_error + timed" int | Lookup_settles nat "client_error + timed"
  | Tick int | Rate_over | Cleanup | Sale_event sale_event | Ops_event ops_event

inductive app_step :: "app \<Rightarrow> app_event \<Rightarrow> app \<Rightarrow> bool" where
  change: "ui_interaction s \<noteq> Submitting \<Longrightarrow> app_step s (Change v) (changeUserId v s)"
| submit: "button s = Secure_your_card \<Longrightarrow> app_step s Submit (submit s)"
| check: "\<not> ui_checkBusy s \<Longrightarrow> ui_interaction s \<noteq> Submitting \<Longrightarrow> app_step s Check (check s)"
| purchase: "app_step s (Purchase_settles c answer now) (purchase_settles c answer now s)"
| lookup: "app_step s (Lookup_settles c answer) (lookup_settles c answer s)"
| tick: "app_step s (Tick now) (s\<lparr>ui_tick := now\<rparr>)"
| rate: "app_step s Rate_over (rate_effect s)"
| cleanup: "app_step s Cleanup (cleanup s)"
| sale: "app_step s (Sale_event e) (s\<lparr>ui_sale := sale_step e (ui_sale s)\<rparr>)"
| ops: "app_step s (Ops_event e) (s\<lparr>ui_ops := ops_step e (ui_ops s)\<rparr>)"

inductive app_run :: "app_event list \<Rightarrow> app \<Rightarrow> bool" where
  opened: "app_run [] (new_app now)"
| stepped: "app_run es s \<Longrightarrow> app_step s e s' \<Longrightarrow> app_run (es @ [e]) s'"

section \<open>What the page may claim\<close>

text \<open>
  A confirmation for a user was told: in the run, a purchase submitted for that user was answered
  \<open>CONFIRMED\<close>. A status line for a user was looked up: in the run, a lookup for that user was
  answered for the same user, with the data that the line is made from.
\<close>

definition told_for :: "app_event list \<Rightarrow> string \<Rightarrow> bool" where
  "told_for es u \<longleftrightarrow> (\<exists>es1 es2 s c ab told now. es = es1 @ Purchase_settles c (Inr told) now # es2 \<and> app_run es1 s
     \<and> (c, u, ab) \<in> set (ui_purchases s) \<and> js_get (t_data told) ''status'' = JStr ''CONFIRMED'')"

definition looked_up :: "app_event list \<Rightarrow> string \<Rightarrow> status_copy \<Rightarrow> bool" where
  "looked_up es u copy \<longleftrightarrow> (\<exists>es1 es2 s l told raw. es = es1 @ Lookup_settles (lk_controller l) (Inr told) # es2 \<and> app_run es1 s
     \<and> l \<in> set (ui_lookups s) \<and> lk_userId l = u \<and> js_get (t_data told) ''userId'' = JStr raw \<and> normalizeUserId raw = u
     \<and> copy = statusCopy (t_data told) (lk_active l))"

lemma told_for_mono: "told_for es u \<Longrightarrow> told_for (es @ [e]) u"
  unfolding told_for_def by (metis append.assoc append_Cons)

lemma looked_up_mono: "looked_up es u copy \<Longrightarrow> looked_up (es @ [e]) u copy"
  unfolding looked_up_def by (metis append.assoc append_Cons)

definition purchase_ok :: "app \<Rightarrow> bool" where
  "purchase_ok s \<longleftrightarrow> ui_purchases s = []
     \<or> (\<exists>c u ab. ui_purchases s = [(c, u, ab)] \<and> ui_interaction s = Submitting \<and> ui_attemptedId s = Some u
          \<and> normalizeUserId (ui_userId s) = u)"

definition claims_ok :: "app_event list \<Rightarrow> app \<Rightarrow> bool" where
  "claims_ok es s \<longleftrightarrow> purchase_ok s
     \<and> (ui_interaction s = Confirmed \<longrightarrow> (\<exists>u. ui_attemptedId s = Some u \<and> told_for es u))
     \<and> (\<forall>u copy. ui_checkResult s = Some (u, copy) \<longrightarrow> copy = Copy_unavailable \<or> looked_up es u copy)"

text \<open>The parts of the page that no claim depends on.\<close>

definition claim_parts :: "app \<Rightarrow> _" where
  "claim_parts s = (ui_purchases s, ui_interaction s, ui_attemptedId s, normalizeUserId (ui_userId s), ui_checkResult s)"

lemma claims_cong:
  assumes same: "claim_parts s' = claim_parts s" and ok: "claims_ok es s"
  shows "claims_ok (es @ [e]) s'"
proof -
  from same have eq: "ui_purchases s' = ui_purchases s" "ui_interaction s' = ui_interaction s"
    "ui_attemptedId s' = ui_attemptedId s" "normalizeUserId (ui_userId s') = normalizeUserId (ui_userId s)"
    "ui_checkResult s' = ui_checkResult s"
    by (simp_all add: claim_parts_def)
  show ?thesis using ok told_for_mono looked_up_mono unfolding claims_ok_def purchase_ok_def eq by meson
qed

lemma find_in_set: "find P xs = Some x \<Longrightarrow> x \<in> set xs \<and> P x"
  by (auto simp: find_Some_iff)

lemma after_outcome_parts:
  "claim_parts (after_outcome out response now s) = claim_parts s"
  by (simp add: after_outcome_def claim_parts_def Let_def)

lemma finally_parts: "claim_parts (submit_finally c s) = claim_parts s"
  by (simp add: submit_finally_def claim_parts_def)

lemma outcome_confirmed: "fst (outcomeFeedback out) = Confirmed \<longleftrightarrow> out = Decided CONFIRMED"
  "fst (outcomeFeedback out) \<noteq> Submitting"
  by (cases out rule: outcomeFeedback.cases; simp)+

lemma parse_confirmed: "parse_attempt_outcome v = Some (Decided CONFIRMED) \<Longrightarrow> v = JStr ''CONFIRMED''"
  by (auto simp: parse_attempt_outcome_def find_Some_iff split: js_value.splits dest: sym)

text \<open>The answer to the one purchase under way.\<close>

lemma purchase_settles_ok:
  assumes run: "app_run es s" and ok: "claims_ok es s"
  shows "claims_ok (es @ [Purchase_settles c answer now]) (purchase_settles c answer now s)" (is "claims_ok ?es ?s'")
proof (cases "find (\<lambda>(i, _, _). i = c) (ui_purchases s)")
  case None
  then show ?thesis using claims_cong [OF refl ok] by (simp add: purchase_settles_def)
next
  case (Some p)
  then obtain u ab where p: "p = (c, u, ab)" "(c, u, ab) \<in> set (ui_purchases s)" by (auto dest: find_in_set)
  then have one: "ui_purchases s = [(c, u, ab)]" "ui_attemptedId s = Some u" and sub: "ui_interaction s = Submitting"
    using ok by (auto simp: claims_ok_def purchase_ok_def)
  have chk: "copy = Copy_unavailable \<or> looked_up ?es u' copy" if "ui_checkResult s = Some (u', copy)" for u' copy
    using ok that looked_up_mono by (auto simp: claims_ok_def)
  have parts: "claims_ok ?es s1" if "claim_parts s1 = ([], i, Some u, n, ui_checkResult s)"
    "i = Confirmed \<Longrightarrow> told_for ?es u" for s1 i n
    using that chk by (auto simp: claims_ok_def purchase_ok_def claim_parts_def)
  have told: "told_for ?es u" if "answer = Inr told" "js_get (t_data told) ''status'' = JStr ''CONFIRMED''" for told
    unfolding told_for_def using run p(2) that by (intro exI [of _ es] exI [of _ "[]"]) auto
  let ?s0 = "s\<lparr>ui_purchases := []\<rparr>"
  have failed: "claims_ok ?es (submit_finally c (if ab then ?s0 else submit_failed b ?s0))" for b
  proof (rule parts)
    show "claim_parts (submit_finally c (if ab then ?s0 else submit_failed b ?s0))
        = ([], if ab then Submitting else Unknown, Some u, normalizeUserId (ui_userId s), ui_checkResult s)"
      using one sub by (simp add: finally_parts) (simp add: claim_parts_def submit_failed_def)
  qed (simp split: if_splits)
  show ?thesis
  proof (cases answer)
    case (Inl e)
    then show ?thesis using Some p one failed by (cases e; cases ab) (simp_all add: purchase_settles_def Let_def)
  next
    case (Inr response)
    show ?thesis
    proof (cases "parse_attempt_outcome (js_get (t_data response) ''status'')")
      case None
      then show ?thesis using Inr Some p one failed by (cases ab) (simp_all add: purchase_settles_def Let_def)
    next
      case (Some out)
      obtain i fb where fb: "outcomeFeedback out = (i, fb)" by (cases "outcomeFeedback out")
      have "told_for ?es u" if "i = Confirmed"
        using that told [OF Inr parse_confirmed] Some outcome_confirmed(1) [of out] fb by simp
      moreover have "?s' = submit_finally c (after_outcome out response now
          (s\<lparr>ui_purchases := [], ui_interaction := i, ui_feedback := Some fb\<rparr>))"
        using Inr Some \<open>find _ _ = Some p\<close> p one fb by (simp add: purchase_settles_def)
      ultimately show ?thesis using one
        by (intro parts) (simp_all add: finally_parts after_outcome_parts, simp add: claim_parts_def)
    qed
  qed
qed

lemma lookup_settles_ok:
  assumes run: "app_run es s" and ok: "claims_ok es s"
  shows "claims_ok (es @ [Lookup_settles c answer]) (lookup_settles c answer s)" (is "claims_ok ?es ?s'")
proof (cases "find (\<lambda>l. lk_controller l = c) (ui_lookups s)")
  case None
  then show ?thesis using claims_cong [OF refl ok] by (simp add: lookup_settles_def)
next
  case (Some l)
  then have l: "l \<in> set (ui_lookups s)" "lk_controller l = c" by (auto dest: find_in_set)
  show ?thesis
  proof (cases "ownsLookup l s")
    case False
    then show ?thesis using Some by (intro claims_cong [OF _ ok]) (simp add: lookup_settles_def claim_parts_def)
  next
    case True
    have "lookup_copy l answer = Copy_unavailable \<or> looked_up ?es (lk_userId l) (lookup_copy l answer)"
    proof (cases "\<exists>told raw. answer = Inr told \<and> js_get (t_data told) ''userId'' = JStr raw \<and> normalizeUserId raw = lk_userId l")
      case True
      then obtain told raw where "answer = Inr told" "js_get (t_data told) ''userId'' = JStr raw" "normalizeUserId raw = lk_userId l"
        by blast
      then have "looked_up ?es (lk_userId l) (lookup_copy l answer)" unfolding looked_up_def lookup_copy_def
        using run l by (intro exI [of _ es] exI [of _ "[]"] exI [of _ s] exI [of _ l]) simp
      then show ?thesis ..
    next
      case False
      then show ?thesis by (auto simp: lookup_copy_def split: sum.split js_value.split)
    qed
    then show ?thesis using True Some ok told_for_mono
      by (auto simp: claims_ok_def purchase_ok_def lookup_settles_def)
  qed
qed

lemma claims_step:
  assumes run: "app_run es s" and ok: "claims_ok es s" and step: "app_step s e s'"
  shows "claims_ok (es @ [e]) s'"
  using step
proof (cases rule: app_step.cases)
  case (change v)
  have "ui_purchases s = []" using ok change(3) by (auto simp: claims_ok_def purchase_ok_def)
  with ok show ?thesis unfolding change
    using told_for_mono looked_up_mono
    by (auto simp: changeUserId_def claims_ok_def purchase_ok_def Let_def split: if_splits)
next
  case submit
  have idle: "ui_interaction s \<noteq> Submitting" using submit(3) by (auto simp: button_def split: if_splits)
  then have none: "ui_purchases s = []" using ok by (auto simp: claims_ok_def purchase_ok_def)
  have chk: "copy = Copy_unavailable \<or> looked_up (es @ [e]) u copy" if "ui_checkResult s = Some (u, copy)" for u copy
    using ok that looked_up_mono by (auto simp: claims_ok_def)
  show ?thesis unfolding submit(2)
  proof (cases "validateUserId (ui_userId s)")
    case None
    then show "claims_ok (es @ [e]) (submit s)" using idle none chk by (simp add: submit_def claims_ok_def purchase_ok_def)
  next
    case (Some u)
    then have "normalizeUserId (ui_userId s) = u" using validateUserId_valid [OF Some] by (simp add: normalizeUserId_def)
    with Some show "claims_ok (es @ [e]) (submit s)" using idle none chk by (auto simp: submit_def claims_ok_def purchase_ok_def)
  qed
next
  case check
  have none: "ui_purchases s = []" using ok check(4) by (auto simp: claims_ok_def purchase_ok_def)
  show ?thesis unfolding check(2)
    using ok none told_for_mono looked_up_mono by (auto simp: check_def claims_ok_def purchase_ok_def split: option.split)
next
  case (purchase c answer now)
  then show ?thesis using purchase_settles_ok [OF run ok] by simp
next
  case (lookup c answer)
  then show ?thesis using lookup_settles_ok [OF run ok] by simp
next
  case rate
  have "claims_ok (es @ [e]) s" by (rule claims_cong [OF refl ok])
  then show ?thesis unfolding rate by (auto simp: rate_effect_def claims_ok_def purchase_ok_def)
next
  case cleanup
  have "claims_ok (es @ [e]) s" by (rule claims_cong [OF refl ok])
  then show ?thesis unfolding cleanup by (auto simp: cleanup_def abort_purchase_def claims_ok_def purchase_ok_def)
qed (use ok in \<open>auto intro!: claims_cong [OF _ ok] simp: claim_parts_def\<close>)

lemma claims_run: "app_run es s \<Longrightarrow> claims_ok es s"
proof (induction rule: app_run.induct)
  case (opened now)
  show ?case by (simp add: claims_ok_def purchase_ok_def new_app_def)
next
  case (stepped es s e s')
  then show ?case using claims_step by blast
qed

text \<open>
  C11: the page makes no claim for another user. In every run of the page, whatever the order of
  typing, submitting, looking up, answers and timers: at most one purchase is under way, and it is
  the one for the identifier in the field; the button reads \<open>Card secured\<close> only when a purchase
  submitted for exactly the identifier in the field was answered \<open>CONFIRMED\<close>; and a status line
  other than the notice of unavailability stands there only when a lookup for exactly that
  identifier was answered for the same user, with the data that the line tells.
\<close>

theorem page_claims_are_own:
  assumes "app_run es s"
  shows "(\<forall>c u ab. (c, u, ab) \<in> set (ui_purchases s) \<longrightarrow>
            ui_purchases s = [(c, u, ab)] \<and> u = normalizeUserId (ui_userId s) \<and> button s \<noteq> Secure_your_card)
     \<and> (button s = Card_secured \<longrightarrow> told_for es (normalizeUserId (ui_userId s)))
     \<and> (\<forall>copy. shown_check s = Some copy \<and> copy \<noteq> Copy_unavailable \<longrightarrow> looked_up es (normalizeUserId (ui_userId s)) copy)"
proof -
  note ok = claims_run [OF assms]
  have "ui_purchases s = [(c, u, ab)] \<and> u = normalizeUserId (ui_userId s) \<and> button s \<noteq> Secure_your_card"
    if "(c, u, ab) \<in> set (ui_purchases s)" for c u ab
    using ok that by (auto simp: claims_ok_def purchase_ok_def button_def)
  moreover have "told_for es (normalizeUserId (ui_userId s))" if "button s = Card_secured"
    using ok that by (auto simp: claims_ok_def button_def split: if_splits)
  moreover have "looked_up es (normalizeUserId (ui_userId s)) copy" if "shown_check s = Some copy" "copy \<noteq> Copy_unavailable" for copy
    using ok that by (auto simp: claims_ok_def shown_check_def split: option.splits if_splits)
  ultimately show ?thesis by blast
qed

definition sample_sale_data :: js_value where
  "sample_sale_data = JObj [(''saleId'', JStr ''flash-2026''), (''status'', JStr ''active''), (''startsAtMs'', JNum (Fin 0)),
     (''endsAtMs'', JNum (Fin 100000)), (''totalStock'', JNum (Fin 2)), (''stockRemaining'', JNum (Fin 2)),
     (''serverTimeMs'', JNum (Fin 10))]"

definition sample_timed :: "js_value \<Rightarrow> timed" where
  "sample_timed d = \<lparr>t_data = d, t_sentAtMs = 8, t_receivedAtMs = 12, t_retryAfterSeconds = None\<rparr>"

definition sample_open_page :: app where
  "sample_open_page = changeUserId '' bob '' ((new_app 10)\<lparr>ui_sale :=
     fold sale_step [Sale_mount, Sale_settles 0 (Inr (sample_timed sample_sale_data)) 12 (1 / 2) True] new_sale_poll\<rparr>)"

lemma sample_open_page_run:
  "app_run [Sale_event Sale_mount, Sale_event (Sale_settles 0 (Inr (sample_timed sample_sale_data)) 12 (1 / 2) True),
     Change '' bob ''] sample_open_page"
proof -
  let ?e = "Sale_settles 0 (Inr (sample_timed sample_sale_data)) 12 (1 / 2) True"
  let ?s1 = "(new_app 10)\<lparr>ui_sale := sale_step Sale_mount (ui_sale (new_app 10))\<rparr>"
  let ?s2 = "?s1\<lparr>ui_sale := sale_step ?e (ui_sale ?s1)\<rparr>"
  have 1: "app_run [Sale_event Sale_mount] ?s1" using stepped [OF opened [of 10] app_step.sale] by (simp del: sale_step.simps)
  have 2: "app_run [Sale_event Sale_mount, Sale_event ?e] ?s2" using stepped [OF 1 app_step.sale] by (simp del: sale_step.simps)
  have "app_step ?s2 (Change '' bob '') (changeUserId '' bob '' ?s2)" by (rule app_step.change) (simp add: new_app_def)
  from stepped [OF 2 this] show ?thesis by (simp add: sample_open_page_def new_app_def del: sale_step.simps)
qed

definition sample_told :: timed where
  "sample_told = sample_timed (JObj [(''status'', JStr ''CONFIRMED''), (''userId'', JStr ''bob''), (''saleId'', JStr ''flash-2026''),
     (''stockRemaining'', JNum (Fin 1)), (''serverTimeMs'', JNum (Fin 20))])"

theorem page_claims_are_own_witness:
  "\<exists>es. app_run es (purchase_settles 0 (Inr sample_told) 20 (submit sample_open_page))
     \<and> button (purchase_settles 0 (Inr sample_told) 20 (submit sample_open_page)) = Card_secured \<and> told_for es ''bob''"
proof -
  have page: "button sample_open_page = Secure_your_card"
    "button (purchase_settles 0 (Inr sample_told) 20 (submit sample_open_page)) = Card_secured"
    "normalizeUserId (ui_userId (purchase_settles 0 (Inr sample_told) 20 (submit sample_open_page))) = ''bob''"
    by code_simp+
  from stepped [OF stepped [OF sample_open_page_run app_step.submit [OF page(1)]] app_step.purchase]
  obtain es where run: "app_run es (purchase_settles 0 (Inr sample_told) 20 (submit sample_open_page))" by blast
  with page_claims_are_own [OF run] page show ?thesis by auto
qed

end
