(* ===== verification/Shutdown.thy ===== *)
theory Shutdown
  imports Prelude
begin

text \<open>
  How the two processes end: apps/api/src/infra/infra.module.ts and process-shutdown.ts,
  apps/worker/src/infra/infra.module.ts and the handlers of apps/worker/src/main.ts. What closing a
  resource does is decided outside (ioredis, BullMQ, pg): it settles or fails after some
  milliseconds, or never. Timers are exact, and a settlement in the very millisecond of a deadline
  comes first. Log lines are left out; the list of attempts with their results is kept instead.
\<close>

section \<open>Closing one resource\<close>

datatype fate = Settles int | Fails int | Hangs

datatype closing = Closed | Failed | Timed_out

type_synonym attempts = "(string \<times> int \<times> closing) list"

fun race :: "int \<Rightarrow> fate \<Rightarrow> int \<times> closing" where
  "race budget (Settles t) = (if t \<le> budget then (t, Closed) else (budget, Timed_out))"
| "race budget (Fails t) = (if t \<le> budget then (t, Failed) else (budget, Timed_out))"
| "race budget Hangs = (budget, Timed_out)"

fun takes_time :: "fate \<Rightarrow> bool" where
  "takes_time (Settles t) = (0 \<le> t)"
| "takes_time (Fails t) = (0 \<le> t)"
| "takes_time Hangs = True"

section \<open>InfraModule of the API\<close>

definition PROCESS_SHUTDOWN_BUDGET_MS :: int where "PROCESS_SHUTDOWN_BUDGET_MS = 5000"

definition RESOURCE_SHUTDOWN_BUDGET_MS :: int where "RESOURCE_SHUTDOWN_BUDGET_MS = 1000"

text \<open>An attempt that starts at \<open>now\<close>: the time it ends, and the attempts with it appended.\<close>

definition attemptWithinBudget :: "string \<Rightarrow> fate \<Rightarrow> int \<Rightarrow> int \<times> attempts \<Rightarrow> int \<times> attempts" where
  "attemptWithinBudget label op timeoutMs =
     (\<lambda>(now, log). case race timeoutMs op of (t, outcome) \<Rightarrow> (now + t, log @ [(label, timeoutMs, outcome)]))"

text \<open>
  A Redis client: already ended, or with the fate of its \<open>QUIT\<close> and the moment of its \<open>end\<close> event, if
  there is one. \<open>closeRedisClient\<close> answers a failed \<open>QUIT\<close> with a hard disconnect and does not fail.
\<close>

record redis_client =
  rd_ended :: bool
  rd_quit :: fate
  rd_end :: "int option"

definition closeRedisClient :: "fate \<Rightarrow> fate" where
  "closeRedisClient quit = (case quit of Settles t \<Rightarrow> Settles t | Fails t \<Rightarrow> Settles t | Hangs \<Rightarrow> Hangs)"

definition close_and_await_end :: "redis_client \<Rightarrow> fate" where
  "close_and_await_end client =
     (case closeRedisClient (rd_quit client) of
        Settles t \<Rightarrow> (case rd_end client of Some e \<Rightarrow> Settles (max t e) | None \<Rightarrow> Hangs)
      | other \<Rightarrow> other)"

definition closeRedisClientOnce :: "string \<Rightarrow> redis_client \<Rightarrow> int \<times> attempts \<Rightarrow> int \<times> attempts" where
  "closeRedisClientOnce label client s =
     (if rd_ended client then s
      else attemptWithinBudget label (close_and_await_end client) RESOURCE_SHUTDOWN_BUDGET_MS s)"

text \<open>\<open>Promise.all\<close> of two closings that start together.\<close>

definition both :: "(int \<times> attempts \<Rightarrow> int \<times> attempts) \<Rightarrow> (int \<times> attempts \<Rightarrow> int \<times> attempts) \<Rightarrow> int \<times> attempts \<Rightarrow> int \<times> attempts" where
  "both f g s = (case f s of (t1, log1) \<Rightarrow> (case g (fst s, log1) of (t2, log2) \<Rightarrow> (max t1 t2, log2)))"

record api_resources =
  ar_queue :: fate
  ar_probe :: fate
  ar_store :: redis_client
  ar_limit :: redis_client
  ar_pool :: fate
  ar_pool_ended :: bool

definition closePgPoolOnce :: "bool \<Rightarrow> fate \<Rightarrow> int \<Rightarrow> int \<times> attempts \<Rightarrow> int \<times> attempts" where
  "closePgPoolOnce ended pool timeoutMs s =
     (if ended then s else attemptWithinBudget ''pg_pool.end'' pool timeoutMs s)"

definition shutdownSequence :: "api_resources \<Rightarrow> int \<Rightarrow> int \<times> attempts" where
  "shutdownSequence r startedAt =
     (let s1 = attemptWithinBudget ''orders_queue.close'' (ar_queue r) RESOURCE_SHUTDOWN_BUDGET_MS (startedAt, []);
          s2 = attemptWithinBudget ''queue_depth_probe.close'' (ar_probe r) RESOURCE_SHUTDOWN_BUDGET_MS s1;
          s3 = both (closeRedisClientOnce ''redis_store.close'' (ar_store r))
                    (closeRedisClientOnce ''redis_limit.close'' (ar_limit r)) s2;
          remaining = max 0 (PROCESS_SHUTDOWN_BUDGET_MS - (fst s3 - startedAt))
      in closePgPoolOnce (ar_pool_ended r) (ar_pool r) remaining s3)"

definition onApplicationShutdown ::
  "api_resources \<Rightarrow> int \<Rightarrow> (int \<times> attempts) option \<Rightarrow> (int \<times> attempts) \<times> (int \<times> attempts) option" where
  "onApplicationShutdown r now shutdownPromise =
     (let p = (case shutdownPromise of Some p \<Rightarrow> p | None \<Rightarrow> shutdownSequence r now) in (p, Some p))"

section \<open>ProcessShutdownController\<close>

definition PROCESS_WATCHDOG_MS :: int where "PROCESS_WATCHDOG_MS = 5000"

record controller =
  ct_closing :: bool
  ct_watchdog :: "int option"
  ct_exitCode :: int
  ct_exit :: "(int \<times> int) option"

definition new_controller :: controller where
  "new_controller = \<lparr>ct_closing = False, ct_watchdog = None, ct_exitCode = 0, ct_exit = None\<rparr>"

definition armWatchdog :: "int \<Rightarrow> controller \<Rightarrow> controller" where
  "armWatchdog now c = (if ct_watchdog c \<noteq> None then c else c\<lparr>ct_watchdog := Some (now + PROCESS_WATCHDOG_MS)\<rparr>)"

definition shutdown_called :: "int \<Rightarrow> int \<Rightarrow> controller \<Rightarrow> controller" where
  "shutdown_called exitCode now c =
     (let c1 = (if exitCode \<noteq> 0 then c\<lparr>ct_exitCode := 1\<rparr> else c) in (armWatchdog now c1)\<lparr>ct_closing := True\<rparr>)"

definition close_settled :: "bool \<Rightarrow> int \<Rightarrow> controller \<Rightarrow> controller" where
  "close_settled failed now c =
     (let c1 = (if failed then c\<lparr>ct_exitCode := 1\<rparr> else c)
      in c1\<lparr>ct_watchdog := None, ct_exit := Some (now, ct_exitCode c1)\<rparr>)"

definition watchdog_fires :: "int \<Rightarrow> controller \<Rightarrow> controller" where
  "watchdog_fires now c = c\<lparr>ct_exit := Some (now, 1)\<rparr>"

text \<open>
  A life of the process, event by event with its instants: no event is later than a pending
  watchdog, which fires at its deadline; nothing follows an exit.
\<close>

datatype ctl_event = Called int | Close_done bool | Watchdog

inductive ctl_run :: "(int \<times> ctl_event) list \<Rightarrow> controller \<Rightarrow> bool" where
  idle: "ctl_run [] new_controller"
| called: "ctl_run es c \<Longrightarrow> ct_exit c = None \<Longrightarrow> (\<forall>d. ct_watchdog c = Some d \<longrightarrow> now \<le> d) \<Longrightarrow>
    ctl_run (es @ [(now, Called code)]) (shutdown_called code now c)"
| closed: "ctl_run es c \<Longrightarrow> ct_exit c = None \<Longrightarrow> ct_closing c \<Longrightarrow> (\<forall>d. ct_watchdog c = Some d \<longrightarrow> now \<le> d) \<Longrightarrow>
    ctl_run (es @ [(now, Close_done failed)]) (close_settled failed now c)"
| fired: "ctl_run es c \<Longrightarrow> ct_exit c = None \<Longrightarrow> ct_watchdog c = Some d \<Longrightarrow>
    ctl_run (es @ [(d, Watchdog)]) (watchdog_fires d c)"

section \<open>InfraModule of the worker\<close>

text \<open>\<open>within\<close>: the time it takes, and the error when the operation failed or was late.\<close>

definition within_budget :: "fate \<Rightarrow> int \<Rightarrow> int \<times> bool" where
  "within_budget op timeoutMs = (case race timeoutMs op of (t, outcome) \<Rightarrow> (t, outcome \<noteq> Closed))"

record worker_resources =
  wr_queue :: fate
  wr_store :: fate
  wr_admin :: fate
  wr_pool :: fate

text \<open>The pool is awaited without a budget: \<open>None\<close> when that never ends. The errors in the order of the list.\<close>

definition worker_close :: "worker_resources \<Rightarrow> (int \<times> string list) option" where
  "worker_close r =
     (case within_budget (wr_queue r) 2000 of (t1, e1) \<Rightarrow>
      (case (within_budget (closeRedisClient (wr_store r)) 2000, within_budget (closeRedisClient (wr_admin r)) 2000) of
        ((t2, e2), (t3, e3)) \<Rightarrow>
          (let errors = (if e1 then [''queue''] else []) @ (if e2 then [''store''] else []) @ (if e3 then [''admin''] else [])
           in case wr_pool r of
                Settles t \<Rightarrow> Some (t1 + max t2 t3 + t, errors)
              | Fails t \<Rightarrow> Some (t1 + max t2 t3 + t, errors @ [''pool''])
              | Hangs \<Rightarrow> None)))"

section \<open>The worker's process handlers\<close>

definition WORKER_SHUTDOWN_WATCHDOG_MS :: int where "WORKER_SHUTDOWN_WATCHDOG_MS = 10000"

definition then_await :: "string \<Rightarrow> fate \<Rightarrow> (int \<times> string list) option \<Rightarrow> (int \<times> string list) option" where
  "then_await label op so_far =
     (case so_far of
        None \<Rightarrow> None
      | Some (t, errors) \<Rightarrow>
          (case op of Settles d \<Rightarrow> Some (t + d, errors) | Fails d \<Rightarrow> Some (t + d, errors @ [label]) | Hangs \<Rightarrow> None))"

text \<open>\<open>shutdown\<close>: the reconciliation, the consumer and the application, whatever the earlier ones did.\<close>

definition worker_shutdown :: "fate \<Rightarrow> fate \<Rightarrow> fate \<Rightarrow> (int \<times> string list) option" where
  "worker_shutdown reconciliation consumer app =
     then_await ''application'' app (then_await ''consumer'' consumer (then_await ''reconciliation'' reconciliation (Some (0, []))))"

text \<open>
  One signal: the moment, counted from the signal, and the code of a forced exit; \<open>None\<close> when the
  process is left to end by itself with code 0.
\<close>

definition handle_signal :: "int \<Rightarrow> int \<Rightarrow> (int \<times> string list) option \<Rightarrow> (int \<times> int) option" where
  "handle_signal watchdogMs exitCode result =
     (case result of
        Some (t, errors) \<Rightarrow>
          if t \<le> watchdogMs then
            (if errors = [] then (if exitCode \<noteq> 0 then Some (t, exitCode) else None) else Some (t, 1))
          else Some (watchdogMs, 1)
      | None \<Rightarrow> Some (watchdogMs, 1))"

section \<open>Facts\<close>

lemma race_range: "takes_time op \<Longrightarrow> 0 \<le> b \<Longrightarrow> 0 \<le> fst (race b op) \<and> fst (race b op) \<le> b"
  by (cases op) auto

text \<open>An attempt costs at most its budget and leaves one entry, whatever the resource does.\<close>

lemma attempt_effect:
  assumes "takes_time op" "0 \<le> b"
  shows "\<exists>d. attemptWithinBudget l op b s = (fst s + d, snd s @ [(l, b, snd (race b op))]) \<and> 0 \<le> d \<and> d \<le> b"
  using race_range [OF assms] by (cases "race b op") (auto simp: attemptWithinBudget_def split: prod.split)

definition client_takes_time :: "redis_client \<Rightarrow> bool" where
  "client_takes_time client \<longleftrightarrow> takes_time (rd_quit client) \<and> (\<forall>e. rd_end client = Some e \<longrightarrow> 0 \<le> e)"

lemma client_close_takes_time: "client_takes_time client \<Longrightarrow> takes_time (close_and_await_end client)"
  by (auto simp: client_takes_time_def close_and_await_end_def closeRedisClient_def split: fate.splits option.splits)

lemma close_once_effect:
  assumes "client_takes_time client"
  shows "\<exists>d out. closeRedisClientOnce l client s =
     (fst s + d, snd s @ (if rd_ended client then [] else [(l, 1000, out)])) \<and> 0 \<le> d \<and> d \<le> 1000"
proof (cases "rd_ended client")
  case True
  then show ?thesis by (intro exI [of _ 0]) (simp add: closeRedisClientOnce_def)
next
  case False
  then show ?thesis using attempt_effect [OF client_close_takes_time [OF assms], of 1000 l s]
    by (auto simp: closeRedisClientOnce_def RESOURCE_SHUTDOWN_BUDGET_MS_def)
qed

definition shutdown_labels :: "api_resources \<Rightarrow> string list" where
  "shutdown_labels r = [''orders_queue.close'', ''queue_depth_probe.close'']
     @ (if rd_ended (ar_store r) then [] else [''redis_store.close''])
     @ (if rd_ended (ar_limit r) then [] else [''redis_limit.close''])
     @ (if ar_pool_ended r then [] else [''pg_pool.end''])"

text \<open>Before the pool at most three seconds have passed.\<close>

lemma before_pool:
  assumes "takes_time (ar_queue r)" "takes_time (ar_probe r)" "client_takes_time (ar_store r)" "client_takes_time (ar_limit r)"
  obtains e pre where "shutdownSequence r now = closePgPoolOnce (ar_pool_ended r) (ar_pool r) (5000 - e) (now + e, pre)"
    and "0 \<le> e" "e \<le> 3000" and "map fst pre @ (if ar_pool_ended r then [] else [''pg_pool.end'']) = shutdown_labels r"
proof -
  obtain d1 o1 where 1: "attemptWithinBudget ''orders_queue.close'' (ar_queue r) 1000 (now, []) = (now + d1, [(''orders_queue.close'', 1000, o1)])"
    "0 \<le> d1" "d1 \<le> 1000"
    using attempt_effect [OF assms(1), of 1000 "''orders_queue.close''" "(now, [])"] by auto
  let ?log2 = "\<lambda>o2. [(''orders_queue.close'', 1000, o1), (''queue_depth_probe.close'', 1000 :: int, o2)]"
  obtain d2 o2 where 2: "attemptWithinBudget ''queue_depth_probe.close'' (ar_probe r) 1000 (now + d1, [(''orders_queue.close'', 1000, o1)])
      = (now + d1 + d2, ?log2 o2)" "0 \<le> d2" "d2 \<le> 1000"
    using attempt_effect [OF assms(2), of 1000 "''queue_depth_probe.close''" "(now + d1, [(''orders_queue.close'', 1000, o1)])"] by auto
  let ?rest = "\<lambda>l client out. if rd_ended client then [] else [(l, 1000 :: int, out)]"
  obtain d3 o3 where 3: "closeRedisClientOnce ''redis_store.close'' (ar_store r) (now + d1 + d2, ?log2 o2)
      = (now + d1 + d2 + d3, ?log2 o2 @ ?rest ''redis_store.close'' (ar_store r) o3)" "0 \<le> d3" "d3 \<le> 1000"
    using close_once_effect [OF assms(3)] by (metis fst_conv snd_conv)
  obtain d4 o4 where 4: "closeRedisClientOnce ''redis_limit.close'' (ar_limit r)
        (now + d1 + d2, ?log2 o2 @ ?rest ''redis_store.close'' (ar_store r) o3)
      = (now + d1 + d2 + d4, (?log2 o2 @ ?rest ''redis_store.close'' (ar_store r) o3)
          @ ?rest ''redis_limit.close'' (ar_limit r) o4)" "0 \<le> d4" "d4 \<le> 1000"
    using close_once_effect [OF assms(4)] by (metis fst_conv snd_conv)
  let ?e = "d1 + d2 + max d3 d4"
  let ?pre = "(?log2 o2 @ ?rest ''redis_store.close'' (ar_store r) o3) @ ?rest ''redis_limit.close'' (ar_limit r) o4"
  have time: "max (now + d1 + d2 + d3) (now + d1 + d2 + d4) = now + ?e" by simp
  have "shutdownSequence r now = closePgPoolOnce (ar_pool_ended r) (ar_pool r) (5000 - ?e) (now + ?e, ?pre)"
    using 1(2,3) 2(2,3) 3(2,3) 4(2,3)
    unfolding shutdownSequence_def Let_def both_def RESOURCE_SHUTDOWN_BUDGET_MS_def PROCESS_SHUTDOWN_BUDGET_MS_def 1(1) 2(1) fst_conv
      3(1) prod.case 4(1) time by simp
  then show thesis
    by (rule that) (use 1(2,3) 2(2,3) 3(2,3) 4(2,3) in \<open>auto simp: shutdown_labels_def\<close>)
qed

text \<open>The controller: the exit code remembers every failure, and the watchdog runs from the first call.\<close>

fun clean_event :: "int \<times> ctl_event \<Rightarrow> bool" where
  "clean_event (_, Called code) = (code = 0)"
| "clean_event (_, Close_done failed) = (\<not> failed)"
| "clean_event (_, Watchdog) = False"

definition ctl_ok :: "(int \<times> ctl_event) list \<Rightarrow> controller \<Rightarrow> bool" where
  "ctl_ok es c \<longleftrightarrow>
     (case ct_exit c of
        None \<Rightarrow> (ct_closing c \<longleftrightarrow> es \<noteq> []) \<and> ct_exitCode c = (if list_all clean_event es then 0 else 1)
          \<and> ct_watchdog c = (if es = [] then None else Some (fst (hd es) + 5000))
      | Some (t, code) \<Rightarrow> es \<noteq> [] \<and> t \<le> fst (hd es) + 5000 \<and> code = (if list_all clean_event es then 0 else 1))"

lemma ctl_run_ok: "ctl_run es c \<Longrightarrow> ctl_ok es c"
proof (induction rule: ctl_run.induct)
  case idle
  show ?case by (simp add: ctl_ok_def new_controller_def)
next
  case (called es c now code)
  then show ?case
    by (auto simp: ctl_ok_def shutdown_called_def armWatchdog_def PROCESS_WATCHDOG_MS_def Let_def hd_append split: if_splits)
next
  case (closed es c now failed)
  then show ?case by (auto simp: ctl_ok_def close_settled_def Let_def hd_append split: if_splits)
next
  case (fired es c d)
  then show ?case by (auto simp: ctl_ok_def watchdog_fires_def hd_append split: if_splits)
qed



text \<open>
  The worker. Every resource is tried whatever the others did, the errors name exactly those that
  failed or were late, and apart from the pool the closing takes at most four seconds; only a pool
  that never closes keeps it from returning. A signal ends the process within ten seconds unless
  everything closed in time without an error and the code is 0.
\<close>

lemma within_range: "takes_time op \<Longrightarrow> 0 \<le> fst (within_budget op 2000) \<and> fst (within_budget op 2000) \<le> 2000"
  using race_range [of op 2000] by (auto simp: within_budget_def split: prod.split)

lemma worker_close_spec:
  assumes "takes_time (wr_queue r)" "takes_time (wr_store r)" "takes_time (wr_admin r)" "wr_pool r = Settles d"
  shows "\<exists>t errors. worker_close r = Some (t, errors) \<and> d \<le> t \<and> t \<le> 4000 + d
     \<and> (errors = [] \<longleftrightarrow> \<not> snd (within_budget (wr_queue r) 2000) \<and> \<not> snd (within_budget (closeRedisClient (wr_store r)) 2000)
          \<and> \<not> snd (within_budget (closeRedisClient (wr_admin r)) 2000))"
proof -
  have c: "takes_time op \<Longrightarrow> takes_time (closeRedisClient op)" for op by (cases op) (simp_all add: closeRedisClient_def)
  show ?thesis
    using within_range [OF assms(1)] within_range [OF c [OF assms(2)]] within_range [OF c [OF assms(3)]] assms(4)
    by (auto simp: worker_close_def Let_def split: prod.splits)
qed

lemma worker_close_hangs: "worker_close r = None \<longleftrightarrow> wr_pool r = Hangs"
  by (auto simp: worker_close_def Let_def split: prod.splits fate.splits)

lemma signal_ends_process:
  "handle_signal WORKER_SHUTDOWN_WATCHDOG_MS code result = None \<longleftrightarrow>
     code = 0 \<and> (\<exists>t. result = Some (t, []) \<and> t \<le> 10000)"
  "handle_signal WORKER_SHUTDOWN_WATCHDOG_MS code result = Some (t, k) \<Longrightarrow> t \<le> 10000 \<and> (k = code \<or> k = 1)"
  by (auto simp: handle_signal_def WORKER_SHUTDOWN_WATCHDOG_MS_def split: option.splits if_splits)

lemma shutdown_once:
  "fst (onApplicationShutdown r now' (snd (onApplicationShutdown r now None))) = shutdownSequence r now"
  by (simp add: onApplicationShutdown_def Let_def)

end
