(* ===== verification/Spec2Isabelle.thy ===== *)
theory Spec2Isabelle
  imports Worker_Boot Audit_Verdict Web_App Shutdown Environment
begin

text \<open>
  A verification library of the flash sale service (src/).

  \<^bold>\<open>The program.\<close> Units of one product are sold inside a time window, one to a user. The API
  (apps/api) answers purchases and status requests; every purchase is decided by a Lua script that
  runs atomically in Redis (packages/redis) on the five keys of a sale: configuration, stock,
  buyers, reservations and metrics. A confirmed reservation is put on a BullMQ queue, from which the
  worker (apps/worker) writes an order row to Postgres. The worker also reconciles: it restores
  ledger entries and jobs that were lost, compensates jobs that failed for good, and recomputes the
  stock. The browser page (apps/web) polls the API and submits purchases. The audit (load/audit.ts)
  decides after a load run whether ledger, tables and queue agree. packages/shared holds the
  vocabulary that all of them use.

  \<^bold>\<open>Conventions.\<close> Fallible code returns \<open>js_error + 'a\<close>; code with effects is a function from the
  state to such a result and the next state (the type \<open>io\<close> of Prelude, with \<open>io_bind\<close>, \<open>io_catch\<close>
  and \<open>io_throw\<close> for sequence, catch and throw). Code that may be interrupted is split at its awaits:
  each segment is a function, and a step relation or a list of events composes the segments in every
  order that the event loop allows. Third-party code (BullMQ, pg, ioredis, Fastify, zod, fetch) is
  an argument of the definitions that call it; what is relied on is a hypothesis that the theorem
  names. A JavaScript number is an integer, an infinity or NaN; machine integers matter only in the
  32-bit stock column, which the schema check of Orders_Repository writes out.

  \<^bold>\<open>Shared vocabulary.\<close>
  \<^item> Prelude: results and effects, JavaScript values, decimal text, association lists, and the
    locale \<open>io_relation\<close>: a reflexive and transitive relation between states that composed effects
    respect when their parts do.
  \<^item> Results (results.ts): outcomes, their texts, status codes and metrics.
  \<^item> Sale_State (sale-state.ts): the state of a sale as a function of clock, window and stock.
  \<^item> Contract (constants.ts, keys.ts, queue.ts, user-id.ts): identifier patterns, key builders, job
    identifiers, the payload check. Job identifiers are shown to be injective within one sale.

  \<^bold>\<open>The ledger in Redis.\<close>
  \<^item> Redis_Scripts (scripts/*.lua.ts): the nine scripts as functions on the record \<open>redis_sale\<close>.
  \<^item> Sale_Ledger: runs of scripts. The locale \<open>reservation_desk\<close> states when books balance; its
    interpretation on the scripts gives no oversell, one unit per user, and sales only inside the
    window. The locale \<open>simulation\<close> gives the refinement of an abstract box office.
  \<^item> Sale_Repair: the repair scripts from states in which that invariant is broken.
  \<^item> Sale_Store (run.ts, registry.ts, sale-store.ts): the store over a server that may lose a command
    or a reply, with the fallback from \<open>EVALSHA\<close> to \<open>EVAL\<close>; ledger text is read back as written.

  \<^bold>\<open>The worker.\<close>
  \<^item> Orders_Repository (order.repository.ts, 001_schema.sql): tables with their constraints,
    transactions whose commit may fail, \<open>persist\<close>, \<open>resolveFailed\<close> and the queries. The locale
    \<open>table_relation\<close> carries that a persisted order is final through every composed operation.
  \<^item> Orders_Queue (order.processor.ts and the job checks of reconciliation.service.ts): the interface
    of BullMQ as the record \<open>bullmq\<close>, the processor, and the repair of a job slot.
  \<^item> Reconciliation (reconciliation.service.ts): scans, restoration, adjudication of buyers without an
    entry, the sweep of failed jobs, the pass and the boot pass.
  \<^item> Worker_Lifecycle (health.service.ts and the triggers of reconciliation.service.ts): the health
    flags under every interleaving of passes and sweeps, and readiness with its grace window.
  \<^item> Orders_Consumer (orders.consumer.ts): preparation, run loop and shutdown as a step relation.
  \<^item> Worker_Boot (\<open>start\<close> to \<open>stop\<close> of reconciliation.service.ts and the session lock): boot attempts,
    the transition to a running consumer and its undoing, with events at every await.

  \<^bold>\<open>The API.\<close>
  \<^item> Api_Clock (clock.service.ts, sale-snapshot.cache.ts): the anchored clock. The locale
    \<open>clock_invariant\<close> is interpreted twice, for the sample window and for the error of the offset.
  \<^item> Api_Http (apps/api/src/common): exception filter, validation pipe, request identifiers.
  \<^item> Rate_Limit (per-user-rate-limit.guard.ts): the limiter's script and guard.
  \<^item> Api_Producer (orders-queue.service.ts): generations of the producer and its in-flight limit.
  \<^item> Api_Purchase (apps/api/src/purchase, apps/api/src/sale): the handlers, composed of the above.
  \<^item> Api_Health (apps/api/src/health, queue-depth-probe.ts): readiness and the depth probe.

  \<^bold>\<open>The page.\<close>
  \<^item> Web_Client (client.ts, decoders.ts, user-id.ts, time.ts): the decoders and the client; a
    confirmation that the client reports is backed by the ledger, and every reply of the purchase
    route is understood.
  \<^item> Web_Poll (useSaleStatus.ts, useOpsSnapshot.ts, polling.ts): both hooks. The locale \<open>polling\<close> is
    the contract of a loop that neither doubles nor dies, interpreted on each hook.
  \<^item> Web_App (App.tsx): state and handlers of the page as a step relation.

  \<^bold>\<open>Processes.\<close>
  \<^item> Environment (both env.schema.ts and env.ts): what an accepted environment guarantees.
  \<^item> Shutdown (both infra.module.ts, process-shutdown.ts, the worker's main.ts): how a process ends,
    within its budget.

  \<^bold>\<open>The audit.\<close>
  \<^item> Load_Audit (audit.ts, contracts.ts): collection, the wait for convergence, the report, and the
    validation of artifacts.
  \<^item> Audit_Verdict: on a quiet system the report passes exactly when the books are closed.

  This theory holds what spans the parts: a purchase that the API confirms reaches the table.

  \<^bold>\<open>Loops.\<close> A loop that reads until a page is short has fuel. One more than the number of rows is
  enough for a table (\<open>scanOrders_complete\<close>), one page more than the rows fill is enough for the
  audit (\<open>quiet_snapshot\<close>). The wait for active jobs polls every 100 ms for 30 s, so 301 polls are
  enough (\<open>drain_active_ends\<close>). The audit's wait takes a turn per 100 ms of its deadline and one more,
  as Load_Audit proves. Cursor scans of Redis end when the server says so; their fuel is a
  parameter, an exhausted scan is an error, and the safety theorems hold for every amount. The
  attempts to boot, and the polls for the session lock, are as many as the run of the process gives
  them: they are counted by an argument over which the theorems quantify.

  \<^bold>\<open>Not modelled.\<close>
  \<^item> Log lines, and the message texts of zod.
  \<^item> The markup of the page and the components that only lay out what they are given, and running
    text with characters outside Latin-1.
  \<^item> The registration of plugins and modules with Fastify and Nest (both main.ts up to \<open>listen\<close>,
    app.module.ts, worker.module.ts) and the options handed to ioredis (client.ts): configuration
    objects for libraries whose code is not part of the repository.
  \<^item> The publication of the audit's report and its command line (\<open>publishAuditReport\<close>,
    \<open>parseAuditCli\<close>, \<open>runCli\<close>): descriptors, fsync and hard links of the operating system.
  \<^item> The load generator (load/k6) and the stress harness (scripts/stress.mjs), which start containers
    and processes around the program, and the documentation scripts of .agents.
  \<^item> Fractions in JSON and the rounding of doubles; delays are exact.
\<close>

section \<open>From a confirmed purchase to a persisted order\<close>

text \<open>Every job for a fresh reservation that the processor accepts reaches the table.\<close>

lemma entry_reaches_table:
  assumes "classifyQueueEntry job = Entry p" and "p_reservationId p = r" "uuid_text r = r" and "valid_payload p"
    and "p_saleId p \<in> sl_id ` set (pg_sales (w_pg w))" "find_user (p_userId p) (pg_orders (w_pg w)) = None"
    and "r \<notin> or_id ` set (pg_orders (w_pg w))" "pg_fates (w_pg w) = []"
  shows "\<exists>w' row. process_order now job w = (Inr (), w') \<and> find_user (p_userId p) (pg_orders (w_pg w')) = Some row
     \<and> or_status row = Persisted \<and> or_id row = r \<and> or_created_at_ms row = p_reservedAtMs p"
proof -
  have "\<forall>row \<in> set (pg_orders (w_pg w)). or_id row \<noteq> r" using assms(7) by force
  then have "enlisted p (w_pg w)" using assms by (auto simp: enlisted_def)
  from process_entry_persists [OF assms(1) this assms(6,8), of now] show ?thesis
    using assms by (auto simp: persisted_row_def)
qed

text \<open>
  C8: no confirmed purchase is lost. A purchase that the service confirms, whatever became of its
  two enqueue attempts, leaves an entry in the ledger that the store can read back; once the slot of
  its job is filled, by one of the attempts or by the repair of the reconciliation pass from that
  entry, processing the job in that slot succeeds and writes a persisted order for exactly this
  user, with the reservation's identifier and the time the buyer was told.
\<close>

theorem confirmed_purchase_is_persisted:
  assumes laws: "queue_laws ops contents" and id: "SALE_ID_PATTERN (API_SALE_ID env)" and user: "valid_user_id u"
    and up: "link (w_redis (ap_world a)) = []" and rq: "REQUEST_ID_PATTERN requestId"
    and uuid: "UUID_PATTERN (pu_reservationId pu)" "uuid_text (pu_reservationId pu) = pu_reservationId pu"
    and time: "0 \<le> now_ms (pu_time pu)" "now_ms (pu_time pu) < 10 ^ 14"
    and run: "service_purchase ops env pu u requestId a = (Inr d, a')" and conf: "de_outcome d = Decided CONFIRMED"
    and i: "i = API_SALE_ID env @ ''-'' @ u" and free: "contents (w_queue (ap_world a)) i = None"
    and env: "SALE_ID wenv = API_SALE_ID env"
    and pg: "API_SALE_ID env \<in> sl_id ` set (pg_sales (w_pg w))" "find_user u (pg_orders (w_pg w)) = None"
      "pu_reservationId pu \<notin> or_id ` set (pg_orders (w_pg w))" "pg_fates (w_pg w) = []"
  shows "\<exists>v live. HGET (reservations_key (sales (w_redis (ap_world a')) (API_SALE_ID env))) u = Some v
     \<and> parseReservationEntry u v = Inr live
     \<and> live = \<lparr>e_userId = u, e_reservationId = pu_reservationId pu, e_reservedAtMs = Some (now_ms (pu_time pu))\<rparr>
     \<and> (\<forall>res q2. (if contents (w_queue (ap_world a')) i = None
                   then enqueueLiveReservation ops wenv live i (w_queue (ap_world a')) = (Inr res, q2)
                   else q2 = w_queue (ap_world a')) \<longrightarrow>
          (\<exists>job st w' row. contents q2 i = Some (job, st) \<and> process_order now job w = (Inr (), w')
             \<and> find_user u (pg_orders (w_pg w')) = Some row \<and> or_status row = Persisted
             \<and> or_id row = pu_reservationId pu \<and> or_created_at_ms row = de_serverTimeMs d))"
proof -
  let ?r = "pu_reservationId pu" and ?q = "w_queue (ap_world a')"
  let ?live = "\<lparr>e_userId = u, e_reservationId = ?r, e_reservedAtMs = Some (now_ms (pu_time pu))\<rparr>"
  obtain res srv where st: "purchase ?r (pu_time pu) (API_SALE_ID env) u (w_redis (ap_world a)) = (Inr res, srv)"
    and ok: "pr_outcome res = CONFIRMED" and d: "d = decision_of res"
    and books: "\<And>i. books (sales (w_redis (ap_world a')) i) = books (sales srv i)"
    and enq: "enqueueConfirmedOrder ops pu (confirmed_payload env u requestId res)
           (ap_producer a, w_queue (ap_world a)) = (Inr (), (ap_producer a', ?q))"
    by (rule confirmed_decision [OF run conf]) blast
  note led = decided_in_script(1,2) [OF id up uuid(1) st ok]
  let ?p = "confirmed_payload env u requestId res" and ?lp = "live_payload wenv ?live"
  have jid: "buildOrdersJobId (API_SALE_ID env) u = Inr i" using id user i by (simp add: buildOrdersJobId_eq)
  have safe: "now_ms (pu_time pu) \<le> max_safe_integer" using time(2) by (simp add: max_safe_integer_def)
  have fields: "p_saleId ?p = API_SALE_ID env" "p_userId ?p = u" "p_reservationId ?p = ?r"
    "p_reservedAtMs ?p = now_ms (pu_time pu)" "p_saleId ?lp = API_SALE_ID env" "p_userId ?lp = u"
    "p_reservationId ?lp = ?r" "p_reservedAtMs ?lp = now_ms (pu_time pu)"
    using led env by (simp_all add: confirmed_payload_def or_empty_def live_payload_def)
  have valid: "valid_payload ?p" "valid_payload ?lp"
    using id user uuid(1) time(1) safe rq reconcile_request_id [OF uuid(1)] fields
    by (simp_all add: valid_payload_def) (simp_all add: confirmed_payload_def live_payload_def)
  have ends: "\<exists>w' row. process_order now job w = (Inr (), w') \<and> find_user u (pg_orders (w_pg w')) = Some row
      \<and> or_status row = Persisted \<and> or_id row = ?r \<and> or_created_at_ms row = de_serverTimeMs d"
    if "classifyQueueEntry job = Entry p" "p = ?p \<or> p = ?lp" for job p
    using entry_reaches_table [OF that(1), of ?r w now] that(2) fields valid uuid(2) pg led(2) d by (auto simp: decision_of_def)
  obtain v where v: "HGET (reservations_key (sales srv (API_SALE_ID env))) u = Some v" "parseReservationEntry u v = Inr ?live"
    using confirmed_entry [OF id up uuid(1) time st ok] by blast
  have "HGET (reservations_key (sales (w_redis (ap_world a')) (API_SALE_ID env))) u = Some v"
    using v(1) books [of "API_SALE_ID env"] by (simp add: books_def)
  moreover have "\<exists>job st w' row. contents q2 i = Some (job, st) \<and> process_order now job w = (Inr (), w')
             \<and> find_user u (pg_orders (w_pg w')) = Some row \<and> or_status row = Persisted
             \<and> or_id row = ?r \<and> or_created_at_ms row = de_serverTimeMs d"
    if q2: "if contents ?q i = None then enqueueLiveReservation ops wenv ?live i ?q = (Inr res2, q2) else q2 = ?q" for res2 q2
  proof (cases "contents ?q i")
    case None
    then have repair: "enqueueLiveReservation ops wenv ?live i ?q = (Inr res2, q2)" using q2 by simp
    have wid: "buildOrdersJobId (SALE_ID wenv) (e_userId ?live) = Inr i" using jid env by simp
    obtain j where "contents q2 = (contents ?q)(i \<mapsto> (j, Job_waiting))" "classifyQueueEntry j = Entry ?lp"
      using live_enqueued [OF laws valid(2) wid None repair] by blast
    then show ?thesis using ends [of j ?lp] by simp
  next
    case (Some slot)
    have fid: "buildOrdersJobId (p_saleId ?p) (p_userId ?p) = Inr i" using jid fields by simp
    from enqueueConfirmedOrder_effect [OF laws valid(1) fid free enq] Some
    obtain j where "contents ?q i = Some (j, Job_waiting)" "classifyQueueEntry j = Entry ?p" by auto
    then show ?thesis using ends [of j ?p] q2 Some by simp
  qed
  ultimately show ?thesis using v(2) by blast
qed

theorem confirmed_purchase_is_persisted_witness:
  "\<exists>d a' q2 job st w' row.
     service_purchase mem_ops sample_api_env sample_run_fates ''bob'' (sample_uuid CHR ''b'') sample_api = (Inr d, a')
     \<and> de_outcome d = Decided CONFIRMED
     \<and> mem_contents q2 ''flash-2026-bob'' = Some (job, st) \<and> process_order 0 job (sample_world [] []) = (Inr (), w')
     \<and> find_user ''bob'' (pg_orders (w_pg w')) = Some row \<and> or_status row = Persisted
     \<and> or_id row = sample_uuid CHR ''a''"
proof -
  let ?env = sample_api_env and ?pu = sample_run_fates and ?rid = "sample_uuid CHR ''b''"
  have api: "sample_api\<lparr>ap_limiter := ap_limiter sample_api\<rparr> = sample_api" by simp
  obtain res a' where run: "service_purchase mem_ops ?env ?pu ''bob'' ?rid sample_api = (Inr (decision_of res), a')"
    and ok: "pr_outcome res = CONFIRMED"
    using sample_confirms [where lim = "ap_limiter sample_api" and requestId = ?rid] unfolding api by blast
  have sale: "API_SALE_ID ?env = ''flash-2026''" by (simp add: sample_api_env_def)
  have id: "SALE_ID_PATTERN (API_SALE_ID ?env)" using sample_server_facts(1) by (simp add: sale)
  have up: "link (w_redis (ap_world sample_api)) = []" by (simp add: sample_api_def sample_server_facts(2))
  have user: "valid_user_id ''bob''" by code_simp
  have rq: "REQUEST_ID_PATTERN ?rid" by code_simp
  have uuid: "UUID_PATTERN (pu_reservationId ?pu)" "uuid_text (pu_reservationId ?pu) = pu_reservationId ?pu"
    by (simp_all add: sample_run_fates_def sample_uuids(1) sample_payload_valid(2))
  have time: "0 \<le> now_ms (pu_time ?pu)" "now_ms (pu_time ?pu) < 10 ^ 14" by (simp_all add: sample_run_fates_def now_ms_def)
  have conf: "de_outcome (decision_of res) = Decided CONFIRMED" using ok by (simp add: decision_of_def)
  have free: "mem_contents (w_queue (ap_world sample_api)) (API_SALE_ID ?env @ ''-'' @ ''bob'') = None"
    by (simp add: sample_api_def empty_queue_def mem_contents_def)
  have env: "SALE_ID sample_env = API_SALE_ID ?env" by (simp add: sale sample_env_def)
  have pg: "API_SALE_ID ?env \<in> sl_id ` set (pg_sales (w_pg (sample_world [] [])))"
    "find_user ''bob'' (pg_orders (w_pg (sample_world [] []))) = None"
    "pu_reservationId ?pu \<notin> or_id ` set (pg_orders (w_pg (sample_world [] [])))" "pg_fates (w_pg (sample_world [] [])) = []"
    by (simp_all add: sale sample_world_def sample_pg_def find_user_def)
  let ?live = "\<lparr>e_userId = ''bob'', e_reservationId = sample_uuid CHR ''a'', e_reservedAtMs = Some 2000\<rparr>"
  let ?q = "w_queue (ap_world a')" and ?i = "''flash-2026-bob''"
  have live: "\<lparr>e_userId = ''bob'', e_reservationId = pu_reservationId ?pu, e_reservedAtMs = Some (now_ms (pu_time ?pu))\<rparr> = ?live"
    by (simp add: sample_run_fates_def now_ms_def)
  have "assertOrdersQueueJobPayload (payload_value (live_payload sample_env ?live)) = Inr (live_payload sample_env ?live)"
    by code_simp
  then obtain res2 q3 where "enqueueLiveReservation mem_ops sample_env ?live ?i ?q = (Inr res2, q3)"
    by (cases "mem_add PERSIST_ORDER_JOB_NAME (payload_value (live_payload sample_env ?live)) ?i ORDERS_JOB_ATTEMPTS ?q")
      (auto simp: enqueueLiveReservation_def mem_ops_def mem_add_def Let_def io_bind_def)
  then have "\<exists>res q2. if mem_contents ?q ?i = None then enqueueLiveReservation mem_ops sample_env ?live ?i ?q = (Inr res, q2)
      else q2 = ?q" by (cases "mem_contents ?q ?i") auto
  moreover have "pu_reservationId ?pu = sample_uuid CHR ''a''" "API_SALE_ID ?env @ ''-'' @ ''bob'' = ?i"
    by (simp_all add: sample_run_fates_def sale)
  ultimately show ?thesis
    using confirmed_purchase_is_persisted [OF mem_queue_laws id user up rq uuid time run conf refl free env pg, of 0] run conf
    unfolding live by metis
qed

end
